(* ===== verification/Prelude.thy ===== *)
theory Prelude
  imports Main "HOL-Library.Word"
begin

text \<open>
  Shared vocabulary of the development.

  A Go \<^verbatim>\<open>string\<close> and a Go \<^verbatim>\<open>[]byte\<close> are both sequences of octets, and a HOL \<^typ>\<open>char\<close> is an
  octet, so both are lists of \<^typ>\<open>char\<close>.  A Go error is a chain of wrapped errors that ends in
  a sentinel; \<open>errors_Is\<close> walks that chain as \<^verbatim>\<open>errors.Is\<close> does.  The static part of a
  \<^verbatim>\<open>fmt.Errorf\<close> text is kept in the wrapper, the formatted arguments are not.  A fallible
  operation returns \<open>'a result\<close>: \<open>Inl\<close> is the error, \<open>Inr\<close> the value.

  The theory also holds the generic facts on lists, prefixes and octets that the components
  share.  Facts that unfold an operation of the Go library are collected in \<open>go_defs\<close>.
\<close>

named_theorems go_defs \<open>definitions of Go library operations\<close>
named_theorems path_intros \<open>closure facts of canonical derivation paths\<close>

type_synonym bytes = "char list"
type_synonym u32 = "32 word"
type_synonym u64 = "64 word"

section \<open>Errors\<close>

datatype (plugins only: code size) sentinel =
    ErrDerivationContextRequired
  | ErrInvalidDerivationContext
  | ErrUnsupportedDerivationScheme
  | ErrDerivationPathInvalid
  | ErrDerivationContextMismatch
  | ErrChainCodeMissing
  | ErrChainCodeInvalid
  | ErrDerivedSigningUnsupported
  | ErrUnsupportedAlgorithmCurve
  | ErrShareNotFound
  | ErrInvalidSharePayload
  | ErrMetadataMismatch
  | ErrUnsupportedVersion
  | ErrInvalidPreParamsHandle
  | ErrForeignPreParamsHandle
  | ErrPreParamsConsumed
  | ErrPreParamsDiscarded
  | ErrPoolClosed
  | ErrPoolEmpty
  | ErrCachePermissions
  | ErrCachePathRequired
  | ErrInvalidCachedPreParams
  | ErrUnknownSenderParty
  | ErrDuplicateFrame
  | ErrFrameTooLarge
  | ErrQueueFull
  | ErrStalledProtocol
  | ErrKeyShareNotFound
  | ErrSignDigestRequired
  | ErrSignDigestMismatch
  | ErrSignAlgorithmUnsupported
  | ErrKeyDerivationDeltaRequired
  | FlowErrSignDigestRequired
  | FlowErrSignDigestMismatch
  | FlowErrSignAlgorithmUnsupported
  | ErrNilRunner
  | ErrDuplicateDKGRun
  | ErrShareReaderRequired
  | ErrShareWriterRequired
  | ErrInvalidSessionDescriptor
  | ErrLocalPartyRequired
  | ErrTransportRequired
  | ErrKeyIDRequired
  | ErrDigestMissing
  | ErrMissingDKGPublicKey
  | ContextCanceled
  | ContextDeadlineExceeded
  | IoEOF
  | IoErrUnexpectedEOF
  | GoPanic string
  | ErrText string

datatype error = Sentinel sentinel | Wrap string error

type_synonym 'a result = "error + 'a"

primrec errors_Is :: "error \<Rightarrow> sentinel \<Rightarrow> bool" where
  "errors_Is (Sentinel s) t = (s = t)"
| "errors_Is (Wrap m e) t = errors_Is e t"

definition errorf :: "sentinel \<Rightarrow> string \<Rightarrow> error" where
  "errorf s msg = Wrap msg (Sentinel s)"

definition errors_New :: "string \<Rightarrow> error" where
  "errors_New msg = Sentinel (ErrText msg)"

lemma errors_Is_errorf [simp]: "errors_Is (errorf s m) t \<longleftrightarrow> s = t"
  by (simp add: errorf_def)

lemma errors_Is_New [simp]: "errors_Is (errors_New m) t \<longleftrightarrow> t = ErrText m"
  by (auto simp: errors_New_def)

text \<open>
  A Go panic leaves the functions of the call stack like an error does, until a deferred
  \<^verbatim>\<open>recover\<close> stops it, so it is an error value of its own kind.
\<close>

definition go_panic :: "string \<Rightarrow> error" where
  "go_panic msg = Sentinel (GoPanic msg)"

definition is_panic :: "error \<Rightarrow> bool" where
  "is_panic e = (case e of Sentinel (GoPanic m) \<Rightarrow> True | _ \<Rightarrow> False)"

lemma is_panic_simps [simp]:
  "is_panic (go_panic m)" "\<not> is_panic (errorf s m)" "\<not> is_panic (errors_New m)"
  "\<not> is_panic (Wrap m e)"
  by (simp_all add: is_panic_def go_panic_def errorf_def errors_New_def)

definition is_ok :: "'a result \<Rightarrow> bool" where
  "is_ok r = (case r of Inl e \<Rightarrow> False | Inr v \<Rightarrow> True)"

lemma is_ok_simps [simp]: "is_ok (Inr v)" "\<not> is_ok (Inl e)"
  by (simp_all add: is_ok_def)

lemma is_ok_iff: "is_ok r \<longleftrightarrow> (\<exists>v. r = Inr v)"
  by (cases r) auto

text \<open>A loop over a list that stops at the first error and collects the results.\<close>

fun map_result :: "('a \<Rightarrow> 'b result) \<Rightarrow> 'a list \<Rightarrow> 'b list result" where
  "map_result f [] = Inr []"
| "map_result f (x # xs) =
     (case f x of Inl e \<Rightarrow> Inl e
      | Inr y \<Rightarrow> (case map_result f xs of Inl e \<Rightarrow> Inl e | Inr ys \<Rightarrow> Inr (y # ys)))"

lemma map_result_Inr_iff:
  "map_result f xs = Inr ys \<longleftrightarrow> list_all2 (\<lambda>x y. f x = Inr y) xs ys"
proof (induction xs arbitrary: ys)
  case Nil
  then show ?case by auto
next
  case (Cons x xs)
  show ?case
    by (cases "map_result f xs") (auto simp: list_all2_Cons1 Cons.IH [symmetric] split: sum.splits)
qed

lemma map_result_length: "map_result f xs = Inr ys \<Longrightarrow> length ys = length xs"
  by (auto simp: map_result_Inr_iff dest: list_all2_lengthD)

lemma map_result_id: "(\<And>x. x \<in> set xs \<Longrightarrow> f x = Inr x) \<Longrightarrow> map_result f xs = Inr xs"
  by (induction xs) auto

lemma map_result_Inr_set:
  "map_result f xs = Inr ys \<Longrightarrow> y \<in> set ys \<Longrightarrow> \<exists>x\<in>set xs. f x = Inr y"
  by (induction xs arbitrary: ys) (fastforce split: sum.splits)+

lemma map_result_Inl_set:
  "map_result f xs = Inl e \<Longrightarrow> \<exists>x\<in>set xs. f x = Inl e"
  by (induction xs) (auto split: sum.splits)

section \<open>Octets\<close>

abbreviation byte_val :: "char \<Rightarrow> nat" where
  "byte_val c \<equiv> of_char c"

abbreviation byte_of :: "nat \<Rightarrow> char" where
  "byte_of n \<equiv> char_of n"

lemma byte_val_less [simp]: "byte_val c < 256"
  using of_char_mod_256 [of c, where ?'a = nat] by (metis mod_less_divisor zero_less_numeral)

lemma byte_val_eq_iff: "byte_val c = byte_val d \<longleftrightarrow> c = d"
  by simp

definition is_ascii :: "string \<Rightarrow> bool" where
  "is_ascii s = list_all (\<lambda>c. byte_val c < 128) s"

lemma is_ascii_simps [simp]:
  "is_ascii []" "is_ascii (c # s) \<longleftrightarrow> byte_val c < 128 \<and> is_ascii s"
  "is_ascii (s @ t) \<longleftrightarrow> is_ascii s \<and> is_ascii t"
  by (simp_all add: is_ascii_def)

section \<open>List facts\<close>

lemma list_all2_refl_on: "(\<And>x. x \<in> set xs \<Longrightarrow> P x x) \<Longrightarrow> list_all2 P xs xs"
  by (induction xs) auto

lemma find_Some_mem: "List.find P xs = Some x \<Longrightarrow> x \<in> set xs \<and> P x"
  by (metis find_Some_iff nth_mem)

lemma length_eq_2_iff: "length xs = 2 \<longleftrightarrow> (\<exists>a b. xs = [a, b])"
  by (auto simp: length_Suc_conv numeral_2_eq_2)

lemma last_two_split: "2 \<le> length xs \<Longrightarrow> \<exists>ys a b. xs = ys @ [a, b]"
proof -
  assume "2 \<le> length xs"
  then have "length (drop (length xs - 2) xs) = 2" by simp
  then obtain a b where "drop (length xs - 2) xs = [a, b]"
    unfolding length_eq_2_iff by blast
  then have "xs = take (length xs - 2) xs @ [a, b]"
    by (metis append_take_drop_id)
  then show ?thesis by blast
qed

section \<open>Interfaces\<close>

text \<open>
  A normaliser returns canonical values only and leaves canonical values alone.  Its clients rely
  on the consequences: normalising twice is normalising once, a value is canonical exactly when it
  is its own normal form, and two inputs with one normal form are interchangeable.
\<close>

locale normalizer =
  fixes norm :: "'a \<Rightarrow> 'a result" and canon :: "'a \<Rightarrow> bool"
  assumes norm_canon: "norm x = Inr y \<Longrightarrow> canon y"
    and canon_fixed: "canon y \<Longrightarrow> norm y = Inr y"
begin

lemma idem: "norm x = Inr y \<Longrightarrow> norm y = Inr y"
  by (rule canon_fixed) (rule norm_canon)

lemma canon_iff_fixed: "canon y \<longleftrightarrow> norm y = Inr y"
  using norm_canon canon_fixed by blast

lemma canon_iff_range: "canon y \<longleftrightarrow> (\<exists>x. norm x = Inr y)"
  using norm_canon canon_fixed by blast

lemma renormalize: "norm x = Inr y \<Longrightarrow> norm y = norm x"
  using idem by simp

end

text \<open>
  A codec is an encoder and a decoder of which the decoder undoes the encoder; in a canonical codec
  every accepted text is also the encoding of what it decodes to.
\<close>

locale codec =
  fixes enc :: "'a \<Rightarrow> 'b result" and dec :: "'b \<Rightarrow> 'a result"
  assumes dec_enc: "enc x = Inr b \<Longrightarrow> dec b = Inr x"
begin

lemma enc_inject: "enc x = Inr b \<Longrightarrow> enc y = Inr b \<Longrightarrow> x = y"
  by (metis dec_enc sum.inject(2))

end

locale canonical_codec = codec +
  assumes enc_dec: "dec b = Inr x \<Longrightarrow> enc x = Inr b"
begin

lemma dec_iff: "dec b = Inr x \<longleftrightarrow> enc x = Inr b"
  using dec_enc enc_dec by blast

lemma dec_inject: "dec b = Inr x \<Longrightarrow> dec b' = Inr x \<Longrightarrow> b = b'"
  by (metis enc_dec sum.inject(2))

end

text \<open>
  A transition system with labelled steps.  \<open>executes\<close> is a finite run with the labels it emits; an
  invariant that holds initially and is kept by every step holds in every state a run reaches.
\<close>

inductive executes :: "('s \<Rightarrow> 'l \<Rightarrow> 's \<Rightarrow> bool) \<Rightarrow> 's \<Rightarrow> 'l list \<Rightarrow> 's \<Rightarrow> bool" for step where
  executes_nil: "executes step s [] s"
| executes_snoc: "executes step s ls t \<Longrightarrow> step t l u \<Longrightarrow> executes step s (ls @ [l]) u"

lemma executes_one: "step s l t \<Longrightarrow> executes step s [l] t"
  using executes_snoc [where ls = "[]", OF executes_nil] by fastforce

locale invariant_system =
  fixes init :: "'s \<Rightarrow> bool" and step :: "'s \<Rightarrow> 'l \<Rightarrow> 's \<Rightarrow> bool" and inv :: "'s \<Rightarrow> bool"
  assumes inv_init: "init s \<Longrightarrow> inv s"
    and inv_step: "inv s \<Longrightarrow> step s l t \<Longrightarrow> inv t"
begin

lemma inv_executes: "executes step s ls t \<Longrightarrow> inv s \<Longrightarrow> inv t"
  by (induction rule: executes.induct) (auto intro: inv_step)

lemma reachable_inv: "init s \<Longrightarrow> executes step s ls t \<Longrightarrow> inv t"
  using inv_executes inv_init by blast

end

lemma executes_trans:
  "executes step t ls' u \<Longrightarrow> executes step s ls t \<Longrightarrow> executes step s (ls @ ls') u"
proof (induction rule: executes.induct)
  case (executes_nil t)
  then show ?case by simp
next
  case (executes_snoc t ls' v l u)
  then have "executes step s ((ls @ ls') @ [l]) u" by (blast intro: executes.executes_snoc)
  then show ?case by simp
qed

end
