(* ===== verification/Go_Strings.thy ===== *)
theory Go_Strings
  imports Prelude
begin

text \<open>
  The operations of the Go package \<^verbatim>\<open>strings\<close> that the program uses, on octet sequences.  \<open>TrimSpace\<close> strips the UTF-8 encodings of every code point with
  \<^verbatim>\<open>unicode.IsSpace\<close>: those encodings are a prefix code, so decoding the first (or last) rune and
  testing it is the same as looking for one of them as a prefix (or suffix).

  Proved here: \<open>TrimSpace\<close> is idempotent and leaves a string with visible ASCII ends alone, and
  splitting and joining on a separator are inverse to each other.
\<close>

section \<open>Prefixes, suffixes, separators\<close>

definition HasPrefix :: "string \<Rightarrow> string \<Rightarrow> bool" where
  "HasPrefix s p = (take (length p) s = p)"

definition HasSuffix :: "string \<Rightarrow> string \<Rightarrow> bool" where
  "HasSuffix s p = (length p \<le> length s \<and> drop (length s - length p) s = p)"

definition TrimPrefix :: "string \<Rightarrow> string \<Rightarrow> string" where
  "TrimPrefix s p = (if HasPrefix s p then drop (length p) s else s)"

definition TrimSuffix :: "string \<Rightarrow> string \<Rightarrow> string" where
  "TrimSuffix s p = (if HasSuffix s p then take (length s - length p) s else s)"

definition ContainsAny :: "string \<Rightarrow> string \<Rightarrow> bool" where
  "ContainsAny s chars = list_ex (\<lambda>c. c \<in> set chars) s"

definition TrimRight_char :: "string \<Rightarrow> char \<Rightarrow> string" where
  "TrimRight_char s c = rev (dropWhile (\<lambda>x. x = c) (rev s))"

fun Split :: "string \<Rightarrow> char \<Rightarrow> string list" where
  "Split [] sep = [[]]"
| "Split (c # s) sep =
     (if c = sep then [] # Split s sep
      else (case Split s sep of [] \<Rightarrow> [[c]] | p # ps \<Rightarrow> (c # p) # ps))"

fun Join :: "string list \<Rightarrow> string \<Rightarrow> string" where
  "Join [] sep = []"
| "Join [p] sep = p"
| "Join (p # q # ps) sep = p @ sep @ Join (q # ps) sep"

lemma HasPrefix_append [simp]: "HasPrefix (p @ s) p"
  by (simp add: HasPrefix_def)

lemma HasPrefix_iff: "HasPrefix s p \<longleftrightarrow> (\<exists>r. s = p @ r)"
  unfolding HasPrefix_def by (metis append_eq_conv_conj append_take_drop_id)

lemma HasSuffix_iff: "HasSuffix s p \<longleftrightarrow> (\<exists>r. s = r @ p)"
  unfolding HasSuffix_def
  by (metis append_take_drop_id length_append add_diff_cancel_right' append_eq_conv_conj le_add2)

lemma TrimPrefix_append [simp]: "TrimPrefix (p @ s) p = s"
  by (simp add: TrimPrefix_def)

lemma TrimSuffix_append [simp]: "TrimSuffix (s @ p) p = s"
  by (simp add: TrimSuffix_def HasSuffix_def)

lemma HasSuffix_single: "HasSuffix s [c] \<longleftrightarrow> s \<noteq> [] \<and> last s = c"
  by (cases s rule: rev_cases) (auto simp: HasSuffix_iff)

lemma TrimSuffix_single: "TrimSuffix s [c] = (if s \<noteq> [] \<and> last s = c then butlast s else s)"
  by (simp add: TrimSuffix_def HasSuffix_single butlast_conv_take)

lemma HasPrefix_single: "HasPrefix s [c] \<longleftrightarrow> s \<noteq> [] \<and> hd s = c"
  by (cases s) (auto simp: HasPrefix_iff)

lemma HasPrefix_pair: "HasPrefix s [c, d] \<longleftrightarrow> (\<exists>r. s = c # d # r)"
  by (auto simp: HasPrefix_iff)

lemma ContainsAny_iff: "ContainsAny s chars \<longleftrightarrow> set s \<inter> set chars \<noteq> {}"
  by (auto simp: ContainsAny_def list_ex_iff)

lemma TrimRight_char_id: "s = [] \<or> last s \<noteq> c \<Longrightarrow> TrimRight_char s c = s"
  by (cases s rule: rev_cases) (auto simp: TrimRight_char_def)

lemma Split_nonempty [simp]: "Split s c \<noteq> []"
  by (cases s) (auto split: list.splits)

lemma Split_no_sep: "p \<in> set (Split s c) \<Longrightarrow> c \<notin> set p"
proof (induction s arbitrary: p)
  case Nil
  then show ?case by simp
next
  case (Cons x s)
  obtain q qs where q: "Split s c = q # qs"
    using Split_nonempty by (metis list.exhaust)
  show ?case
    using Cons.prems Cons.IH by (cases "x = c") (auto simp: q)
qed

lemma Split_no_sep_id: "c \<notin> set s \<Longrightarrow> Split s c = [s]"
  by (induction s) auto

lemma Split_append_sep: "c \<notin> set p \<Longrightarrow> Split (p @ c # s) c = p # Split s c"
  by (induction p) auto

lemma Split_Join:
  "ps \<noteq> [] \<Longrightarrow> (\<And>p. p \<in> set ps \<Longrightarrow> c \<notin> set p) \<Longrightarrow> Split (Join ps [c]) c = ps"
  by (induction ps "[c]" rule: Join.induct) (auto simp: Split_no_sep_id Split_append_sep)

lemma Join_Cons: "ps \<noteq> [] \<Longrightarrow> Join (p # ps) sep = p @ sep @ Join ps sep"
  by (cases ps) auto

lemma Join_Split: "Join (Split s c) [c] = s"
proof (induction s)
  case Nil
  then show ?case by simp
next
  case (Cons x s)
  obtain q qs where q: "Split s c = q # qs"
    using Split_nonempty by (metis list.exhaust)
  show ?case
    using Cons.IH by (cases qs) (auto simp: q)
qed

lemma Join_append: "ps \<noteq> [] \<Longrightarrow> qs \<noteq> [] \<Longrightarrow> Join (ps @ qs) sep = Join ps sep @ sep @ Join qs sep"
  by (induction ps sep rule: Join.induct) (auto simp: Join_Cons)

lemma Join_snoc_ends:
  "ps \<noteq> [] \<Longrightarrow> last ps \<noteq> [] \<Longrightarrow> Join ps sep \<noteq> [] \<and> last (Join ps sep) = last (last ps)"
  by (induction ps sep rule: Join.induct) auto

lemma Join_set: "set (Join ps sep) \<subseteq> (\<Union>p\<in>set ps. set p) \<union> set sep"
  by (induction ps sep rule: Join.induct) auto

section \<open>TrimSpace\<close>

text \<open>
  Encodings of U+0009 to U+000D, U+0020, U+0085, U+00A0, U+1680, U+2000 to U+200A, U+2028,
  U+2029, U+202F, U+205F and U+3000, the code points for which \<^verbatim>\<open>unicode.IsSpace\<close> holds.
\<close>

definition space_encodings :: "string list" where
  "space_encodings =
     [[CHR 0x20], [CHR 0x09], [CHR 0x0A], [CHR 0x0B], [CHR 0x0C], [CHR 0x0D],
      [CHR 0xC2, CHR 0x85], [CHR 0xC2, CHR 0xA0], [CHR 0xE1, CHR 0x9A, CHR 0x80],
      [CHR 0xE2, CHR 0x80, CHR 0x80], [CHR 0xE2, CHR 0x80, CHR 0x81],
      [CHR 0xE2, CHR 0x80, CHR 0x82], [CHR 0xE2, CHR 0x80, CHR 0x83],
      [CHR 0xE2, CHR 0x80, CHR 0x84], [CHR 0xE2, CHR 0x80, CHR 0x85],
      [CHR 0xE2, CHR 0x80, CHR 0x86], [CHR 0xE2, CHR 0x80, CHR 0x87],
      [CHR 0xE2, CHR 0x80, CHR 0x88], [CHR 0xE2, CHR 0x80, CHR 0x89],
      [CHR 0xE2, CHR 0x80, CHR 0x8A], [CHR 0xE2, CHR 0x80, CHR 0xA8],
      [CHR 0xE2, CHR 0x80, CHR 0xA9], [CHR 0xE2, CHR 0x80, CHR 0xAF],
      [CHR 0xE2, CHR 0x81, CHR 0x9F], [CHR 0xE3, CHR 0x80, CHR 0x80]]"

lemma space_encodings_nonempty: "e \<in> set space_encodings \<Longrightarrow> e \<noteq> []"
  by (auto simp: space_encodings_def)

lemma find_space_length:
  assumes "List.find P space_encodings = Some e"
  shows "0 < length e"
proof -
  from assms have "e \<in> set space_encodings"
    by (simp add: find_Some_mem)
  then show ?thesis using space_encodings_nonempty by auto
qed

function TrimLeftSpace :: "string \<Rightarrow> string" where
  "TrimLeftSpace s =
     (case List.find (HasPrefix s) space_encodings of
        None \<Rightarrow> s
      | Some e \<Rightarrow> TrimLeftSpace (drop (length e) s))"
  by pat_completeness auto
termination
proof (relation "measure length")
  fix s e
  assume e: "List.find (HasPrefix s) space_encodings = Some e"
  then have "HasPrefix s e" by (simp add: find_Some_mem)
  then have "length e \<le> length s" by (auto simp: HasPrefix_iff)
  with find_space_length [OF e] show "(drop (length e) s, s) \<in> measure length"
    by (simp del: length_greater_0_conv)
qed simp

function TrimRightSpace :: "string \<Rightarrow> string" where
  "TrimRightSpace s =
     (case List.find (HasSuffix s) space_encodings of
        None \<Rightarrow> s
      | Some e \<Rightarrow> TrimRightSpace (take (length s - length e) s))"
  by pat_completeness auto
termination
proof (relation "measure length")
  fix s e
  assume e: "List.find (HasSuffix s) space_encodings = Some e"
  then have "HasSuffix s e" by (simp add: find_Some_mem)
  then have "length e \<le> length s" by (auto simp: HasSuffix_iff)
  with find_space_length [OF e] show "(take (length s - length e) s, s) \<in> measure length"
    by (simp del: length_greater_0_conv)
qed simp

declare TrimLeftSpace.simps [simp del] TrimRightSpace.simps [simp del]

definition TrimSpace :: "string \<Rightarrow> string" where
  "TrimSpace s = TrimRightSpace (TrimLeftSpace s)"

lemma TrimLeftSpace_none: "List.find (HasPrefix (TrimLeftSpace s)) space_encodings = None"
proof (induction s rule: TrimLeftSpace.induct)
  case (1 s)
  then show ?case
    by (cases "List.find (HasPrefix s) space_encodings") (simp_all add: TrimLeftSpace.simps [of s])
qed

lemma TrimRightSpace_none: "List.find (HasSuffix (TrimRightSpace s)) space_encodings = None"
proof (induction s rule: TrimRightSpace.induct)
  case (1 s)
  then show ?case
    by (cases "List.find (HasSuffix s) space_encodings") (simp_all add: TrimRightSpace.simps [of s])
qed

lemma TrimRightSpace_prefix: "\<exists>t. s = TrimRightSpace s @ t"
proof (induction s rule: TrimRightSpace.induct)
  case (1 s)
  show ?case
  proof (cases "List.find (HasSuffix s) space_encodings")
    case None
    then show ?thesis by (simp add: TrimRightSpace.simps [of s])
  next
    case (Some e)
    then obtain t where "take (length s - length e) s = TrimRightSpace s @ t"
      using "1" by (auto simp: TrimRightSpace.simps [of s])
    then have "s = TrimRightSpace s @ t @ drop (length s - length e) s"
      by (metis append_take_drop_id append_assoc)
    then show ?thesis by blast
  qed
qed

lemma TrimLeftSpace_id: "List.find (HasPrefix s) space_encodings = None \<Longrightarrow> TrimLeftSpace s = s"
  by (simp add: TrimLeftSpace.simps [of s])

lemma TrimRightSpace_id: "List.find (HasSuffix s) space_encodings = None \<Longrightarrow> TrimRightSpace s = s"
  by (simp add: TrimRightSpace.simps [of s])

lemma TrimSpace_idem [simp]: "TrimSpace (TrimSpace s) = TrimSpace s"
proof -
  let ?l = "TrimLeftSpace s"
  obtain t where t: "?l = TrimRightSpace ?l @ t"
    using TrimRightSpace_prefix by blast
  have "\<not> HasPrefix (TrimRightSpace ?l) e" if "e \<in> set space_encodings" for e
  proof
    assume "HasPrefix (TrimRightSpace ?l) e"
    then have "HasPrefix ?l e" by (subst t) (auto simp: HasPrefix_iff)
    with that TrimLeftSpace_none [of s] show False by (auto simp: find_None_iff)
  qed
  then have "TrimLeftSpace (TrimRightSpace ?l) = TrimRightSpace ?l"
    by (intro TrimLeftSpace_id) (auto simp: find_None_iff)
  then show ?thesis
    by (simp add: TrimSpace_def TrimRightSpace_id [OF TrimRightSpace_none])
qed

lemma TrimSpace_Nil [simp]: "TrimSpace [] = []"
  by (simp add: TrimSpace_def TrimLeftSpace.simps TrimRightSpace.simps space_encodings_def
      HasPrefix_def HasSuffix_def)

text \<open>A visible ASCII octet neither starts nor ends a space encoding.\<close>

definition visible :: "char \<Rightarrow> bool" where
  "visible c = (0x20 < byte_val c \<and> byte_val c < 0x7F)"

lemma visible_not_space_first: "visible c \<Longrightarrow> e \<in> set space_encodings \<Longrightarrow> \<not> HasPrefix (c # s) e"
  by (auto simp: space_encodings_def visible_def HasPrefix_def)

lemma visible_not_space_last: "visible c \<Longrightarrow> e \<in> set space_encodings \<Longrightarrow> \<not> HasSuffix (s @ [c]) e"
  by (auto simp: space_encodings_def visible_def HasSuffix_iff)

lemma TrimSpace_visible:
  assumes "s \<noteq> []" "visible (hd s)" "visible (last s)"
  shows "TrimSpace s = s"
proof -
  obtain c t where ct: "s = c # t" using assms(1) by (cases s) auto
  obtain u d where ud: "s = u @ [d]" using assms(1) by (cases s rule: rev_cases) auto
  have "TrimLeftSpace s = s"
    using assms ct visible_not_space_first by (intro TrimLeftSpace_id) (auto simp: find_None_iff)
  moreover have "TrimRightSpace s = s"
    using assms ud visible_not_space_last by (intro TrimRightSpace_id) (auto simp: find_None_iff)
  ultimately show ?thesis by (simp add: TrimSpace_def)
qed

end
