(* ===== verification/Go_Strconv.thy ===== *)
theory Go_Strconv
  imports Go_Strings
begin

text \<open>
  Decimal and hexadecimal text: \<^verbatim>\<open>strconv.ParseUint(s, 10, 32)\<close>, \<^verbatim>\<open>strconv.FormatUint(n, 10)\<close>,
  \<^verbatim>\<open>hex.DecodeString\<close>, \<^verbatim>\<open>hex.EncodeToString\<close>, and the big-endian reading of an octet string that
  \<^verbatim>\<open>big.Int.SetBytes\<close> performs.  Proved: printing and parsing round-trip in both directions (a
  parsed string without leading zeros is the print of its value), and so do hex encoding and
  decoding, with the lower-case digits being exactly what the encoder emits.
\<close>

section \<open>Decimal\<close>

definition is_digit :: "char \<Rightarrow> bool" where
  "is_digit c = (48 \<le> byte_val c \<and> byte_val c \<le> 57)"

definition digit_val :: "char \<Rightarrow> nat" where
  "digit_val c = byte_val c - 48"

definition digit_char :: "nat \<Rightarrow> char" where
  "digit_char d = byte_of (48 + d)"

fun dec_value :: "nat \<Rightarrow> string \<Rightarrow> nat" where
  "dec_value acc [] = acc"
| "dec_value acc (c # s) = dec_value (10 * acc + digit_val c) s"

definition ParseUint32 :: "string \<Rightarrow> nat option" where
  "ParseUint32 s =
     (if s = [] \<or> \<not> list_all is_digit s then None
      else if dec_value 0 s < 2 ^ 32 then Some (dec_value 0 s) else None)"

fun FormatUint :: "nat \<Rightarrow> string" where
  "FormatUint n =
     (if n < 10 then [digit_char n] else FormatUint (n div 10) @ [digit_char (n mod 10)])"

declare FormatUint.simps [simp del]

lemma digit_char_simps [simp]:
  assumes "d < 10"
  shows "is_digit (digit_char d)" "digit_val (digit_char d) = d"
  using assms by (simp_all add: is_digit_def digit_val_def digit_char_def)

lemma digit_char_0: "digit_char 0 = CHR ''0''"
  by code_simp

lemma digit_char_digit_val [simp]: "is_digit c \<Longrightarrow> digit_char (digit_val c) = c"
  by (simp add: is_digit_def digit_val_def digit_char_def)

lemma digit_val_less: "is_digit c \<Longrightarrow> digit_val c < 10"
  by (auto simp: is_digit_def digit_val_def)

lemma digit_visible: "is_digit c \<Longrightarrow> visible c"
  by (simp add: is_digit_def visible_def)

lemma FormatUint_nonempty [simp]: "FormatUint n \<noteq> []" "[] \<noteq> FormatUint n"
  by (subst FormatUint.simps, simp)+

lemma FormatUint_digits: "list_all is_digit (FormatUint n)"
proof (induction n rule: FormatUint.induct)
  case (1 n)
  then show ?case by (cases "n < 10") (simp_all add: FormatUint.simps [of n])
qed

lemma FormatUint_set_digit: "c \<in> set (FormatUint n) \<Longrightarrow> is_digit c"
  using FormatUint_digits [of n] by (auto simp: list_all_iff)

lemma dec_value_append: "dec_value acc (s @ t) = dec_value (dec_value acc s) t"
  by (induction s arbitrary: acc) auto

lemma dec_value_FormatUint [simp]: "dec_value 0 (FormatUint n) = n"
proof (induction n rule: FormatUint.induct)
  case (1 n)
  then show ?case by (cases "n < 10") (simp_all add: FormatUint.simps [of n] dec_value_append)
qed

lemma FormatUint_inject [simp]: "FormatUint m = FormatUint n \<longleftrightarrow> m = n"
  by (metis dec_value_FormatUint)

lemma ParseUint32_FormatUint: "n < 2 ^ 32 \<Longrightarrow> ParseUint32 (FormatUint n) = Some n"
  by (simp add: ParseUint32_def FormatUint_digits)

lemma FormatUint_no_leading_zero: "length (FormatUint n) > 1 \<Longrightarrow> hd (FormatUint n) \<noteq> CHR ''0''"
proof (induction n rule: FormatUint.induct)
  case (1 n)
  show ?case
  proof (cases "n < 10")
    case True
    with "1.prems" show ?thesis by (simp add: FormatUint.simps [of n])
  next
    case False
    show ?thesis
    proof (cases "n div 10 < 10")
      case True
      have "0 < n div 10" using False by (simp add: div_greater_zero_iff)
      with True False have "hd (FormatUint n) = digit_char (n div 10)"
        by (simp add: FormatUint.simps [of n] FormatUint.simps [of "n div 10"])
      moreover have "digit_char (n div 10) \<noteq> CHR ''0''"
        using \<open>0 < n div 10\<close> digit_char_simps(2) [OF True] by (auto simp: digit_val_def)
      ultimately show ?thesis by simp
    next
      case big: False
      then have "1 < length (FormatUint (n div 10))"
        by (subst FormatUint.simps) (simp add: Suc_lessI)
      with False "1.IH" show ?thesis by (simp add: FormatUint.simps [of n])
    qed
  qed
qed

lemma dec_value_ge: "acc * 10 ^ length s \<le> dec_value acc s"
proof (induction s arbitrary: acc)
  case Nil
  then show ?case by simp
next
  case (Cons c s)
  have "acc * 10 ^ length (c # s) \<le> (10 * acc + digit_val c) * 10 ^ length s"
    by (simp add: algebra_simps)
  also have "\<dots> \<le> dec_value (10 * acc + digit_val c) s" by (rule Cons.IH)
  finally show ?case by simp
qed

text \<open>A digit string without a superfluous leading zero is the print of its value.\<close>

lemma FormatUint_dec_value:
  "s \<noteq> [] \<Longrightarrow> list_all is_digit s \<Longrightarrow> length s = 1 \<or> hd s \<noteq> CHR ''0'' \<Longrightarrow>
   FormatUint (dec_value 0 s) = s"
proof (induction s rule: rev_induct)
  case Nil
  then show ?case by simp
next
  case (snoc c s)
  have c: "digit_val c < 10" "digit_char (digit_val c) = c"
    using snoc.prems by (simp_all add: digit_val_less)
  show ?case
  proof (cases "s = []")
    case True
    with c show ?thesis by (simp add: FormatUint.simps)
  next
    case False
    with snoc.prems have hd: "hd s \<noteq> CHR ''0''" and ds: "list_all is_digit s" by auto
    obtain d t where dt: "s = d # t" using False by (cases s) auto
    have "0 < digit_val d"
    proof (rule ccontr)
      assume "\<not> 0 < digit_val d"
      then have "digit_char 0 = d" using ds dt digit_char_digit_val [of d] by simp
      with hd dt show False by (simp add: digit_char_0)
    qed
    then have "0 < dec_value 0 s"
      using dec_value_ge [of "digit_val d" t] dt by (simp add: less_le_trans [of 0 "digit_val d * 10 ^ length t"])
    moreover have "FormatUint (dec_value 0 s) = s"
      using snoc.IH False ds hd by simp
    ultimately show ?thesis
      using c by (simp add: dec_value_append FormatUint.simps [of "10 * dec_value 0 s + digit_val c"])
  qed
qed

lemma ParseUint32_SomeD:
  "ParseUint32 s = Some n \<Longrightarrow> s \<noteq> [] \<and> list_all is_digit s \<and> n = dec_value 0 s \<and> n < 2 ^ 32"
  by (auto simp: ParseUint32_def split: if_splits)

section \<open>Hexadecimal\<close>

definition hex_digit :: "nat \<Rightarrow> char" where
  "hex_digit d = ''0123456789abcdef'' ! d"

definition is_lower_hex :: "char \<Rightarrow> bool" where
  "is_lower_hex c = (c \<in> set ''0123456789abcdef'')"

definition fromHexChar :: "char \<Rightarrow> nat option" where
  "fromHexChar c =
     (let v = byte_val c in
      if 48 \<le> v \<and> v \<le> 57 then Some (v - 48)
      else if 97 \<le> v \<and> v \<le> 102 then Some (v - 97 + 10)
      else if 65 \<le> v \<and> v \<le> 70 then Some (v - 65 + 10)
      else None)"

fun hex_DecodeString :: "string \<Rightarrow> bytes option" where
  "hex_DecodeString [] = Some []"
| "hex_DecodeString [c] = None"
| "hex_DecodeString (c # d # s) =
     (case fromHexChar c of None \<Rightarrow> None
      | Some a \<Rightarrow> (case fromHexChar d of None \<Rightarrow> None
        | Some b \<Rightarrow> (case hex_DecodeString s of None \<Rightarrow> None
          | Some bs \<Rightarrow> Some (byte_of (16 * a + b) # bs))))"

fun hex_EncodeToString :: "bytes \<Rightarrow> string" where
  "hex_EncodeToString [] = []"
| "hex_EncodeToString (c # s) =
     hex_digit (byte_val c div 16) # hex_digit (byte_val c mod 16) # hex_EncodeToString s"

lemma nat_less_16_cases:
  "(d::nat) < 16 \<Longrightarrow> d \<in> {0,1,2,3,4,5,6,7,8,9,10,11,12,13,14,15}"
  by (simp only: insert_iff empty_iff) arith

lemma fromHexChar_hex_digit [simp]: "d < 16 \<Longrightarrow> fromHexChar (hex_digit d) = Some d"
  by (drule nat_less_16_cases) (auto simp: hex_digit_def fromHexChar_def)

lemma hex_digit_lower [simp]: "d < 16 \<Longrightarrow> is_lower_hex (hex_digit d)"
  by (drule nat_less_16_cases) (auto simp: hex_digit_def is_lower_hex_def)

lemma fromHexChar_lower:
  "is_lower_hex c \<Longrightarrow> \<exists>d<16. fromHexChar c = Some d \<and> hex_digit d = c"
  by (auto simp: is_lower_hex_def hex_digit_def fromHexChar_def)

lemma hex_Decode_Encode [simp]: "hex_DecodeString (hex_EncodeToString s) = Some s"
  by (induction s) (auto simp: mult.commute [of 16] less_mult_imp_div_less)

lemma hex_Encode_lower: "list_all is_lower_hex (hex_EncodeToString s)"
  by (induction s) (auto simp: less_mult_imp_div_less)

lemma hex_Encode_length [simp]: "length (hex_EncodeToString s) = 2 * length s"
  by (induction s) auto

lemma hex_Decode_length: "hex_DecodeString s = Some b \<Longrightarrow> length s = 2 * length b"
  by (induction s arbitrary: b rule: hex_DecodeString.induct) (auto split: option.splits)

lemma hex_Encode_Decode:
  "list_all is_lower_hex s \<Longrightarrow> even (length s) \<Longrightarrow>
   \<exists>b. hex_DecodeString s = Some b \<and> hex_EncodeToString b = s"
proof (induction s rule: hex_DecodeString.induct)
  case (3 c d s)
  obtain a where a: "a < 16" "fromHexChar c = Some a" "hex_digit a = c"
    using "3.prems" fromHexChar_lower by auto
  obtain b where b: "b < 16" "fromHexChar d = Some b" "hex_digit b = d"
    using "3.prems" fromHexChar_lower by auto
  obtain bs where bs: "hex_DecodeString s = Some bs" "hex_EncodeToString bs = s"
    using "3.IH" [OF a(2) b(2)] "3.prems" by auto
  from a b bs show ?case by simp
qed auto

lemma hex_Encode_inject [simp]: "hex_EncodeToString a = hex_EncodeToString b \<longleftrightarrow> a = b"
  by (metis hex_Decode_Encode option.inject)

section \<open>Big-endian naturals\<close>

fun be_value :: "nat \<Rightarrow> bytes \<Rightarrow> nat" where
  "be_value acc [] = acc"
| "be_value acc (c # s) = be_value (256 * acc + byte_val c) s"

definition SetBytes :: "bytes \<Rightarrow> nat" where
  "SetBytes b = be_value 0 b"

fun FillBytes :: "nat \<Rightarrow> nat \<Rightarrow> bytes" where
  "FillBytes 0 x = []"
| "FillBytes (Suc n) x = FillBytes n (x div 256) @ [byte_of (x mod 256)]"

lemma be_value_append: "be_value acc (s @ t) = be_value (be_value acc s) t"
  by (induction s arbitrary: acc) auto

lemma SetBytes_snoc [simp]: "SetBytes (s @ [c]) = 256 * SetBytes s + byte_val c"
  by (simp add: SetBytes_def be_value_append)

lemma SetBytes_Nil [simp]: "SetBytes [] = 0"
  by (simp add: SetBytes_def)

lemma FillBytes_length [simp]: "length (FillBytes n x) = n"
  by (induction n arbitrary: x) auto

lemma SetBytes_FillBytes: "x < 256 ^ n \<Longrightarrow> SetBytes (FillBytes n x) = x"
  by (induction n arbitrary: x) (auto simp: less_mult_imp_div_less mult.commute)

lemma SetBytes_bound: "SetBytes s < 256 ^ length s"
proof (induction s rule: rev_induct)
  case Nil
  then show ?case by simp
next
  case (snoc c s)
  have "256 * SetBytes s + byte_val c < 256 * (SetBytes s + 1)" by simp
  also have "\<dots> \<le> 256 * 256 ^ length s" using snoc.IH by (intro mult_le_mono) simp_all
  finally show ?case by simp
qed

lemma FillBytes_SetBytes: "FillBytes (length s) (SetBytes s) = s"
  by (induction s rule: rev_induct) auto

end
