(* ===== verification/Sha256.thy ===== *)
theory Sha256
  imports Go_Strconv
begin

text \<open>
  \<^verbatim>\<open>sha256.Sum256\<close> (FIPS 180-4) on octet strings, used for the derivation-context commitment, the
  frame payload hash, the party keys and the chain-code evidence.  The digest is computed, not
  assumed; what the other theories rely on is that it has 32 octets.
\<close>

unbundle bit_operations_syntax

text \<open>The constants, eight words to a row.\<close>

definition sha_row :: "int \<Rightarrow> u32 list" where
  "sha_row r = map (\<lambda>i. word_of_int (r div 2 ^ (32 * (7 - i)))) [0..<8]"

definition sha_K :: "u32 list" where
  "sha_K = concat (map sha_row [
     0x428a2f9871374491b5c0fbcfe9b5dba53956c25b59f111f1923f82a4ab1c5ed5,
     0xd807aa9812835b01243185be550c7dc372be5d7480deb1fe9bdc06a7c19bf174,
     0xe49b69c1efbe47860fc19dc6240ca1cc2de92c6f4a7484aa5cb0a9dc76f988da,
     0x983e5152a831c66db00327c8bf597fc7c6e00bf3d5a7914706ca635114292967,
     0x27b70a852e1b21384d2c6dfc53380d13650a7354766a0abb81c2c92e92722c85,
     0xa2bfe8a1a81a664bc24b8b70c76c51a3d192e819d6990624f40e3585106aa070,
     0x19a4c1161e376c082748774c34b0bcb5391c0cb34ed8aa4a5b9cca4f682e6ff3,
     0x748f82ee78a5636f84c878148cc7020890befffaa4506cebbef9a3f7c67178f2])"

definition sha_H0 :: "u32 list" where
  "sha_H0 = sha_row 0x6a09e667bb67ae853c6ef372a54ff53a510e527f9b05688c1f83d9ab5be0cd19"

definition rotr :: "nat \<Rightarrow> u32 \<Rightarrow> u32" where
  "rotr n x = drop_bit n x OR push_bit (32 - n) x"

definition sha_big0 :: "u32 \<Rightarrow> u32" where
  "sha_big0 x = rotr 2 x XOR rotr 13 x XOR rotr 22 x"

definition sha_big1 :: "u32 \<Rightarrow> u32" where
  "sha_big1 x = rotr 6 x XOR rotr 11 x XOR rotr 25 x"

definition sha_small0 :: "u32 \<Rightarrow> u32" where
  "sha_small0 x = rotr 7 x XOR rotr 18 x XOR drop_bit 3 x"

definition sha_small1 :: "u32 \<Rightarrow> u32" where
  "sha_small1 x = rotr 17 x XOR rotr 19 x XOR drop_bit 10 x"

definition sha_ch :: "u32 \<Rightarrow> u32 \<Rightarrow> u32 \<Rightarrow> u32" where
  "sha_ch x y z = (x AND y) XOR (NOT x AND z)"

definition sha_maj :: "u32 \<Rightarrow> u32 \<Rightarrow> u32 \<Rightarrow> u32" where
  "sha_maj x y z = (x AND y) XOR (x AND z) XOR (y AND z)"

text \<open>Big-endian words of a block, and the message schedule of 64 words.\<close>

fun be_words :: "bytes \<Rightarrow> u32 list" where
  "be_words (a # b # c # d # s) = of_nat (SetBytes [a, b, c, d]) # be_words s"
| "be_words s = []"

fun sha_schedule :: "nat \<Rightarrow> u32 list \<Rightarrow> u32 list" where
  "sha_schedule 0 w = w"
| "sha_schedule (Suc n) w =
     (let t = length w in
      sha_schedule n
        (w @ [sha_small1 (w ! (t - 2)) + w ! (t - 7) + sha_small0 (w ! (t - 15)) + w ! (t - 16)]))"

fun sha_rounds :: "u32 list \<Rightarrow> u32 list \<Rightarrow> u32 list \<Rightarrow> u32 list" where
  "sha_rounds (k # ks) (w # ws) [a, b, c, d, e, f, g, h] =
     (let t1 = h + sha_big1 e + sha_ch e f g + k + w; t2 = sha_big0 a + sha_maj a b c
      in sha_rounds ks ws [t1 + t2, a, b, c, d + t1, e, f, g])"
| "sha_rounds ks ws st = st"

definition sha_block :: "u32 list \<Rightarrow> bytes \<Rightarrow> u32 list" where
  "sha_block H blk = map2 (+) H (sha_rounds sha_K (sha_schedule 48 (be_words blk)) H)"

definition sha_pad :: "bytes \<Rightarrow> bytes" where
  "sha_pad m =
     m @ [CHR 0x80] @ replicate ((119 - length m mod 64) mod 64) (CHR 0x00)
       @ FillBytes 8 (8 * length m)"

fun sha_blocks :: "nat \<Rightarrow> u32 list \<Rightarrow> bytes \<Rightarrow> u32 list" where
  "sha_blocks 0 H m = H"
| "sha_blocks (Suc n) H m = sha_blocks n (sha_block H (take 64 m)) (drop 64 m)"

definition Sum256 :: "bytes \<Rightarrow> bytes" where
  "Sum256 m =
     (let p = sha_pad m
      in concat (map (\<lambda>x. FillBytes 4 (unat x)) (sha_blocks (length p div 64) sha_H0 p)))"

lemma sha_rounds_length: "length st = 8 \<Longrightarrow> length (sha_rounds ks ws st) = 8"
  by (induction ks ws st rule: sha_rounds.induct) (auto simp: Let_def)

lemma sha_blocks_length: "length H = 8 \<Longrightarrow> length (sha_blocks n H m) = 8"
  by (induction n arbitrary: H m) (auto simp: sha_block_def sha_rounds_length)

lemma Sum256_length [simp]: "length (Sum256 m) = 32"
proof -
  have "length (sha_blocks n sha_H0 m) = 8" for n m
    by (rule sha_blocks_length) (simp add: sha_H0_def sha_row_def)
  then show ?thesis
    by (simp add: Sum256_def Let_def length_concat comp_def sum_list_triv)
qed

lemma sha_pad_length: "length (sha_pad m) mod 64 = 0"
proof -
  obtain q r where qr: "length m = 64 * q + r" "r < 64"
    by (metis mod_less_divisor mult_div_mod_eq zero_less_numeral)
  have "(119 - r) mod 64 = (if r \<le> 55 then 55 - r else 119 - r)"
  proof (cases "r \<le> 55")
    case True
    then have "119 - r = 64 + (55 - r)" by simp
    with True show ?thesis by (simp only: mod_add_self1) simp
  next
    case False
    then show ?thesis by simp
  qed
  then have "length (sha_pad m) = 64 * (if r \<le> 55 then q + 1 else q + 2)"
    using qr by (auto simp: sha_pad_def)
  then show ?thesis by simp
qed

end
