(* ===== verification/Frames.thy ===== *)
theory Frames
  imports Sha256
begin

text \<open>
  The wire frame (\<^verbatim>\<open>protocol/frame.go\<close>) with the pure helpers of the execution that read or build its
  fields: \<open>shortHash\<close> and \<open>inferRoundHint\<close> of \<^verbatim>\<open>internal/tssbnb/execution/outbound.go\<close>,
  \<open>frameDedupKey\<close> of \<^verbatim>\<open>deduper.go\<close>, and the message identifiers of \<^verbatim>\<open>internal/idgen\<close> (whose eight
  random octets are an argument).  Times are nanoseconds since the epoch.

  Shown: a hash is 16 lower-case hex digits, and a deduplication key determines the session,
  stage, sender, sequence number and hash of a frame as long as the free-text fields contain no
  separator.
\<close>

record Frame =
  fr_SessionID :: string
  fr_Stage :: string
  fr_OrgID :: string
  fr_MessageID :: string
  fr_Seq :: u64
  fr_Round :: u32
  fr_RoundHint :: u32
  fr_Broadcast :: bool
  fr_Protocol :: string
  fr_MessageType :: string
  fr_PayloadHash :: string
  fr_DerivationContextHash :: string
  fr_FromParty :: string
  fr_ToParty :: string
  fr_Payload :: bytes
  fr_CorrelationID :: string
  fr_SentAt :: int

definition IsBroadcast :: "Frame \<Rightarrow> bool" where
  "IsBroadcast f = (fr_Broadcast f \<or> fr_ToParty f = [])"

definition shortHash :: "bytes \<Rightarrow> string" where
  "shortHash payload = hex_EncodeToString (take 8 (Sum256 payload))"

definition idgen_New :: "string \<Rightarrow> bytes \<Rightarrow> string" where
  "idgen_New prefix b = prefix @ ''_'' @ hex_EncodeToString b"

text \<open>\<^verbatim>\<open>msgType[strings.LastIndexByte(msgType, '.')+1:]\<close>: what follows the last dot, or everything.\<close>

definition messageName :: "string \<Rightarrow> string" where
  "messageName msgType = rev (takeWhile (\<lambda>c. c \<noteq> CHR ''.'') (rev msgType))"

definition inferRoundHint :: "string \<Rightarrow> u32" where
  "inferRoundHint msgType =
     (let name = messageName msgType in
      if name = ''KGRound1Message'' then 1
      else if name = ''KGRound2Message1'' \<or> name = ''KGRound2Message2'' then 2
      else if name = ''KGRound3Message'' then 3
      else if name = ''SignRound1Message'' \<or> name = ''SignRound1Message1'' \<or> name = ''SignRound1Message2'' then 1
      else if name = ''SignRound2Message'' then 2
      else if name = ''SignRound3Message'' then 3
      else if name = ''SignRound4Message'' then 4
      else if name = ''SignRound5Message'' then 5
      else if name = ''SignRound6Message'' then 6
      else if name = ''SignRound7Message'' then 7
      else if name = ''SignRound8Message'' then 8
      else if name = ''SignRound9Message'' then 9
      else 0)"

definition frameDedupKey :: "Frame \<Rightarrow> string" where
  "frameDedupKey f =
     (let hash = (if fr_PayloadHash f = [] then shortHash (fr_Payload f) else fr_PayloadHash f) in
      Join [fr_SessionID f, fr_Stage f, fr_FromParty f, FormatUint (unat (fr_Seq f)), hash] ''|'')"

section \<open>Facts\<close>

definition frameHash :: "Frame \<Rightarrow> string" where
  "frameHash f = (if fr_PayloadHash f = [] then shortHash (fr_Payload f) else fr_PayloadHash f)"

text \<open>The fields of a key that a peer or the application chooses freely.\<close>

definition key_fields :: "Frame \<Rightarrow> string list" where
  "key_fields f = [fr_SessionID f, fr_Stage f, fr_FromParty f, FormatUint (unat (fr_Seq f)), frameHash f]"

definition separator_free :: "Frame \<Rightarrow> bool" where
  "separator_free f = list_all (\<lambda>s. CHR ''|'' \<notin> set s) (key_fields f)"

lemma frameDedupKey_fields: "frameDedupKey f = Join (key_fields f) ''|''"
  by (simp add: frameDedupKey_def key_fields_def frameHash_def Let_def)

lemma frameDedupKey_nonempty [simp]: "frameDedupKey f \<noteq> []" "[] \<noteq> frameDedupKey f"
  by (simp_all add: frameDedupKey_def Let_def)

lemma shortHash_shape: "length (shortHash p) = 16" "list_all is_lower_hex (shortHash p)"
  by (simp_all add: shortHash_def hex_Encode_lower)

lemma frameDedupKey_inject:
  assumes "separator_free f" "separator_free g" "frameDedupKey f = frameDedupKey g"
  shows "fr_SessionID f = fr_SessionID g \<and> fr_Stage f = fr_Stage g \<and> fr_FromParty f = fr_FromParty g
    \<and> fr_Seq f = fr_Seq g \<and> frameHash f = frameHash g"
proof -
  have "Split (Join (key_fields h) ''|'') CHR ''|'' = key_fields h" if "separator_free h" for h
    using that by (intro Split_Join) (auto simp: separator_free_def list_all_iff key_fields_def)
  then have "key_fields f = key_fields g"
    using assms unfolding frameDedupKey_fields by metis
  then show ?thesis by (auto simp: key_fields_def intro: unsigned_word_eqI)
qed

end
