(* ===== verification/Deduper.thy ===== *)
theory Deduper
  imports Frames
begin

text \<open>
  The inbound replay filter (\<^verbatim>\<open>internal/tssbnb/execution/deduper.go\<close>).  The Go map from keys to
  arrival times is a list of pairs with distinct keys.  Go iterates a map in an unspecified order,
  which matters where several entries are equally old: the order of the scan is the argument
  \<open>iter\<close> of \<open>ShouldAccept\<close>, of which only that it permutes the entries is assumed.  The clock
  reading of the call is the argument \<open>now\<close>, in nanoseconds.

  Shown: the table stays within its capacity, a refusal is one of the two documented errors, and
  within one time-to-live no key is accepted twice until the table has been full.
\<close>

section \<open>The code\<close>

definition dedupPruneEvery :: u64 where
  "dedupPruneEvery = 128"

record deduperConfig =
  dc_TTL :: int
  dc_MaxEntries :: int
  dc_MaxFrameBytes :: int

record ttlFrameDeduper =
  dd_seen :: "(string \<times> int) list"
  dd_insertions :: u64
  dd_ttlNanos :: int
  dd_maxEntries :: int
  dd_maxFrameSize :: int

type_synonym iter_order = "(string \<times> int) list \<Rightarrow> (string \<times> int) list"

definition newTTLFrameDeduper :: "deduperConfig \<Rightarrow> ttlFrameDeduper" where
  "newTTLFrameDeduper cfg =
     \<lparr>dd_seen = [], dd_insertions = 0, dd_ttlNanos = dc_TTL cfg, dd_maxEntries = dc_MaxEntries cfg,
      dd_maxFrameSize = dc_MaxFrameBytes cfg\<rparr>"

definition delete_key :: "string \<Rightarrow> (string \<times> int) list \<Rightarrow> (string \<times> int) list" where
  "delete_key k = filter (\<lambda>e. fst e \<noteq> k)"

definition pruneExpired :: "int \<Rightarrow> ttlFrameDeduper \<Rightarrow> (string \<times> int) list" where
  "pruneExpired now d =
     (if dd_insertions d mod dedupPruneEvery = 0
      then filter (\<lambda>(k, ts). \<not> ts < now - dd_ttlNanos d) (dd_seen d)
      else dd_seen d)"

definition oldestKey :: "(string \<times> int) list \<Rightarrow> string" where
  "oldestKey es =
     fst (foldl (\<lambda>(oldestKey, oldestTS) (k, ts).
            if oldestKey = [] \<or> ts < oldestTS then (k, ts) else (oldestKey, oldestTS)) ([], 0) es)"

definition evictOldest :: "iter_order \<Rightarrow> int \<Rightarrow> (string \<times> int) list \<Rightarrow> (string \<times> int) list" where
  "evictOldest iter maxEntries seen =
     (if int (length seen) \<ge> maxEntries
      then (let k = oldestKey (iter seen) in if k \<noteq> [] then delete_key k seen else seen)
      else seen)"

definition ShouldAccept :: "iter_order \<Rightarrow> int \<Rightarrow> ttlFrameDeduper \<Rightarrow> Frame \<Rightarrow> ttlFrameDeduper \<times> bool result" where
  "ShouldAccept iter now d frame =
     (if int (length (fr_Payload frame)) > dd_maxFrameSize d
      then (d, Inl (errorf ErrFrameTooLarge []))
      else
        let seen = evictOldest iter (dd_maxEntries d) (pruneExpired now d);
            key = frameDedupKey frame
        in if key \<in> fst ` set seen then (d\<lparr>dd_seen := seen\<rparr>, Inl (Sentinel ErrDuplicateFrame))
           else (d\<lparr>dd_seen := seen @ [(key, now)], dd_insertions := dd_insertions d + 1\<rparr>, Inr True))"

definition isDuplicateErr :: "error \<Rightarrow> bool" where
  "isDuplicateErr err = errors_Is err ErrDuplicateFrame"

section \<open>The table\<close>

definition wf_iter :: "iter_order \<Rightarrow> bool" where
  "wf_iter iter \<longleftrightarrow> (\<forall>es. set (iter es) = set es)"

definition wf_deduper :: "ttlFrameDeduper \<Rightarrow> bool" where
  "wf_deduper d \<longleftrightarrow> distinct (map fst (dd_seen d)) \<and> [] \<notin> fst ` set (dd_seen d)
     \<and> 1 \<le> dd_maxEntries d \<and> int (length (dd_seen d)) \<le> dd_maxEntries d"

lemma oldestKey_scan:
  assumes "[] \<notin> fst ` set es" "k0 \<noteq> [] \<or> es \<noteq> []" "k0 = [] \<or> (k0, t0) \<in> A"
  shows "case foldl (\<lambda>(oldestKey, oldestTS) (k, ts).
            if oldestKey = [] \<or> ts < oldestTS then (k, ts) else (oldestKey, oldestTS)) (k0, t0) es of
      (k, t) \<Rightarrow> k \<noteq> [] \<and> (k, t) \<in> A \<union> set es"
  using assms
proof (induction es arbitrary: k0 t0 A)
  case Nil
  then show ?case by auto
next
  case (Cons e es)
  obtain k t where e: "e = (k, t)" by fastforce
  have "k \<noteq> []" using Cons.prems(1) e by auto
  then show ?case
    using Cons.IH [of k t "insert e A"] Cons.IH [of k0 t0 "insert e A"] Cons.prems e by auto
qed

lemma oldestKey_mem:
  assumes "[] \<notin> fst ` set es" "es \<noteq> []"
  shows "oldestKey es \<in> fst ` set es" "oldestKey es \<noteq> []"
  using oldestKey_scan [of es "[]" 0 "{}"] assms
  by (auto simp: oldestKey_def split: prod.splits) force+

lemma delete_key_less:
  assumes "k \<in> fst ` set es"
  shows "length (delete_key k es) < length es"
proof -
  obtain e where "e \<in> set es" "fst e = k" using assms by auto
  then show ?thesis unfolding delete_key_def by (intro length_filter_less) auto
qed

lemma evictOldest_subset: "set (evictOldest iter n seen) \<subseteq> set seen"
  by (auto simp: evictOldest_def delete_key_def Let_def)

lemma evictOldest_distinct: "distinct (map fst seen) \<Longrightarrow> distinct (map fst (evictOldest iter n seen))"
  by (auto simp: evictOldest_def delete_key_def Let_def distinct_map_filter)

lemma evictOldest_room:
  assumes "wf_iter iter" "[] \<notin> fst ` set seen" "1 \<le> n" "int (length seen) \<le> n"
  shows "int (length (evictOldest iter n seen)) < n"
proof (cases "int (length seen) \<ge> n")
  case True
  then have ne: "iter seen \<noteq> []" using assms by (auto simp: wf_iter_def dest: spec [of _ seen])
  have s: "set (iter seen) = set seen" using assms(1) by (simp add: wf_iter_def)
  have "oldestKey (iter seen) \<in> fst ` set seen" "oldestKey (iter seen) \<noteq> []"
    using oldestKey_mem [of "iter seen"] assms(2) ne s by simp_all
  then show ?thesis
    using True assms(4) delete_key_less [of "oldestKey (iter seen)" seen] by (simp add: evictOldest_def Let_def)
next
  case False
  then show ?thesis by (simp add: evictOldest_def)
qed

lemma pruneExpired_subset: "set (pruneExpired now d) \<subseteq> set (dd_seen d)"
  by (auto simp: pruneExpired_def)

lemma pruneExpired_length: "length (pruneExpired now d) \<le> length (dd_seen d)"
  by (simp add: pruneExpired_def)

lemma pruneExpired_distinct: "distinct (map fst (dd_seen d)) \<Longrightarrow> distinct (map fst (pruneExpired now d))"
  by (simp add: pruneExpired_def distinct_map_filter)

lemma newTTLFrameDeduper_wf: "1 \<le> dc_MaxEntries cfg \<Longrightarrow> wf_deduper (newTTLFrameDeduper cfg)"
  by (simp add: newTTLFrameDeduper_def wf_deduper_def)

text \<open>The table that the lookup of a call sees.\<close>

definition tableAt :: "iter_order \<Rightarrow> int \<Rightarrow> ttlFrameDeduper \<Rightarrow> (string \<times> int) list" where
  "tableAt iter now d = evictOldest iter (dd_maxEntries d) (pruneExpired now d)"

lemma tableAt_wf:
  assumes "wf_deduper d" "wf_iter iter"
  shows "distinct (map fst (tableAt iter now d))" "set (tableAt iter now d) \<subseteq> set (dd_seen d)"
    "int (length (tableAt iter now d)) < dd_maxEntries d"
proof -
  show "distinct (map fst (tableAt iter now d))"
    using assms(1) evictOldest_distinct pruneExpired_distinct by (simp add: tableAt_def wf_deduper_def)
  show "set (tableAt iter now d) \<subseteq> set (dd_seen d)"
    using evictOldest_subset pruneExpired_subset unfolding tableAt_def by (rule subset_trans)
  have "[] \<notin> fst ` set (pruneExpired now d)" "int (length (pruneExpired now d)) \<le> dd_maxEntries d"
    using assms(1) pruneExpired_subset [of now d] pruneExpired_length [of now d]
    by (auto simp: wf_deduper_def image_iff subset_iff)
  then show "int (length (tableAt iter now d)) < dd_maxEntries d"
    using assms by (simp add: tableAt_def evictOldest_room wf_deduper_def)
qed

lemma ShouldAccept_cases:
  obtains (large) "int (length (fr_Payload f)) > dd_maxFrameSize d"
      "ShouldAccept iter now d f = (d, Inl (errorf ErrFrameTooLarge []))"
    | (duplicate) "int (length (fr_Payload f)) \<le> dd_maxFrameSize d"
      "frameDedupKey f \<in> fst ` set (tableAt iter now d)"
      "ShouldAccept iter now d f = (d\<lparr>dd_seen := tableAt iter now d\<rparr>, Inl (Sentinel ErrDuplicateFrame))"
    | (fresh) "int (length (fr_Payload f)) \<le> dd_maxFrameSize d"
      "frameDedupKey f \<notin> fst ` set (tableAt iter now d)"
      "ShouldAccept iter now d f =
         (d\<lparr>dd_seen := tableAt iter now d @ [(frameDedupKey f, now)], dd_insertions := dd_insertions d + 1\<rparr>, Inr True)"
  by (cases "int (length (fr_Payload f)) > dd_maxFrameSize d";
      cases "frameDedupKey f \<in> fst ` set (tableAt iter now d)")
     (simp_all add: ShouldAccept_def tableAt_def Let_def)

lemma ShouldAccept_wf:
  assumes "wf_deduper d" "wf_iter iter"
  shows "wf_deduper (fst (ShouldAccept iter now d f))"
proof -
  note t = tableAt_wf [OF assms, of now]
  have e: "[] \<notin> fst ` set (tableAt iter now d)" using t(2) assms(1) by (auto simp: wf_deduper_def)
  show ?thesis
    by (rule ShouldAccept_cases [where f = f and d = d and iter = iter and now = now]) (use assms(1) t e in \<open>auto simp: wf_deduper_def\<close>)
qed

lemma ShouldAccept_frame:
  "dd_maxEntries (fst (ShouldAccept iter now d f)) = dd_maxEntries d"
  "dd_ttlNanos (fst (ShouldAccept iter now d f)) = dd_ttlNanos d"
  "dd_maxFrameSize (fst (ShouldAccept iter now d f)) = dd_maxFrameSize d"
  by (simp_all add: ShouldAccept_def Let_def)

section \<open>Runs of the filter\<close>

text \<open>One call of a run: its iteration order, its clock reading and its frame.\<close>

type_synonym dedup_call = "iter_order \<times> int \<times> Frame"

fun dedup_run :: "ttlFrameDeduper \<Rightarrow> dedup_call list \<Rightarrow> ttlFrameDeduper \<times> bool result list" where
  "dedup_run d [] = (d, [])"
| "dedup_run d ((iter, now, f) # cs) =
     (case ShouldAccept iter now d f of
        (d', r) \<Rightarrow> (case dedup_run d' cs of (d'', rs) \<Rightarrow> (d'', r # rs)))"

text \<open>The keys accepted in a run, in order.\<close>

definition accepted :: "dedup_call list \<Rightarrow> bool result list \<Rightarrow> string list" where
  "accepted cs rs = map (\<lambda>(c, r). frameDedupKey (snd (snd c))) (filter (\<lambda>(c, r). r = Inr True) (zip cs rs))"

lemma accepted_Cons [simp]:
  "accepted ((i, n, f) # cs) (r # rs) = (if r = Inr True then frameDedupKey f # accepted cs rs else accepted cs rs)"
  "accepted [] rs = []"
  by (simp_all add: accepted_def)

lemma tableAt_quiet:
  assumes "int (length (dd_seen d)) < dd_maxEntries d" "\<forall>(k, ts)\<in>set (dd_seen d). now - dd_ttlNanos d \<le> ts"
  shows "tableAt iter now d = dd_seen d"
proof -
  have "pruneExpired now d = dd_seen d"
    using assms(2) by (auto simp: pruneExpired_def filter_id_conv)
  then show ?thesis using assms(1) by (simp add: tableAt_def evictOldest_def)
qed

definition in_window :: "int \<Rightarrow> ttlFrameDeduper \<Rightarrow> dedup_call list \<Rightarrow> bool" where
  "in_window t0 d cs \<longleftrightarrow> (\<forall>(i, n, f)\<in>set cs. t0 \<le> n \<and> n \<le> t0 + dd_ttlNanos d)"

definition since :: "int \<Rightarrow> ttlFrameDeduper \<Rightarrow> bool" where
  "since t0 d \<longleftrightarrow> (\<forall>(k, ts)\<in>set (dd_seen d). t0 \<le> ts)"

lemma tableAt_window:
  assumes "int (length (dd_seen d)) < dd_maxEntries d" "since t0 d" "n \<le> t0 + dd_ttlNanos d"
  shows "tableAt iter n d = dd_seen d"
  using assms by (intro tableAt_quiet) (auto simp: since_def)

lemma dedup_run_window:
  assumes "dedup_run d cs = (d', rs)" "in_window t0 d cs" "since t0 d"
    and "int (length (dd_seen d) + length (accepted cs rs)) < dd_maxEntries d"
  shows "distinct (accepted cs rs) \<and> set (accepted cs rs) \<inter> fst ` set (dd_seen d) = {}
    \<and> fst ` set (dd_seen d') = fst ` set (dd_seen d) \<union> set (accepted cs rs)"
  using assms
proof (induction d cs arbitrary: d' rs rule: dedup_run.induct)
  case (1 d)
  then show ?case by simp
next
  case (2 d iter now f cs)
  obtain d1 r where r: "ShouldAccept iter now d f = (d1, r)" by fastforce
  obtain rs1 where rs: "dedup_run d1 cs = (d', rs1)" "rs = r # rs1"
    using "2.prems"(1) r by (auto split: prod.splits)
  have w: "t0 \<le> now" "now \<le> t0 + dd_ttlNanos d" using "2.prems"(2) by (auto simp: in_window_def)
  have t: "tableAt iter now d = dd_seen d"
    using "2.prems"(3,4) w by (intro tableAt_window) auto
  have fr: "dd_ttlNanos d1 = dd_ttlNanos d" "dd_maxEntries d1 = dd_maxEntries d"
    using ShouldAccept_frame [of iter now d f] r by simp_all
  have w1: "in_window t0 d1 cs" using "2.prems"(2) by (auto simp: in_window_def fr)
  note ih = "2.IH" [OF r [symmetric] rs(1) w1]
  show ?case
  proof (rule ShouldAccept_cases [where f = f and d = d and iter = iter and now = now])
    assume "ShouldAccept iter now d f = (d, Inl (errorf ErrFrameTooLarge []))"
    then show ?thesis using ih r rs "2.prems"(3,4) by simp
  next
    assume "ShouldAccept iter now d f = (d\<lparr>dd_seen := tableAt iter now d\<rparr>, Inl (Sentinel ErrDuplicateFrame))"
    then show ?thesis using ih r rs t "2.prems"(3,4) by simp
  next
    assume f: "frameDedupKey f \<notin> fst ` set (tableAt iter now d)" "ShouldAccept iter now d f =
         (d\<lparr>dd_seen := tableAt iter now d @ [(frameDedupKey f, now)], dd_insertions := dd_insertions d + 1\<rparr>, Inr True)"
    then have d1: "dd_seen d1 = dd_seen d @ [(frameDedupKey f, now)]" "r = Inr True" using r t by auto
    have "since t0 d1" using "2.prems"(3) w(1) by (auto simp: since_def d1)
    moreover have "int (length (dd_seen d1) + length (accepted cs rs1)) < dd_maxEntries d1"
      using "2.prems"(4) rs(2) d1 fr by simp
    ultimately show ?thesis using ih f(1) rs(2) d1 t by auto
  qed
qed

text \<open>Every refusal as a duplicate is of a key that the filter did record.\<close>

lemma dedup_run_refused:
  assumes "dedup_run d cs = (d', rs)" "j < length cs" "rs ! j = Inl (Sentinel ErrDuplicateFrame)"
  shows "frameDedupKey (snd (snd (cs ! j))) \<in> fst ` set (dd_seen d) \<union> set (accepted (take j cs) (take j rs))"
  using assms
proof (induction d cs arbitrary: d' rs j rule: dedup_run.induct)
  case (1 d)
  then show ?case by simp
next
  case (2 d iter now f cs)
  obtain d1 r where r: "ShouldAccept iter now d f = (d1, r)" by fastforce
  obtain rs1 where rs: "dedup_run d1 cs = (d', rs1)" "rs = r # rs1"
    using "2.prems"(1) r by (auto split: prod.splits)
  have sub: "set (tableAt iter now d) \<subseteq> set (dd_seen d)"
    using evictOldest_subset pruneExpired_subset unfolding tableAt_def by (rule subset_trans)
  have seen: "fst ` set (dd_seen d1) \<subseteq> fst ` set (dd_seen d) \<union> (if r = Inr True then {frameDedupKey f} else {})"
    by (rule ShouldAccept_cases [where f = f and d = d and iter = iter and now = now])
       (use r sub in auto)
  show ?case
  proof (cases j)
    case 0
    then have dup: "r = Inl (Sentinel ErrDuplicateFrame)" using "2.prems"(3) rs by simp
    show ?thesis
      by (rule ShouldAccept_cases [where f = f and d = d and iter = iter and now = now])
         (use 0 dup r sub in \<open>auto simp: errorf_def\<close>)
  next
    case (Suc i)
    have "frameDedupKey (snd (snd (cs ! i))) \<in> fst ` set (dd_seen d1) \<union> set (accepted (take i cs) (take i rs1))"
      using "2.IH" [OF r [symmetric] rs(1), of i] "2.prems"(2,3) rs Suc by auto
    with seen Suc rs show ?thesis by (auto split: if_splits)
  qed
qed

lemma dedup_run_wf:
  assumes "wf_deduper d" "\<forall>(i, n, f)\<in>set cs. wf_iter i" "dedup_run d cs = (d', rs)"
  shows "wf_deduper d' \<and> dd_maxEntries d' = dd_maxEntries d"
  using assms
proof (induction d cs arbitrary: d' rs rule: dedup_run.induct)
  case (2 d iter now f cs)
  obtain d1 r where r: "ShouldAccept iter now d f = (d1, r)" by fastforce
  obtain rs1 where rs: "dedup_run d1 cs = (d', rs1)"
    using "2.prems"(3) r by (auto split: prod.splits)
  have "wf_deduper d1" "dd_maxEntries d1 = dd_maxEntries d"
    using ShouldAccept_wf [of d iter now f] ShouldAccept_frame(1) [of iter now d f] "2.prems"(1,2) r by auto
  with "2.IH" [OF r [symmetric] _ _ rs] "2.prems"(2) show ?case by simp
qed simp

section \<open>The interface the execution relies on\<close>

text \<open>
  \<^verbatim>\<open>inboundDeduper\<close>: a filter either takes a frame and remembers its key, or refuses it with one of the
  two errors and remembers nothing new.  It never answers \<^verbatim>\<open>(false, nil)\<close>.
\<close>

locale inbound_deduper =
  fixes accept :: "int \<Rightarrow> 'd \<Rightarrow> Frame \<Rightarrow> 'd \<times> bool result" and keys :: "'d \<Rightarrow> string set"
  assumes accept_true: "accept now d f = (d', Inr b) \<Longrightarrow> b \<and> frameDedupKey f \<in> keys d'"
    and accept_error: "accept now d f = (d', Inl e) \<Longrightarrow>
          (isDuplicateErr e \<or> errors_Is e ErrFrameTooLarge) \<and> keys d' \<subseteq> keys d"

definition seen_keys :: "ttlFrameDeduper \<Rightarrow> string set" where
  "seen_keys d = fst ` set (dd_seen d)"

lemma tableAt_keys: "fst ` set (tableAt iter now d) \<subseteq> seen_keys d"
  using evictOldest_subset [of iter "dd_maxEntries d" "pruneExpired now d"] pruneExpired_subset [of now d]
  by (auto simp: tableAt_def seen_keys_def)

interpretation ttl: inbound_deduper "ShouldAccept iter" seen_keys for iter
proof
  fix now d f d' b
  assume a: "ShouldAccept iter now d f = (d', Inr b)"
  show "b \<and> frameDedupKey f \<in> seen_keys d'"
    by (rule ShouldAccept_cases [where f = f and d = d and iter = iter and now = now])
       (use a in \<open>auto simp: seen_keys_def\<close>)
next
  fix now d f d' e
  assume a: "ShouldAccept iter now d f = (d', Inl e)"
  show "(isDuplicateErr e \<or> errors_Is e ErrFrameTooLarge) \<and> seen_keys d' \<subseteq> seen_keys d"
    by (rule ShouldAccept_cases [where f = f and d = d and iter = iter and now = now])
       (use a tableAt_keys [of iter now d] in \<open>auto simp: seen_keys_def isDuplicateErr_def\<close>)
qed

section \<open>Properties\<close>

text \<open>
  C29.  Replay protection.  From a fresh filter, while all clock readings lie within one time-to-live and
  fewer than \<^verbatim>\<open>MaxEntries\<close> frames have been accepted, no deduplication key is accepted twice; and in
  any run at all, a frame refused as a duplicate has a key that was accepted earlier in the run.
\<close>

theorem dedup_no_replay:
  assumes "dedup_run (newTTLFrameDeduper cfg) cs = (d', rs)"
    and "in_window t0 (newTTLFrameDeduper cfg) cs"
    and "int (length (accepted cs rs)) < dc_MaxEntries cfg"
  shows "distinct (accepted cs rs)
    \<and> (\<forall>j<length cs. rs ! j = Inl (Sentinel ErrDuplicateFrame) \<longrightarrow>
          frameDedupKey (snd (snd (cs ! j))) \<in> set (accepted (take j cs) (take j rs)))"
proof
  show "distinct (accepted cs rs)"
    using dedup_run_window [OF assms(1,2)] assms(3) by (simp add: newTTLFrameDeduper_def since_def)
  show "\<forall>j<length cs. rs ! j = Inl (Sentinel ErrDuplicateFrame) \<longrightarrow>
          frameDedupKey (snd (snd (cs ! j))) \<in> set (accepted (take j cs) (take j rs))"
    using dedup_run_refused [OF assms(1)] by (auto simp: newTTLFrameDeduper_def)
qed

definition sample_frame :: "u64 \<Rightarrow> Frame" where
  "sample_frame n = \<lparr>fr_SessionID = ''s'', fr_Stage = ''sign'', fr_OrgID = [], fr_MessageID = [], fr_Seq = n,
     fr_Round = 0, fr_RoundHint = 0, fr_Broadcast = True, fr_Protocol = ''ecdsa'', fr_MessageType = [],
     fr_PayloadHash = ''h'', fr_DerivationContextHash = ''c'', fr_FromParty = ''A'', fr_ToParty = [],
     fr_Payload = ''p'', fr_CorrelationID = [], fr_SentAt = 0\<rparr>"

lemma sample_key: "frameDedupKey (sample_frame n) = ''s|sign|A|'' @ FormatUint (unat n) @ ''|h''"
  by (simp add: frameDedupKey_def sample_frame_def)

definition sample_config :: "int \<Rightarrow> deduperConfig" where
  "sample_config n = \<lparr>dc_TTL = 600, dc_MaxEntries = n, dc_MaxFrameBytes = 100\<rparr>"

lemma sample_dedup_run:
  "dedup_run (newTTLFrameDeduper (sample_config 5)) [(id, 10, sample_frame 1), (id, 20, sample_frame 1)]
   = (\<lparr>dd_seen = [(frameDedupKey (sample_frame 1), 10)], dd_insertions = 1, dd_ttlNanos = 600,
       dd_maxEntries = 5, dd_maxFrameSize = 100\<rparr>,
      [Inr True, Inl (Sentinel ErrDuplicateFrame)])"
proof -
  have p: "fr_Payload (sample_frame 1) = ''p''" by (simp add: sample_frame_def)
  show ?thesis
    by (simp add: ShouldAccept_def newTTLFrameDeduper_def sample_config_def pruneExpired_def evictOldest_def p
        dedupPruneEvery_def)
qed

theorem dedup_no_replay_witness:
  "distinct (accepted [(id, 10, sample_frame 1), (id, 20, sample_frame 1)]
     [Inr True, Inl (Sentinel ErrDuplicateFrame)])"
proof -
  have "in_window 10 (newTTLFrameDeduper (sample_config 5)) [(id, 10, sample_frame 1), (id, 20, sample_frame 1)]"
    by (simp add: in_window_def newTTLFrameDeduper_def sample_config_def)
  from dedup_no_replay [OF sample_dedup_run this] show ?thesis by (simp add: sample_config_def)
qed

text \<open>
  C30.  The filter's memory is bounded: in every run from a fresh filter with capacity at least one,
  the table holds distinct keys and never more than \<^verbatim>\<open>MaxEntries\<close> of them, for any iteration order of
  the map and any clock.
\<close>

theorem dedup_bounded:
  assumes "1 \<le> dc_MaxEntries cfg" "\<forall>(i, n, f)\<in>set cs. wf_iter i"
    and "dedup_run (newTTLFrameDeduper cfg) cs = (d', rs)"
  shows "distinct (map fst (dd_seen d')) \<and> int (length (dd_seen d')) \<le> dc_MaxEntries cfg"
  using dedup_run_wf [OF newTTLFrameDeduper_wf [OF assms(1)] assms(2,3)]
  by (simp add: wf_deduper_def newTTLFrameDeduper_def)

theorem dedup_bounded_witness:
  "int (length (dd_seen (fst (dedup_run (newTTLFrameDeduper (sample_config 5))
     [(id, 10, sample_frame 1), (id, 20, sample_frame 1)])))) \<le> 5"
proof -
  have "\<forall>(i, n, f)\<in>set [(id :: iter_order, 10 :: int, sample_frame 1), (id, 20, sample_frame 1)]. wf_iter i"
    by (simp add: wf_iter_def)
  from dedup_bounded [OF _ this sample_dedup_run] show ?thesis
    unfolding sample_dedup_run by (simp add: sample_config_def)
qed

text \<open>
  At capacity the filter forgets before it looks: a table filled to \<^verbatim>\<open>MaxEntries\<close> evicts its oldest
  entry first, so an immediate replay of that very frame is accepted again.  Here with capacity 1.
\<close>

theorem dedup_forgets_at_capacity:
  "snd (dedup_run (newTTLFrameDeduper (sample_config 1)) [(id, 10, sample_frame 1), (id, 11, sample_frame 1)])
   = [Inr True, Inr True]"
proof -
  have p: "fr_Payload (sample_frame 1) = ''p''" by (simp add: sample_frame_def)
  show ?thesis
    by (simp add: ShouldAccept_def newTTLFrameDeduper_def sample_config_def pruneExpired_def evictOldest_def p
        dedupPruneEvery_def oldestKey_def delete_key_def)
qed

end
