(* ===== verification/Derivation_Path.thy ===== *)
theory Derivation_Path
  imports Go_Strconv
begin

text \<open>
  Derivation paths (\<^verbatim>\<open>internal/tss/derivation/path.go\<close>, lines 82 to 175): normalisation of an
  account path, of a two-level non-hardened child path and of a full path, and the composition
  of the first two.  A canonical account path is \<open>m/\<close> followed by decimal components below
  \<open>2 ^ 31\<close>, each with or without the hardening mark; a canonical child path is \<open>/a/b\<close> with both
  indices below \<open>2 ^ 31\<close>.

  Shown: the normalisers return canonical paths and fix them, the child normaliser is
  characterised exactly, a full path splits back into the pair it was composed of, and
  composition is injective on canonical pairs.
\<close>

section \<open>The code\<close>

definition normalizeAccountPathComponent :: "string \<Rightarrow> string result" where
  "normalizeAccountPathComponent part =
     (let bad = Inl (errorf ErrInvalidDerivationContext ''account_path segment'') in
      if part = [] \<or> ContainsAny part '' +-'' then bad
      else
        let hardened = HasSuffix part [CHR 0x27] \<or> HasSuffix part ''h'' \<or> HasSuffix part ''H'';
            core = TrimSuffix (TrimSuffix (TrimSuffix part [CHR 0x27]) ''h'') ''H''
        in if core = [] \<or> ContainsAny core [CHR 0x27, CHR ''h'', CHR ''H''] then bad
           else (case ParseUint32 core of
                   None \<Rightarrow> bad
                 | Some n \<Rightarrow>
                     if n \<ge> 0x80000000 then bad
                     else if hardened then Inr (FormatUint n @ [CHR 0x27])
                     else Inr (FormatUint n)))"

definition NormalizeAccountPath :: "string \<Rightarrow> string result" where
  "NormalizeAccountPath raw =
     (let s = TrimSpace raw in
      if s = [] \<or> s = ''m'' \<or> \<not> HasPrefix s ''m/''
      then Inl (errorf ErrInvalidDerivationContext ''account_path'')
      else (case map_result normalizeAccountPathComponent (Split (TrimPrefix s ''m/'') CHR ''/'') of
              Inl err \<Rightarrow> Inl err
            | Inr out \<Rightarrow> Inr (''m/'' @ Join out ''/'')))"

definition childIndex :: "string \<Rightarrow> u32 result" where
  "childIndex part =
     (let bad = Inl (errorf ErrDerivationPathInvalid ''child_path'') in
      if ContainsAny part [CHR 0x27, CHR ''h'', CHR ''H'', CHR '' '', CHR ''+'', CHR ''-''] then bad
      else if part = [] \<or> (length part > 1 \<and> part ! 0 = CHR ''0'') then bad
      else (case ParseUint32 part of
              None \<Rightarrow> bad
            | Some n \<Rightarrow> if n \<ge> 0x80000000 then bad else Inr (of_nat n)))"

definition NormalizeChildPath :: "string \<Rightarrow> (string \<times> u32 list) result" where
  "NormalizeChildPath raw =
     (let s = TrimSpace raw; bad = Inl (errorf ErrDerivationPathInvalid ''child_path'') in
      if s = [] \<or> HasPrefix s ''m/'' \<or> \<not> HasPrefix s ''/'' then bad
      else
        let parts = Split (TrimPrefix s ''/'') CHR ''/'' in
        if length parts \<noteq> 2 then bad
        else (case map_result childIndex parts of
                Inl err \<Rightarrow> Inl err
              | Inr indices \<Rightarrow>
                  Inr (''/'' @ FormatUint (unat (indices ! 0)) @ ''/''
                         @ FormatUint (unat (indices ! 1)), indices)))"

definition CanonicalFullPath :: "string \<Rightarrow> string \<Rightarrow> string" where
  "CanonicalFullPath accountPath childPath = TrimRight_char accountPath CHR ''/'' @ childPath"

definition NormalizeFullPath :: "string \<Rightarrow> string result" where
  "NormalizeFullPath raw =
     (let s = TrimSpace raw; bad = Inl (errorf ErrDerivationPathInvalid ''full_path'') in
      if s = [] \<or> (s \<noteq> ''m'' \<and> \<not> HasPrefix s ''m/'') then bad
      else
        let parts = Split (TrimPrefix s ''m/'') CHR ''/'' in
        if length parts < 3 then bad
        else
          let accountParts = take (length parts - 2) parts;
              childParts = drop (length parts - 2) parts
          in (case NormalizeAccountPath (''m/'' @ Join accountParts ''/'') of
                Inl err \<Rightarrow> Inl err
              | Inr account \<Rightarrow>
                  (case NormalizeChildPath (''/'' @ Join childParts ''/'') of
                     Inl err \<Rightarrow> Inl err
                   | Inr (child, _) \<Rightarrow> Inr (CanonicalFullPath account child))))"

section \<open>Canonical forms\<close>

definition canonical_component :: "string \<Rightarrow> bool" where
  "canonical_component c \<longleftrightarrow>
     (\<exists>n<2 ^ 31. c = FormatUint n \<or> c = FormatUint n @ [CHR 0x27])"

definition canonical_account :: "string \<Rightarrow> bool" where
  "canonical_account p \<longleftrightarrow>
     (\<exists>cs. cs \<noteq> [] \<and> (\<forall>c\<in>set cs. canonical_component c) \<and> p = ''m/'' @ Join cs ''/'')"

definition child_path :: "nat \<Rightarrow> nat \<Rightarrow> string" where
  "child_path a b = ''/'' @ FormatUint a @ ''/'' @ FormatUint b"

definition canonical_child :: "string \<Rightarrow> bool" where
  "canonical_child p \<longleftrightarrow> (\<exists>a b. a < 2 ^ 31 \<and> b < 2 ^ 31 \<and> p = child_path a b)"

subsection \<open>Components\<close>

lemma digit_not:
  assumes "is_digit c"
  shows "c \<noteq> CHR ''/''" "c \<noteq> CHR 0x27" "c \<noteq> CHR ''h''" "c \<noteq> CHR ''H''"
    "c \<noteq> CHR '' ''" "c \<noteq> CHR ''+''" "c \<noteq> CHR ''-''" "c \<noteq> CHR ''m''"
  using assms by (auto simp: is_digit_def)

lemma FormatUint_last_digit: "is_digit (last (FormatUint n))"
  by (rule FormatUint_set_digit [of _ n]) simp

lemma FormatUint_hd_digit: "is_digit (hd (FormatUint n))"
  by (rule FormatUint_set_digit [of _ n]) simp

lemma FormatUint_not_in:
  assumes "\<And>c. is_digit c \<Longrightarrow> c \<notin> A"
  shows "set (FormatUint n) \<inter> A = {}"
  using assms FormatUint_set_digit by blast

lemma FormatUint_no_slash [simp]: "CHR ''/'' \<notin> set (FormatUint n)"
  using FormatUint_set_digit digit_not(1) by blast

lemma TrimSuffix_FormatUint:
  assumes "\<not> is_digit c"
  shows "TrimSuffix (FormatUint n) [c] = FormatUint n"
  using assms FormatUint_last_digit [of n] by (auto simp: TrimSuffix_single)

lemma not_digit_marks [simp]:
  "\<not> is_digit CHR 0x27" "\<not> is_digit CHR ''h''" "\<not> is_digit CHR ''H''" "\<not> is_digit CHR ''/''"
  by (auto simp: is_digit_def)

lemma component_canonical:
  "normalizeAccountPathComponent part = Inr c \<Longrightarrow> canonical_component c"
  by (auto simp: normalizeAccountPathComponent_def canonical_component_def Let_def not_le
      split: if_splits option.splits)

lemma component_fixes_plain:
  assumes "n < 2 ^ 31"
  shows "normalizeAccountPathComponent (FormatUint n) = Inr (FormatUint n)"
  using assms FormatUint_last_digit [of n] digit_not
    FormatUint_not_in [of "set '' +-''" n] FormatUint_not_in [of "{CHR 0x27, CHR ''h'', CHR ''H''}" n]
  by (auto simp: normalizeAccountPathComponent_def ContainsAny_iff HasSuffix_single
      TrimSuffix_FormatUint ParseUint32_FormatUint)

lemma component_fixes_hardened:
  assumes "n < 2 ^ 31"
  shows "normalizeAccountPathComponent (FormatUint n @ [CHR 0x27]) = Inr (FormatUint n @ [CHR 0x27])"
  using assms digit_not
    FormatUint_not_in [of "set '' +-''" n] FormatUint_not_in [of "{CHR 0x27, CHR ''h'', CHR ''H''}" n]
  by (auto simp: normalizeAccountPathComponent_def ContainsAny_iff HasSuffix_single
      TrimSuffix_FormatUint ParseUint32_FormatUint)

lemma component_fixes: "canonical_component c \<Longrightarrow> normalizeAccountPathComponent c = Inr c"
  by (auto simp: canonical_component_def component_fixes_plain component_fixes_hardened)

lemma component_shape:
  assumes "canonical_component c"
  shows "c \<noteq> []" "CHR ''/'' \<notin> set c" "visible (last c)" "last c \<noteq> CHR ''/''"
proof -
  have q: "visible CHR 0x27" by (simp add: visible_def)
  show "c \<noteq> []" "CHR ''/'' \<notin> set c"
    using assms by (auto simp: canonical_component_def)
  show "visible (last c)" "last c \<noteq> CHR ''/''"
    using assms q digit_visible FormatUint_last_digit digit_not(1)
    by (auto simp: canonical_component_def)
qed

subsection \<open>Account paths\<close>

lemma account_Split_components:
  "(\<forall>c\<in>set cs. canonical_component c) \<Longrightarrow> cs \<noteq> [] \<Longrightarrow> Split (Join cs ''/'') CHR ''/'' = cs"
  by (rule Split_Join) (auto dest: component_shape(2))

lemma canonical_account_ends:
  assumes "canonical_account p"
  shows "p \<noteq> []" "hd p = CHR ''m''" "visible (last p)" "last p \<noteq> CHR ''/''"
proof -
  obtain cs where cs: "cs \<noteq> []" "\<forall>c\<in>set cs. canonical_component c" "p = ''m/'' @ Join cs ''/''"
    using assms by (auto simp: canonical_account_def)
  then have l: "canonical_component (last cs)" by simp
  have "Join cs ''/'' \<noteq> []" "last (Join cs ''/'') = last (last cs)"
    using Join_snoc_ends [OF cs(1) component_shape(1) [OF l]] by auto
  with cs(3) component_shape [OF l]
  show "p \<noteq> []" "hd p = CHR ''m''" "visible (last p)" "last p \<noteq> CHR ''/''"
    by auto
qed

lemma visible_marks [simp]: "visible CHR ''m''" "visible CHR ''/''"
  by (simp_all add: visible_def)

lemma canonical_account_TrimSpace: "canonical_account p \<Longrightarrow> TrimSpace p = p"
  by (rule TrimSpace_visible) (simp_all add: canonical_account_ends)

lemma NormalizeAccountPath_canonical:
  assumes "NormalizeAccountPath raw = Inr p"
  shows "canonical_account p"
proof -
  let ?parts = "Split (TrimPrefix (TrimSpace raw) ''m/'') CHR ''/''"
  obtain out where out: "map_result normalizeAccountPathComponent ?parts = Inr out"
      "p = ''m/'' @ Join out ''/''"
    using assms by (auto simp: NormalizeAccountPath_def Let_def split: if_splits sum.splits)
  have "out \<noteq> []" using map_result_length [OF out(1)] by auto
  moreover have "\<forall>c\<in>set out. canonical_component c"
    using map_result_Inr_set [OF out(1)] component_canonical by blast
  ultimately show ?thesis using out(2) by (auto simp: canonical_account_def)
qed

lemma NormalizeAccountPath_fixes:
  assumes "canonical_account p"
  shows "NormalizeAccountPath p = Inr p"
proof -
  obtain cs where cs: "cs \<noteq> []" "\<forall>c\<in>set cs. canonical_component c" "p = ''m/'' @ Join cs ''/''"
    using assms by (auto simp: canonical_account_def)
  have "map_result normalizeAccountPathComponent cs = Inr cs"
    using cs(2) by (intro map_result_id) (simp add: component_fixes)
  with cs show ?thesis
    using canonical_account_TrimSpace [OF assms]
    by (simp add: NormalizeAccountPath_def account_Split_components HasPrefix_def TrimPrefix_def)
qed

lemma NormalizeAccountPath_error:
  "NormalizeAccountPath raw = Inl e \<Longrightarrow> errors_Is e ErrInvalidDerivationContext"
  by (auto simp: NormalizeAccountPath_def normalizeAccountPathComponent_def Let_def
      split: if_splits sum.splits option.splits dest!: map_result_Inl_set)

subsection \<open>Child paths\<close>

lemma child_path_TrimSpace: "TrimSpace (child_path a b) = child_path a b"
  using digit_visible [OF FormatUint_last_digit [of b]]
  by (intro TrimSpace_visible) (simp_all add: child_path_def)

lemma childIndex_Inr_iff:
  "childIndex part = Inr w \<longleftrightarrow> (\<exists>n<2 ^ 31. part = FormatUint n \<and> w = of_nat n)"
proof
  assume *: "childIndex part = Inr w"
  then obtain n where n: "ParseUint32 part = Some n" "n < 0x80000000" "w = of_nat n"
    and z: "part \<noteq> []" "length part = 1 \<or> part ! 0 \<noteq> CHR ''0''"
    by (auto simp: childIndex_def Let_def not_le le_Suc_eq not_less split: if_splits option.splits)
  from ParseUint32_SomeD [OF n(1)] z have "FormatUint n = part"
    by (auto simp: FormatUint_dec_value hd_conv_nth)
  with n show "\<exists>n<2 ^ 31. part = FormatUint n \<and> w = of_nat n" by auto
next
  assume "\<exists>n<2 ^ 31. part = FormatUint n \<and> w = of_nat n"
  then obtain n where n: "n < 2 ^ 31" "part = FormatUint n" "w = of_nat n" by blast
  have "FormatUint n ! 0 \<noteq> CHR ''0''" if "length (FormatUint n) > 1"
    using FormatUint_no_leading_zero [OF that] by (simp add: hd_conv_nth)
  moreover have "set (FormatUint n) \<inter> set [CHR 0x27, CHR ''h'', CHR ''H'', CHR '' '', CHR ''+'', CHR ''-''] = {}"
    by (rule FormatUint_not_in) (auto dest: digit_not)
  ultimately show "childIndex part = Inr w"
    using n by (auto simp: childIndex_def Let_def ContainsAny_iff ParseUint32_FormatUint)
qed

lemma unat_child_index: "n < 2 ^ 31 \<Longrightarrow> unat (of_nat n :: u32) = n"
  by (simp add: unat_of_nat take_bit_nat_eq_self)

lemma child_parts_iff:
  "(Split t CHR ''/'' = [FormatUint a, FormatUint b]) \<longleftrightarrow> t = FormatUint a @ ''/'' @ FormatUint b"
proof
  assume "Split t CHR ''/'' = [FormatUint a, FormatUint b]"
  then show "t = FormatUint a @ ''/'' @ FormatUint b"
    using Join_Split [of t "CHR ''/''"] by simp
next
  assume "t = FormatUint a @ ''/'' @ FormatUint b"
  then show "Split t CHR ''/'' = [FormatUint a, FormatUint b]"
    by (simp add: Split_append_sep Split_no_sep_id)
qed

lemma child_indices_iff:
  "length parts = 2 \<and> map_result childIndex parts = Inr idx \<longleftrightarrow>
   (\<exists>a b. a < 2 ^ 31 \<and> b < 2 ^ 31 \<and> parts = [FormatUint a, FormatUint b] \<and> idx = [of_nat a, of_nat b])"
  by (auto simp: map_result_Inr_iff childIndex_Inr_iff length_eq_2_iff list_all2_Cons1)

lemma NormalizeChildPath_iff:
  "NormalizeChildPath raw = Inr (p, idx) \<longleftrightarrow>
   (\<exists>a b. a < 2 ^ 31 \<and> b < 2 ^ 31 \<and> TrimSpace raw = child_path a b
          \<and> p = child_path a b \<and> idx = [of_nat a, of_nat b])"
  (is "?L \<longleftrightarrow> ?R")
proof
  assume ?L
  then obtain t where t: "TrimSpace raw = ''/'' @ t" "length (Split t CHR ''/'') = 2"
      "map_result childIndex (Split t CHR ''/'') = Inr idx"
      "p = ''/'' @ FormatUint (unat (idx ! 0)) @ ''/'' @ FormatUint (unat (idx ! 1))"
    by (auto simp: NormalizeChildPath_def Let_def HasPrefix_iff TrimPrefix_def split: if_splits sum.splits)
  then obtain a b where "a < 2 ^ 31" "b < 2 ^ 31" "Split t CHR ''/'' = [FormatUint a, FormatUint b]"
      "idx = [of_nat a, of_nat b]"
    using child_indices_iff by blast
  with t show ?R
    by (intro exI [of _ a] exI [of _ b]) (simp add: child_parts_iff child_path_def unat_child_index)
next
  assume ?R
  then obtain a b where ab: "a < 2 ^ 31" "b < 2 ^ 31" "TrimSpace raw = child_path a b"
      "p = child_path a b" "idx = [of_nat a, of_nat b]"
    by blast
  have "Split (FormatUint a @ ''/'' @ FormatUint b) CHR ''/'' = [FormatUint a, FormatUint b]"
    by (simp add: child_parts_iff)
  moreover have "map_result childIndex [FormatUint a, FormatUint b] = Inr idx"
    using ab child_indices_iff by blast
  ultimately show ?L
    using ab by (simp add: NormalizeChildPath_def Let_def HasPrefix_def TrimPrefix_def child_path_def
        unat_child_index)
qed

lemma canonical_childI: "a < 2 ^ 31 \<Longrightarrow> b < 2 ^ 31 \<Longrightarrow> canonical_child (child_path a b)"
  by (auto simp: canonical_child_def)

lemma NormalizeChildPath_canonical: "NormalizeChildPath raw = Inr (p, idx) \<Longrightarrow> canonical_child p"
  by (auto simp: NormalizeChildPath_iff intro: canonical_childI)

lemma NormalizeChildPath_fixes: "canonical_child p \<Longrightarrow> \<exists>idx. NormalizeChildPath p = Inr (p, idx)"
  unfolding canonical_child_def NormalizeChildPath_iff by (metis child_path_TrimSpace)

lemma NormalizeChildPath_error:
  "NormalizeChildPath raw = Inl e \<Longrightarrow> errors_Is e ErrDerivationPathInvalid"
  by (auto simp: NormalizeChildPath_def childIndex_def Let_def
      split: if_splits sum.splits option.splits dest!: map_result_Inl_set)

subsection \<open>Full paths\<close>

lemma CanonicalFullPath_canonical: "canonical_account a \<Longrightarrow> CanonicalFullPath a c = a @ c"
  by (simp add: CanonicalFullPath_def TrimRight_char_id canonical_account_ends)

lemma full_path_parts:
  assumes "cs \<noteq> []" "\<forall>c\<in>set cs. canonical_component c"
  shows "Split (Join cs ''/'' @ child_path a b) CHR ''/'' = cs @ [FormatUint a, FormatUint b]"
proof -
  have "Join cs ''/'' @ child_path a b = Join (cs @ [FormatUint a, FormatUint b]) ''/''"
    using assms(1) by (simp add: Join_append child_path_def)
  moreover have "Split (Join (cs @ [FormatUint a, FormatUint b]) ''/'') CHR ''/''
      = cs @ [FormatUint a, FormatUint b]"
    using assms(2) component_shape(2) by (intro Split_Join) auto
  ultimately show ?thesis by simp
qed

lemma full_path_TrimSpace:
  assumes "canonical_account p"
  shows "TrimSpace (p @ child_path a b) = p @ child_path a b"
  using canonical_account_ends [OF assms] digit_visible [OF FormatUint_last_digit [of b]]
  by (intro TrimSpace_visible) (simp_all add: child_path_def)

lemma NormalizeFullPath_fixes:
  assumes "canonical_account p" "canonical_child c"
  shows "NormalizeFullPath (CanonicalFullPath p c) = Inr (CanonicalFullPath p c)"
proof -
  obtain cs where cs: "cs \<noteq> []" "\<forall>c\<in>set cs. canonical_component c" "p = ''m/'' @ Join cs ''/''"
    using assms(1) by (auto simp: canonical_account_def)
  obtain a b where ab: "a < 2 ^ 31" "b < 2 ^ 31" "c = child_path a b"
    using assms(2) by (auto simp: canonical_child_def)
  obtain idx where idx: "NormalizeChildPath c = Inr (c, idx)"
    using NormalizeChildPath_fixes [OF assms(2)] by blast
  have len: "2 < length (cs @ [FormatUint a, FormatUint b])"
    using cs(1) by (cases cs) auto
  have j: "''/'' @ Join [FormatUint a, FormatUint b] ''/'' = c"
    by (simp add: ab(3) child_path_def)
  have s: "TrimSpace (''m/'' @ Join cs ''/'' @ c) = ''m/'' @ Join cs ''/'' @ c"
    using full_path_TrimSpace [OF assms(1), of a b] by (simp add: cs(3) ab(3))
  have full: "CanonicalFullPath p c = ''m/'' @ Join cs ''/'' @ c"
    by (simp add: CanonicalFullPath_canonical [OF assms(1)]) (simp add: cs(3))
  have pre: "TrimPrefix (''m/'' @ Join cs ''/'' @ c) ''m/'' = Join cs ''/'' @ c"
    by (rule TrimPrefix_append)
  have norm: "NormalizeAccountPath (''m/'' @ Join cs ''/'') = Inr p"
    using NormalizeAccountPath_fixes [OF assms(1)] by (simp add: cs(3))
  show ?thesis
    unfolding NormalizeFullPath_def Let_def full s pre
    using len full_path_parts [OF cs(1,2), of a b] norm idx j full
    by (simp add: ab(3) [symmetric] HasPrefix_pair)
qed

lemma NormalizeFullPath_canonical:
  "NormalizeFullPath raw = Inr p \<Longrightarrow>
   \<exists>a c. canonical_account a \<and> canonical_child c \<and> p = CanonicalFullPath a c"
  by (fastforce simp: NormalizeFullPath_def Let_def split: if_splits sum.splits
      dest: NormalizeAccountPath_canonical NormalizeChildPath_canonical)

lemma full_path_injective:
  assumes "canonical_account p" "canonical_account p'" "canonical_child c" "canonical_child c'"
    and "CanonicalFullPath p c = CanonicalFullPath p' c'"
  shows "p = p' \<and> c = c'"
proof -
  obtain cs where cs: "cs \<noteq> []" "\<forall>c\<in>set cs. canonical_component c" "p = ''m/'' @ Join cs ''/''"
    using assms(1) by (auto simp: canonical_account_def)
  obtain ds where ds: "ds \<noteq> []" "\<forall>c\<in>set ds. canonical_component c" "p' = ''m/'' @ Join ds ''/''"
    using assms(2) by (auto simp: canonical_account_def)
  obtain a b a' b' where ab: "c = child_path a b" "c' = child_path a' b'"
    using assms(3,4) by (auto simp: canonical_child_def)
  have "Join cs ''/'' @ child_path a b = Join ds ''/'' @ child_path a' b'"
    using assms(5) unfolding CanonicalFullPath_canonical [OF assms(1)]
      CanonicalFullPath_canonical [OF assms(2)] by (simp add: cs(3) ds(3) ab)
  then have "cs @ [FormatUint a, FormatUint b] = ds @ [FormatUint a', FormatUint b']"
    using full_path_parts [OF cs(1,2)] full_path_parts [OF ds(1,2)] by metis
  then show ?thesis by (simp add: ab cs(3) ds(3))
qed

section \<open>Acceptance of account components\<close>

text \<open>
  The hardening marks that the three \<^verbatim>\<open>TrimSuffix\<close> calls strip: an apostrophe, an \<open>h\<close> or an \<open>H\<close>, or
  several of them as long as they stand in the order \<open>H\<close>, \<open>h\<close>, apostrophe.
\<close>

definition hardening_marks :: "string list" where
  "hardening_marks =
     [[CHR 0x27], ''h'', ''H'', ''h'' @ [CHR 0x27], ''H'' @ [CHR 0x27], ''Hh'', ''Hh'' @ [CHR 0x27]]"

definition component_core :: "string \<Rightarrow> string" where
  "component_core part = TrimSuffix (TrimSuffix (TrimSuffix part [CHR 0x27]) ''h'') ''H''"

lemma TrimSuffix_single_cases: "\<exists>m\<in>{[], [c]}. s = TrimSuffix s [c] @ m"
  by (auto simp: TrimSuffix_single)

lemma component_core_split:
  "\<exists>mark\<in>set ([] # hardening_marks). part = component_core part @ mark"
proof -
  let ?a = "TrimSuffix part [CHR 0x27]"
  let ?b = "TrimSuffix ?a ''h''"
  obtain m1 where m1: "m1 \<in> {[], [CHR 0x27]}" "part = ?a @ m1"
    using TrimSuffix_single_cases [where s = part and c = "CHR 0x27"] by blast
  obtain m2 where m2: "m2 \<in> {[], ''h''}" "?a = ?b @ m2"
    using TrimSuffix_single_cases [where s = ?a and c = "CHR ''h''"] by blast
  obtain m3 where m3: "m3 \<in> {[], ''H''}" "?b = component_core part @ m3"
    using TrimSuffix_single_cases [where s = ?b and c = "CHR ''H''"] by (auto simp: component_core_def)
  have "part = component_core part @ (m3 @ m2 @ m1)" using m1(2) m2(2) m3(2) by (metis append_assoc)
  moreover have "m3 @ m2 @ m1 \<in> set ([] # hardening_marks)"
    using m1(1) m2(1) m3(1) by (auto simp: hardening_marks_def)
  ultimately have "\<exists>mark\<in>set ([] # hardening_marks). part = component_core part @ mark" by blast
  then show ?thesis by blast
qed

lemma component_core_digits:
  assumes "ds \<noteq> []" "list_all is_digit ds" "mark \<in> set ([] # hardening_marks)"
  shows "component_core (ds @ mark) = ds"
proof -
  have "last ds \<notin> {CHR 0x27, CHR ''h'', CHR ''H''}"
    using assms(1,2) digit_not [of "last ds"] by (auto simp: list_all_iff)
  with assms(1,3) show ?thesis
    by (auto simp: component_core_def hardening_marks_def TrimSuffix_single butlast_append)
qed

lemma hardened_suffix:
  assumes "ds \<noteq> []" "list_all is_digit ds" "mark \<in> set ([] # hardening_marks)"
  shows "(HasSuffix (ds @ mark) [CHR 0x27] \<or> HasSuffix (ds @ mark) ''h'' \<or> HasSuffix (ds @ mark) ''H'')
    \<longleftrightarrow> mark \<noteq> []"
proof -
  have "last ds \<notin> {CHR 0x27, CHR ''h'', CHR ''H''}"
    using assms(1,2) digit_not [of "last ds"] by (auto simp: list_all_iff)
  with assms(1,3) show ?thesis by (auto simp: hardening_marks_def HasSuffix_single)
qed

lemma normalizeAccountPathComponent_core:
  "normalizeAccountPathComponent part =
     (if part = [] \<or> ContainsAny part '' +-'' \<or> component_core part = []
         \<or> ContainsAny (component_core part) [CHR 0x27, CHR ''h'', CHR ''H'']
      then Inl (errorf ErrInvalidDerivationContext ''account_path segment'')
      else (case ParseUint32 (component_core part) of
              None \<Rightarrow> Inl (errorf ErrInvalidDerivationContext ''account_path segment'')
            | Some n \<Rightarrow> if n \<ge> 2 ^ 31 then Inl (errorf ErrInvalidDerivationContext ''account_path segment'')
                else Inr (FormatUint n @ (if HasSuffix part [CHR 0x27] \<or> HasSuffix part ''h'' \<or> HasSuffix part ''H''
                                          then [CHR 0x27] else []))))"
  by (simp add: normalizeAccountPathComponent_def component_core_def Let_def split: option.splits)

text \<open>
  One account-path component is accepted exactly when it is a non-empty digit string with a
  value below \<open>2 ^ 31\<close>, followed by nothing or by a hardening mark, and it is rewritten to the same
  number in canonical decimal with an apostrophe exactly when it was marked as hardened.
\<close>

theorem account_component_exact:
  "normalizeAccountPathComponent part = Inr c \<longleftrightarrow>
   (\<exists>ds mark. part = ds @ mark \<and> ds \<noteq> [] \<and> list_all is_digit ds \<and> mark \<in> set ([] # hardening_marks)
      \<and> dec_value 0 ds < 2 ^ 31
      \<and> c = FormatUint (dec_value 0 ds) @ (if mark = [] then [] else [CHR 0x27]))"
  (is "?L \<longleftrightarrow> ?R")
proof
  assume L: ?L
  then obtain n where n: "ParseUint32 (component_core part) = Some n" "n < 2 ^ 31"
    "c = FormatUint n @ (if HasSuffix part [CHR 0x27] \<or> HasSuffix part ''h'' \<or> HasSuffix part ''H'' then [CHR 0x27] else [])"
    by (auto simp: normalizeAccountPathComponent_core not_le split: if_splits option.splits)
  obtain mark where m: "mark \<in> set ([] # hardening_marks)" "part = component_core part @ mark"
    using component_core_split by blast
  note d = ParseUint32_SomeD [OF n(1)]
  have "(HasSuffix part [CHR 0x27] \<or> HasSuffix part ''h'' \<or> HasSuffix part ''H'') \<longleftrightarrow> mark \<noteq> []"
    using hardened_suffix [of "component_core part" mark] d m by simp
  with n d m show ?R by (intro exI [of _ "component_core part"] exI [of _ mark]) simp
next
  assume ?R
  then obtain ds mark where r: "part = ds @ mark" "ds \<noteq> []" "list_all is_digit ds"
    "mark \<in> set ([] # hardening_marks)" "dec_value 0 ds < 2 ^ 31"
    "c = FormatUint (dec_value 0 ds) @ (if mark = [] then [] else [CHR 0x27])" by blast
  have dig: "set ds \<inter> {CHR '' '', CHR ''+'', CHR ''-'', CHR 0x27, CHR ''h'', CHR ''H''} = {}"
  proof -
    have "c \<notin> {CHR '' '', CHR ''+'', CHR ''-'', CHR 0x27, CHR ''h'', CHR ''H''}" if "c \<in> set ds" for c
      using that r(3) digit_not [of c] by (simp add: list_all_iff)
    then show ?thesis by blast
  qed
  have core: "component_core part = ds" unfolding r(1) by (rule component_core_digits [OF r(2-4)])
  have p: "ParseUint32 ds = Some (dec_value 0 ds)" using r by (simp add: ParseUint32_def)
  have s: "(HasSuffix part [CHR 0x27] \<or> HasSuffix part ''h'' \<or> HasSuffix part ''H'') \<longleftrightarrow> mark \<noteq> []"
    unfolding r(1) by (rule hardened_suffix [OF r(2-4)])
  have mk: "set mark \<inter> {CHR '' '', CHR ''+'', CHR ''-''} = {}"
    using r(4) by (auto simp: hardening_marks_def)
  have c: "\<not> ContainsAny part '' +-''" "\<not> ContainsAny ds [CHR 0x27, CHR ''h'', CHR ''H'']"
    using dig mk by (auto simp: ContainsAny_iff r(1))
  have "\<not> (2 ^ 31 \<le> dec_value 0 ds)" using r(5) by simp
  moreover have "part \<noteq> []" using r(1,2) by simp
  ultimately show ?L unfolding normalizeAccountPathComponent_core core s using r(2,6) p c by simp
qed

section \<open>The normalisers as instances of the interface\<close>

definition normalizeChild :: "string \<Rightarrow> string result" where
  "normalizeChild raw = (case NormalizeChildPath raw of Inl err \<Rightarrow> Inl err | Inr (p, _) \<Rightarrow> Inr p)"

definition canonical_full :: "string \<Rightarrow> bool" where
  "canonical_full p \<longleftrightarrow> (\<exists>a c. canonical_account a \<and> canonical_child c \<and> p = CanonicalFullPath a c)"

interpretation account_norm: normalizer NormalizeAccountPath canonical_account
  by unfold_locales (auto intro: NormalizeAccountPath_canonical NormalizeAccountPath_fixes)

interpretation child_norm: normalizer normalizeChild canonical_child
proof
  show "canonical_child y" if "normalizeChild x = Inr y" for x y
    using that by (auto simp: normalizeChild_def split: sum.splits dest: NormalizeChildPath_canonical)
  show "normalizeChild y = Inr y" if "canonical_child y" for y
    using NormalizeChildPath_fixes [OF that] by (auto simp: normalizeChild_def)
qed

interpretation full_norm: normalizer NormalizeFullPath canonical_full
  unfolding canonical_full_def
  by unfold_locales (blast dest: NormalizeFullPath_canonical, blast intro: NormalizeFullPath_fixes)

lemma NormalizeFullPath_error:
  "NormalizeFullPath raw = Inl e \<Longrightarrow>
   errors_Is e ErrDerivationPathInvalid \<or> errors_Is e ErrInvalidDerivationContext"
  by (auto simp: NormalizeFullPath_def Let_def split: if_splits sum.splits
      dest: NormalizeAccountPath_error NormalizeChildPath_error)

section \<open>Properties\<close>

text \<open>
  C18.  A child path is accepted exactly when, with surrounding white space removed, it is \<open>/a/b\<close> in
  canonical decimal with both indices below \<open>2 ^ 31\<close> (so never hardened); the result is then that
  text and the two indices.  Everything else is refused with \<^verbatim>\<open>ErrDerivationPathInvalid\<close>.
\<close>

theorem child_path_exact:
  "case NormalizeChildPath raw of
     Inr (p, idx) \<Rightarrow> (\<exists>a b. a < 2 ^ 31 \<and> b < 2 ^ 31 \<and> TrimSpace raw = child_path a b
                         \<and> p = child_path a b \<and> idx = [of_nat a, of_nat b])
   | Inl e \<Rightarrow> errors_Is e ErrDerivationPathInvalid
              \<and> (\<nexists>a b. a < 2 ^ 31 \<and> b < 2 ^ 31 \<and> TrimSpace raw = child_path a b)"
proof (cases "NormalizeChildPath raw")
  case (Inl e)
  then have "\<nexists>p idx. NormalizeChildPath raw = Inr (p, idx)" by simp
  then have "\<nexists>a b. a < 2 ^ 31 \<and> b < 2 ^ 31 \<and> TrimSpace raw = child_path a b"
    unfolding NormalizeChildPath_iff by blast
  with Inl show ?thesis using NormalizeChildPath_error [OF Inl] by simp
next
  case (Inr r)
  obtain p idx where r: "r = (p, idx)" by fastforce
  have "\<exists>a b. a < 2 ^ 31 \<and> b < 2 ^ 31 \<and> TrimSpace raw = child_path a b
          \<and> p = child_path a b \<and> idx = [of_nat a, of_nat b]"
    using Inr unfolding r NormalizeChildPath_iff .
  with Inr r show ?thesis by simp
qed

text \<open>
  Normalising an account path yields a canonical account path that normalises to itself, the
  canonical paths are exactly the fixed points, and every refusal is \<^verbatim>\<open>ErrInvalidDerivationContext\<close>.
\<close>

theorem account_path_canonical:
  "(case NormalizeAccountPath raw of
      Inr p \<Rightarrow> canonical_account p \<and> NormalizeAccountPath p = Inr p
    | Inl e \<Rightarrow> errors_Is e ErrInvalidDerivationContext)
   \<and> (canonical_account q \<longleftrightarrow> NormalizeAccountPath q = Inr q)"
  using account_norm.norm_canon account_norm.canon_fixed account_norm.canon_iff_fixed
    NormalizeAccountPath_error
  by (auto split: sum.splits)

text \<open>
  C19.  A full path composed from a canonical account path and a canonical child path is accepted
  unchanged, and the pair can be read back from it: composition is injective.
\<close>

theorem full_path_roundtrip:
  assumes "canonical_account p" "canonical_child c"
  shows "NormalizeFullPath (CanonicalFullPath p c) = Inr (CanonicalFullPath p c)
    \<and> (canonical_account p' \<longrightarrow> canonical_child c' \<longrightarrow> CanonicalFullPath p' c' = CanonicalFullPath p c
         \<longrightarrow> p' = p \<and> c' = c)"
  using full_norm.canon_fixed [of "CanonicalFullPath p c"] assms full_path_injective [of p' p c' c]
  by (auto simp: canonical_full_def)

lemma canonical_account_example: "canonical_account (''m/44'' @ [CHR 0x27])"
proof -
  have "FormatUint 44 = ''44''" by code_simp
  then have "canonical_component (''44'' @ [CHR 0x27])"
    unfolding canonical_component_def by (intro exI [of _ 44]) simp
  then show ?thesis
    unfolding canonical_account_def by (intro exI [of _ "[''44'' @ [CHR 0x27]]"]) simp
qed

lemma canonical_child_example: "canonical_child ''/0/7''"
proof -
  have "child_path 0 7 = ''/0/7''" by code_simp
  then show ?thesis using canonical_childI [of 0 7] by simp
qed

theorem full_path_roundtrip_witness:
  "NormalizeFullPath (CanonicalFullPath (''m/44'' @ [CHR 0x27]) ''/0/7'')
     = Inr (CanonicalFullPath (''m/44'' @ [CHR 0x27]) ''/0/7'')"
  using full_path_roundtrip [OF canonical_account_example canonical_child_example] by blast

end
