(* ===== verification/Public_Key.thy ===== *)
theory Public_Key
  imports Go_Strconv Go_Unicode
begin

text \<open>
  Uncompressed SEC1 public keys (\<^verbatim>\<open>internal/tss/derivation/public_key.go\<close>).  The curve comes from
  tss-lib (\<^verbatim>\<open>tsslib.S256()\<close>), which is not part of this repository: its field size, its membership
  test and the \<^verbatim>\<open>NewECPoint\<close> constructor are the parameter \<open>curve\<close> of the definitions, and
  \<open>wf_curve\<close> states what the code relies on.  \<open>secp256k1\<close> is the instance with the domain
  parameters of SEC 2; it satisfies \<open>wf_curve\<close>.  \<^verbatim>\<open>elliptic.Marshal\<close> and \<^verbatim>\<open>elliptic.Unmarshal\<close> are the
  generic implementations of the Go library.

  Shown: validation accepts exactly the empty string and the canonical encodings of curve points,
  and decoding inverts encoding.
\<close>

section \<open>The curve library\<close>

text \<open>\<^verbatim>\<open>X()\<close> and \<^verbatim>\<open>Y()\<close> of a point are big integers or nil.\<close>

record ECPoint =
  pt_X :: "int option"
  pt_Y :: "int option"

record curve =
  cv_BitSize :: nat
  cv_P :: int
  cv_IsOnCurve :: "int \<Rightarrow> int \<Rightarrow> bool"
  cv_NewECPoint :: "int \<Rightarrow> int \<Rightarrow> ECPoint option"

definition mk_point :: "int \<Rightarrow> int \<Rightarrow> ECPoint" where
  "mk_point x y = \<lparr>pt_X = Some x, pt_Y = Some y\<rparr>"

definition wf_curve :: "curve \<Rightarrow> bool" where
  "wf_curve c \<longleftrightarrow>
     cv_BitSize c = 256 \<and> cv_P c \<le> 2 ^ 256 \<and> \<not> cv_IsOnCurve c 0 0
     \<and> (\<forall>x y. cv_IsOnCurve c x y \<longrightarrow> 0 \<le> x \<and> x < cv_P c \<and> 0 \<le> y \<and> y < cv_P c)
     \<and> (\<forall>x y. cv_IsOnCurve c x y \<longrightarrow> cv_NewECPoint c x y = Some (mk_point x y))"

definition secp256k1_P :: int where
  "secp256k1_P = 2 ^ 256 - 2 ^ 32 - 977"

definition secp256k1_IsOnCurve :: "int \<Rightarrow> int \<Rightarrow> bool" where
  "secp256k1_IsOnCurve x y =
     (0 \<le> x \<and> x < secp256k1_P \<and> 0 \<le> y \<and> y < secp256k1_P \<and>
      (y * y) mod secp256k1_P = (x * x * x + 7) mod secp256k1_P)"

definition secp256k1 :: curve where
  "secp256k1 =
     \<lparr>cv_BitSize = 256, cv_P = secp256k1_P, cv_IsOnCurve = secp256k1_IsOnCurve,
      cv_NewECPoint = (\<lambda>x y. if secp256k1_IsOnCurve x y then Some (mk_point x y) else None)\<rparr>"

lemma wf_secp256k1: "wf_curve secp256k1"
  by (auto simp: wf_curve_def secp256k1_def secp256k1_IsOnCurve_def secp256k1_P_def)

lemma wf_curve_simps:
  assumes "wf_curve c"
  shows "cv_BitSize c = 256" "cv_P c \<le> 2 ^ 256" "\<not> cv_IsOnCurve c 0 0"
  using assms by (simp_all add: wf_curve_def)

lemma wf_curve_onD:
  assumes "wf_curve c" "cv_IsOnCurve c x y"
  shows "0 \<le> x" "x < cv_P c" "0 \<le> y" "y < cv_P c" "x < 2 ^ 256" "y < 2 ^ 256"
    "cv_NewECPoint c x y = Some (mk_point x y)" "\<not> (x = 0 \<and> y = 0)"
proof -
  show b: "0 \<le> x" "x < cv_P c" "0 \<le> y" "y < cv_P c"
    and "cv_NewECPoint c x y = Some (mk_point x y)" and "\<not> (x = 0 \<and> y = 0)"
    using assms by (auto simp: wf_curve_def)
  show "x < 2 ^ 256" "y < 2 ^ 256"
    using b(2,4) wf_curve_simps(2) [OF assms(1)] by linarith+
qed

section \<open>Marshal and Unmarshal\<close>

definition byteLen :: "curve \<Rightarrow> nat" where
  "byteLen c = (cv_BitSize c + 7) div 8"

definition elliptic_Marshal :: "curve \<Rightarrow> int \<Rightarrow> int \<Rightarrow> bytes result" where
  "elliptic_Marshal c x y =
     (if \<not> cv_IsOnCurve c x y then Inl (go_panic ''attempted operation on invalid point'')
      else if nat \<bar>x\<bar> \<ge> 256 ^ byteLen c \<or> nat \<bar>y\<bar> \<ge> 256 ^ byteLen c
      then Inl (go_panic ''math/big: buffer too small to fit value'')
      else Inr (CHR 0x04 # FillBytes (byteLen c) (nat \<bar>x\<bar>) @ FillBytes (byteLen c) (nat \<bar>y\<bar>)))"

definition elliptic_Unmarshal :: "curve \<Rightarrow> bytes \<Rightarrow> (int \<times> int) option" where
  "elliptic_Unmarshal c data =
     (if length data \<noteq> 1 + 2 * byteLen c then None
      else if data ! 0 \<noteq> CHR 0x04 then None
      else
        let x = int (SetBytes (take (byteLen c) (drop 1 data)));
            y = int (SetBytes (drop (1 + byteLen c) data))
        in if x \<ge> cv_P c \<or> y \<ge> cv_P c then None
           else if \<not> cv_IsOnCurve c x y then None
           else Some (x, y))"

section \<open>The code\<close>

definition ValidateUncompressedSecp256k1Hex :: "curve \<Rightarrow> string \<Rightarrow> unit result" where
  "ValidateUncompressedSecp256k1Hex c input =
     (if input = [] then Inr ()
      else if HasPrefix input ''0x'' \<or> ToLower input \<noteq> input \<or> length input \<noteq> 130
      then Inl (errorf ErrInvalidDerivationContext ''derived_public_key is not canonical uncompressed hex'')
      else (case hex_DecodeString input of
              None \<Rightarrow> Inl (errorf ErrInvalidDerivationContext ''derived_public_key is not SEC1 uncompressed'')
            | Some decoded \<Rightarrow>
                if length decoded \<noteq> 65 \<or> decoded ! 0 \<noteq> CHR 0x04
                then Inl (errorf ErrInvalidDerivationContext ''derived_public_key is not SEC1 uncompressed'')
                else (case elliptic_Unmarshal c decoded of
                        None \<Rightarrow> Inl (errorf ErrInvalidDerivationContext ''derived_public_key is not on secp256k1'')
                      | Some (x, y) \<Rightarrow>
                          if \<not> cv_IsOnCurve c x y \<or> (sgn x = 0 \<and> sgn y = 0)
                          then Inl (errorf ErrInvalidDerivationContext ''derived_public_key is not on secp256k1'')
                          else Inr ())))"

definition DecodeUncompressedSecp256k1Hex :: "curve \<Rightarrow> string \<Rightarrow> ECPoint result" where
  "DecodeUncompressedSecp256k1Hex c input =
     (let bad = Inl (errorf ErrInvalidDerivationContext ''secp256k1 public key invalid'') in
      if input = [] then Inl (errorf ErrInvalidDerivationContext ''secp256k1 public key missing'')
      else (case ValidateUncompressedSecp256k1Hex c input of
              Inl err \<Rightarrow> Inl err
            | Inr _ \<Rightarrow>
                (case hex_DecodeString input of
                   None \<Rightarrow> bad
                 | Some decoded \<Rightarrow>
                     if length decoded \<noteq> 65 then bad
                     else (case elliptic_Unmarshal c decoded of
                             None \<Rightarrow> bad
                           | Some (x, y) \<Rightarrow>
                               (case cv_NewECPoint c x y of
                                  None \<Rightarrow> bad
                                | Some point \<Rightarrow> Inr point)))))"

text \<open>The argument is a pointer to a public key, nil being \<open>None\<close>; the empty string is the code's failure value.\<close>

definition EncodeUncompressedSecp256k1 :: "curve \<Rightarrow> ECPoint option \<Rightarrow> string result" where
  "EncodeUncompressedSecp256k1 c pub =
     (case pub of
        None \<Rightarrow> Inr []
      | Some p \<Rightarrow>
          (case (pt_X p, pt_Y p) of
             (Some x, Some y) \<Rightarrow>
               if \<not> cv_IsOnCurve c x y then Inr []
               else (case elliptic_Marshal c x y of
                       Inl err \<Rightarrow> Inl err
                     | Inr encoded \<Rightarrow>
                         if length encoded \<noteq> 65 then Inr [] else Inr (hex_EncodeToString encoded))
           | _ \<Rightarrow> Inr []))"

definition EncodeECPointUncompressedSecp256k1 :: "curve \<Rightarrow> ECPoint option \<Rightarrow> string result" where
  "EncodeECPointUncompressedSecp256k1 c point =
     (case point of
        None \<Rightarrow> Inl (errorf ErrInvalidDerivationContext ''secp256k1 public key missing'')
      | Some p \<Rightarrow>
          (case EncodeUncompressedSecp256k1 c (Some p) of
             Inl err \<Rightarrow> Inl err
           | Inr encoded \<Rightarrow>
               if encoded = [] then Inl (errorf ErrInvalidDerivationContext ''secp256k1 public key required'')
               else Inr encoded))"

section \<open>Canonical encodings\<close>

definition encode_xy :: "int \<Rightarrow> int \<Rightarrow> string" where
  "encode_xy x y = hex_EncodeToString (CHR 0x04 # FillBytes 32 (nat x) @ FillBytes 32 (nat y))"

lemma byteLen_wf: "wf_curve c \<Longrightarrow> byteLen c = 32"
  by (simp add: byteLen_def wf_curve_simps)

lemma pow256_32: "(256::nat) ^ 32 = 2 ^ 256"
  by simp

lemma nat_less_pow: "0 \<le> x \<Longrightarrow> x < 2 ^ 256 \<Longrightarrow> nat x < 256 ^ 32"
  by (simp add: nat_less_iff)

lemma Marshal_wf:
  assumes "wf_curve c" "cv_IsOnCurve c x y"
  shows "elliptic_Marshal c x y = Inr (CHR 0x04 # FillBytes 32 (nat x) @ FillBytes 32 (nat y))"
  using assms wf_curve_onD [OF assms] nat_less_pow
  by (simp add: elliptic_Marshal_def byteLen_wf not_le [symmetric])

lemma Unmarshal_wf_iff:
  assumes "wf_curve c"
  shows "elliptic_Unmarshal c b = Some (x, y) \<longleftrightarrow>
    cv_IsOnCurve c x y \<and> b = CHR 0x04 # FillBytes 32 (nat x) @ FillBytes 32 (nat y)"
  (is "?L \<longleftrightarrow> ?R")
proof
  assume ?L
  then have l: "length b = 65" "b ! 0 = CHR 0x04" and on: "cv_IsOnCurve c x y"
    and xy: "x = int (SetBytes (take 32 (drop 1 b)))" "y = int (SetBytes (drop 33 b))"
    by (auto simp: elliptic_Unmarshal_def byteLen_wf [OF assms] Let_def split: if_splits)
  have "FillBytes 32 (nat x) = take 32 (drop 1 b)" "FillBytes 32 (nat y) = drop 33 b"
    using FillBytes_SetBytes [of "take 32 (drop 1 b)"] FillBytes_SetBytes [of "drop 33 b"] l xy by simp_all
  moreover have "b = b ! 0 # take 32 (drop 1 b) @ drop 33 b"
    using l(1) by (cases b) simp_all
  ultimately show ?R using l on by simp
next
  assume R: ?R
  then have "SetBytes (FillBytes 32 (nat x)) = nat x" "SetBytes (FillBytes 32 (nat y)) = nat y"
    using wf_curve_onD [OF assms, of x y] nat_less_pow by (simp_all add: SetBytes_FillBytes)
  with R show ?L
    using wf_curve_onD [OF assms, of x y]
    by (auto simp: elliptic_Unmarshal_def byteLen_wf [OF assms] Let_def)
qed

lemma encode_xy_facts:
  shows "length (encode_xy x y) = 130" "list_all is_lower_hex (encode_xy x y)"
    "hex_DecodeString (encode_xy x y) = Some (CHR 0x04 # FillBytes 32 (nat x) @ FillBytes 32 (nat y))"
    "encode_xy x y \<noteq> []" "\<not> HasPrefix (encode_xy x y) ''0x''"
proof -
  show "length (encode_xy x y) = 130" by (simp add: encode_xy_def)
  show "list_all is_lower_hex (encode_xy x y)"
    unfolding encode_xy_def by (rule hex_Encode_lower)
  show "hex_DecodeString (encode_xy x y) = Some (CHR 0x04 # FillBytes 32 (nat x) @ FillBytes 32 (nat y))"
    unfolding encode_xy_def by (rule hex_Decode_Encode)
  show "encode_xy x y \<noteq> []" "\<not> HasPrefix (encode_xy x y) ''0x''"
    by (simp_all add: encode_xy_def HasPrefix_def hex_digit_def)
qed

lemma lower_hex_ToLower:
  assumes "list_all is_lower_hex s"
  shows "is_ascii s" "ToLower s = s"
proof -
  have *: "byte_val c < 128 \<and> ascii_lower c = c" if "is_lower_hex c" for c
    using that by (auto simp: is_lower_hex_def ascii_lower_def)
  show a: "is_ascii s"
    using assms * by (auto simp: is_ascii_def list_all_iff)
  show "ToLower s = s"
    using assms * by (auto simp: ToLower_ascii [OF a] list_all_iff map_idI)
qed

text \<open>A string that decodes as hex and equals its lower-case form uses lower-case digits only.\<close>

lemma fromHexChar_ascii: "fromHexChar c = Some d \<Longrightarrow> byte_val c < 128"
  by (auto simp: fromHexChar_def Let_def split: if_splits)

lemma fromHexChar_cases:
  "fromHexChar c = Some d \<Longrightarrow> ascii_lower c = c \<Longrightarrow>
   (48 \<le> byte_val c \<and> byte_val c \<le> 57) \<or> (97 \<le> byte_val c \<and> byte_val c \<le> 102)"
  by (auto simp: fromHexChar_def ascii_lower_def Let_def split: if_splits dest: arg_cong [where f = byte_val])

lemma byte_val_range_lower_hex:
  assumes "(48 \<le> byte_val c \<and> byte_val c \<le> 57) \<or> (97 \<le> byte_val c \<and> byte_val c \<le> 102)"
  shows "is_lower_hex c"
proof -
  have "byte_val c \<in> {48,49,50,51,52,53,54,55,56,57,97,98,99,100,101,102}"
    using assms by (simp only: insert_iff empty_iff) arith
  also have "\<dots> = byte_val ` set ''0123456789abcdef''" by simp
  finally have "\<exists>d\<in>set ''0123456789abcdef''. byte_val c = byte_val d" by (simp only: image_iff)
  then show ?thesis unfolding is_lower_hex_def by (metis byte_val_eq_iff)
qed

lemma hex_Decode_ascii: "hex_DecodeString s = Some b \<Longrightarrow> is_ascii s"
  by (induction s arbitrary: b rule: hex_DecodeString.induct)
     (auto split: option.splits dest: fromHexChar_ascii)

lemma hex_Decode_digits: "hex_DecodeString s = Some b \<Longrightarrow> c \<in> set s \<Longrightarrow> \<exists>d. fromHexChar c = Some d"
  by (induction s arbitrary: b rule: hex_DecodeString.induct) (auto split: option.splits)

lemma hex_Decode_lower:
  assumes "hex_DecodeString s = Some b" "ToLower s = s"
  shows "list_all is_lower_hex s" "hex_EncodeToString b = s"
proof -
  have "map ascii_lower s = s"
    using assms(2) ToLower_ascii [OF hex_Decode_ascii [OF assms(1)]] by simp
  then have "ascii_lower c = c" if "c \<in> set s" for c
    using that by (metis map_eq_conv list.map_ident)
  then show l: "list_all is_lower_hex s"
    unfolding list_all_iff
    using hex_Decode_digits [OF assms(1)] fromHexChar_cases byte_val_range_lower_hex by metis
  have "even (length s)" using hex_Decode_length [OF assms(1)] by simp
  from hex_Encode_Decode [OF l this] assms(1) show "hex_EncodeToString b = s" by simp
qed

lemma Validate_iff:
  assumes "wf_curve c"
  shows "ValidateUncompressedSecp256k1Hex c s = Inr u \<longleftrightarrow>
    s = [] \<or> (\<exists>x y. cv_IsOnCurve c x y \<and> s = encode_xy x y)"
proof (cases "s = []")
  case True
  then show ?thesis by (simp add: ValidateUncompressedSecp256k1Hex_def)
next
  case False
  show ?thesis
  proof
    assume "ValidateUncompressedSecp256k1Hex c s = Inr u"
    with False obtain b x y where "hex_DecodeString s = Some b" "ToLower s = s"
        "elliptic_Unmarshal c b = Some (x, y)"
      by (auto simp: ValidateUncompressedSecp256k1Hex_def split: if_splits option.splits)
    then show "s = [] \<or> (\<exists>x y. cv_IsOnCurve c x y \<and> s = encode_xy x y)"
      using Unmarshal_wf_iff [OF assms, of b x y] hex_Decode_lower [of s b]
      by (auto simp: encode_xy_def)
  next
    assume "s = [] \<or> (\<exists>x y. cv_IsOnCurve c x y \<and> s = encode_xy x y)"
    with False obtain x y where xy: "cv_IsOnCurve c x y" "s = encode_xy x y" by auto
    let ?b = "CHR 0x04 # FillBytes 32 (nat x) @ FillBytes 32 (nat y)"
    have "elliptic_Unmarshal c ?b = Some (x, y)"
      using xy(1) by (simp add: Unmarshal_wf_iff [OF assms])
    then show "ValidateUncompressedSecp256k1Hex c s = Inr u"
      using xy encode_xy_facts [of x y] lower_hex_ToLower(2) [of s] wf_curve_onD(8) [OF assms xy(1)]
      by (simp add: ValidateUncompressedSecp256k1Hex_def sgn_0_0)
  qed
qed

lemma Encode_point:
  assumes "wf_curve c" "cv_IsOnCurve c x y"
  shows "EncodeECPointUncompressedSecp256k1 c (Some (mk_point x y)) = Inr (encode_xy x y)"
    and "EncodeUncompressedSecp256k1 c (Some (mk_point x y)) = Inr (encode_xy x y)"
proof -
  show e: "EncodeUncompressedSecp256k1 c (Some (mk_point x y)) = Inr (encode_xy x y)"
    using assms(2) by (simp add: EncodeUncompressedSecp256k1_def mk_point_def Marshal_wf [OF assms] encode_xy_def)
  show "EncodeECPointUncompressedSecp256k1 c (Some (mk_point x y)) = Inr (encode_xy x y)"
    using e by (simp add: EncodeECPointUncompressedSecp256k1_def encode_xy_facts)
qed

lemma Decode_encode_xy:
  assumes "wf_curve c" "cv_IsOnCurve c x y"
  shows "DecodeUncompressedSecp256k1Hex c (encode_xy x y) = Inr (mk_point x y)"
proof -
  have "ValidateUncompressedSecp256k1Hex c (encode_xy x y) = Inr ()"
    using assms by (auto simp: Validate_iff)
  moreover have "elliptic_Unmarshal c (CHR 0x04 # FillBytes 32 (nat x) @ FillBytes 32 (nat y)) = Some (x, y)"
    using assms by (simp add: Unmarshal_wf_iff)
  ultimately show ?thesis
    using wf_curve_onD(7) [OF assms] encode_xy_facts [of x y]
    by (simp add: DecodeUncompressedSecp256k1Hex_def)
qed

lemma Validate_error:
  "ValidateUncompressedSecp256k1Hex c s = Inl e \<Longrightarrow> errors_Is e ErrInvalidDerivationContext"
  by (auto simp: ValidateUncompressedSecp256k1Hex_def split: if_splits option.splits)

section \<open>The encoding as a canonical codec\<close>

lemma EncodeECPoint_Inr_iff:
  assumes "wf_curve c"
  shows "EncodeECPointUncompressedSecp256k1 c (Some p) = Inr s \<longleftrightarrow>
    (\<exists>x y. cv_IsOnCurve c x y \<and> p = mk_point x y \<and> s = encode_xy x y)" (is "?L \<longleftrightarrow> ?R")
proof
  assume ?L
  then obtain x y where xy: "pt_X p = Some x" "pt_Y p = Some y" "cv_IsOnCurve c x y"
    by (auto simp: EncodeECPointUncompressedSecp256k1_def EncodeUncompressedSecp256k1_def
        split: option.splits if_splits)
  then have "p = mk_point x y" by (simp add: mk_point_def)
  with \<open>?L\<close> xy(3) show ?R using Encode_point(1) [OF assms xy(3)] by auto
next
  assume ?R
  then show ?L using Encode_point(1) [OF assms] by auto
qed

lemma Decode_Inr_iff:
  assumes "wf_curve c"
  shows "DecodeUncompressedSecp256k1Hex c s = Inr p \<longleftrightarrow>
    (\<exists>x y. cv_IsOnCurve c x y \<and> p = mk_point x y \<and> s = encode_xy x y)" (is "?L \<longleftrightarrow> ?R")
proof
  assume L: ?L
  then have "s \<noteq> []" "ValidateUncompressedSecp256k1Hex c s = Inr ()"
    by (auto simp: DecodeUncompressedSecp256k1Hex_def Let_def split: if_splits sum.splits)
  then obtain x y where "cv_IsOnCurve c x y" "s = encode_xy x y" using Validate_iff [OF assms] by blast
  with L Decode_encode_xy [OF assms] show ?R by fastforce
next
  assume ?R
  then show ?L using Decode_encode_xy [OF assms] by auto
qed

lemma pubkey_canonical_codec:
  assumes "wf_curve c"
  shows "canonical_codec (\<lambda>p. EncodeECPointUncompressedSecp256k1 c (Some p)) (DecodeUncompressedSecp256k1Hex c)"
  by unfold_locales (simp_all add: EncodeECPoint_Inr_iff [OF assms] Decode_Inr_iff [OF assms])

interpretation pubkey: canonical_codec
  "\<lambda>p. EncodeECPointUncompressedSecp256k1 secp256k1 (Some p)" "DecodeUncompressedSecp256k1Hex secp256k1"
  by (rule pubkey_canonical_codec [OF wf_secp256k1])

section \<open>Properties\<close>

text \<open>
  A derived public key passes validation exactly when it is empty or the canonical encoding
  (\<open>04\<close>, then both coordinates in 64 lower-case hex digits each) of a point of the curve; every refusal
  is \<^verbatim>\<open>ErrInvalidDerivationContext\<close>.  The curve library is a parameter.
\<close>

theorem public_key_validation_exact:
  assumes "wf_curve c"
  shows "case ValidateUncompressedSecp256k1Hex c s of
           Inr _ \<Rightarrow> s = [] \<or> (\<exists>x y. cv_IsOnCurve c x y \<and> s = encode_xy x y)
         | Inl e \<Rightarrow> errors_Is e ErrInvalidDerivationContext
                    \<and> s \<noteq> [] \<and> (\<nexists>x y. cv_IsOnCurve c x y \<and> s = encode_xy x y)"
proof (cases "ValidateUncompressedSecp256k1Hex c s")
  case (Inl e)
  then have "\<not> (s = [] \<or> (\<exists>x y. cv_IsOnCurve c x y \<and> s = encode_xy x y))"
    using Validate_iff [OF assms, of s "()"] by auto
  then show ?thesis using Inl Validate_error [OF Inl] by simp
next
  case (Inr u)
  then show ?thesis using Validate_iff [OF assms, of s u] by simp
qed

theorem public_key_validation_exact_witness:
  "errors_Is (case ValidateUncompressedSecp256k1Hex secp256k1 ''04ab'' of Inl e \<Rightarrow> e | Inr _ \<Rightarrow> Sentinel IoEOF)
     ErrInvalidDerivationContext"
proof -
  have "\<exists>e. ValidateUncompressedSecp256k1Hex secp256k1 ''04ab'' = Inl e" by (simp add: ValidateUncompressedSecp256k1Hex_def)
  then show ?thesis using public_key_validation_exact [OF wf_secp256k1, of "''04ab''"] by auto
qed

text \<open>
  C39.  Encoding and decoding of public keys are inverse to each other: a string decodes to a point
  exactly when that point encodes to the string, so distinct accepted strings are distinct points.
\<close>

theorem public_key_roundtrip:
  assumes "wf_curve c"
  shows "(DecodeUncompressedSecp256k1Hex c s = Inr p \<longleftrightarrow> EncodeECPointUncompressedSecp256k1 c (Some p) = Inr s)
    \<and> (DecodeUncompressedSecp256k1Hex c s = Inr p \<longrightarrow> DecodeUncompressedSecp256k1Hex c t = Inr p \<longrightarrow> s = t)"
  using canonical_codec.dec_iff [OF pubkey_canonical_codec [OF assms]]
    canonical_codec.dec_inject [OF pubkey_canonical_codec [OF assms]]
  by blast

text \<open>A point of the curve with a small first coordinate.\<close>

definition sample_y :: int where
  "sample_y = 0x4218F20AE6C646B363DB68605822FB14264CA8D2587FDD6FBC750D587E76A7EE"

lemma sample_point: "cv_IsOnCurve secp256k1 1 sample_y"
proof -
  have "sample_y * sample_y = 8 + 0x1110DF3BE5E21E6776516A5FA6702D71D937B2614804CCE0315F9575458FF784 * secp256k1_P"
    by (simp add: sample_y_def secp256k1_P_def)
  then have "(sample_y * sample_y) mod secp256k1_P = 8 mod secp256k1_P" by (simp only: mod_mult_self1)
  moreover have "0 \<le> sample_y" "sample_y < secp256k1_P" "1 < secp256k1_P"
    by (simp_all add: sample_y_def secp256k1_P_def)
  ultimately show ?thesis by (simp add: secp256k1_def secp256k1_IsOnCurve_def)
qed

theorem public_key_roundtrip_witness:
  "DecodeUncompressedSecp256k1Hex secp256k1 (encode_xy 1 sample_y)
     = Inr (mk_point 1 sample_y)"
  using public_key_roundtrip [OF wf_secp256k1] Encode_point(1) [OF wf_secp256k1 sample_point]
  by blast

end
