(* ===== verification/Derivation_Context.thy ===== *)
theory Derivation_Context
  imports Derivation_Path Public_Key
begin

text \<open>
  The derivation context (\<^verbatim>\<open>internal/tss/derivation/context.go\<close> and the two algorithm-specific
  normalisers of \<^verbatim>\<open>path.go\<close>) and its match against a session.  \<open>wf_context\<close> is what a
  normalised context satisfies: trimmed identifiers, one of the two supported
  algorithm/curve/scheme triples, canonical paths with the full path composed from the other
  two, and, for ECDSA, a derived public key that is empty or a canonical curve point.

  Shown: every context returned by \<open>NormalizeContext\<close> is well formed, well-formed contexts with a
  settled key format are fixed points (so normalisation is idempotent), and the errors of each
  stage are the documented sentinels.
\<close>

section \<open>The code\<close>

abbreviation "AlgorithmECDSA \<equiv> ''ecdsa''"
abbreviation "AlgorithmEdDSA \<equiv> ''eddsa''"
abbreviation "CurveSecp256k1 \<equiv> ''secp256k1''"
abbreviation "CurveEd25519 \<equiv> ''ed25519''"
abbreviation "DerivationSchemeBIP32Secp256k1 \<equiv> ''bip32_secp256k1''"
abbreviation "DerivationSchemeBIP32Public \<equiv> ''bip32_public''"
abbreviation "DerivationSchemeSLIP10Ed25519 \<equiv> ''slip10_ed25519''"
abbreviation "PublicKeyFormatUncompressedHex \<equiv> ''uncompressed_hex''"

record Context =
  ctx_ProfileID :: string
  ctx_ProfileTemplateID :: string
  ctx_Chain :: string
  ctx_Algorithm :: string
  ctx_Curve :: string
  ctx_Scheme :: string
  ctx_PublicKeyFormat :: string
  ctx_AccountPath :: string
  ctx_ChildPath :: string
  ctx_FullPath :: string
  ctx_AddressEncoding :: string
  ctx_ExpectedAddress :: string
  ctx_DerivedPublicKey :: string
  ctx_Descriptor :: string
  ctx_DescriptorVersion :: u32
  ctx_ProfileVersion :: u32
  ctx_KeyVersion :: u32

record Session =
  ses_Algorithm :: string
  ses_Curve :: string
  ses_Chain :: string

text \<open>The path checks that both normalisers perform, in the same words.\<close>

definition normalizePaths :: "Context \<Rightarrow> (string \<times> string \<times> string) result" where
  "normalizePaths out =
     (case NormalizeAccountPath (ctx_AccountPath out) of
        Inl err \<Rightarrow> Inl err
      | Inr account \<Rightarrow>
          (case NormalizeChildPath (ctx_ChildPath out) of
             Inl err \<Rightarrow> Inl err
           | Inr (child, _) \<Rightarrow>
               let full = CanonicalFullPath account child in
               if TrimSpace (ctx_FullPath out) \<noteq> [] then
                 (case NormalizeFullPath (ctx_FullPath out) of
                    Inl err \<Rightarrow> Inl err
                  | Inr got \<Rightarrow>
                      if got \<noteq> full then Inl (errorf ErrDerivationPathInvalid ''full_path mismatch'')
                      else Inr (account, child, full))
               else Inr (account, child, full)))"

definition normalizeECDSAContext :: "curve \<Rightarrow> Context \<Rightarrow> Context result" where
  "normalizeECDSAContext c out =
     (if ctx_Curve out \<noteq> CurveSecp256k1 then Inl (errorf ErrUnsupportedAlgorithmCurve ''ecdsa curve'')
      else if ctx_Scheme out \<noteq> DerivationSchemeBIP32Public
              \<and> ctx_Scheme out \<noteq> DerivationSchemeBIP32Secp256k1
      then Inl (errorf ErrUnsupportedDerivationScheme ''scheme'')
      else
        let out = out\<lparr>ctx_Scheme := DerivationSchemeBIP32Secp256k1\<rparr> in
        (case normalizePaths out of
           Inl err \<Rightarrow> Inl err
         | Inr (account, child, full) \<Rightarrow>
             (case ValidateUncompressedSecp256k1Hex c (ctx_DerivedPublicKey out) of
                Inl err \<Rightarrow> Inl err
              | Inr _ \<Rightarrow>
                  Inr (out\<lparr>ctx_AccountPath := account, ctx_ChildPath := child,
                           ctx_FullPath := full\<rparr>))))"

definition normalizeEdDSAContext :: "Context \<Rightarrow> Context result" where
  "normalizeEdDSAContext out =
     (if ctx_Curve out \<noteq> CurveEd25519 then Inl (errorf ErrUnsupportedAlgorithmCurve ''eddsa curve'')
      else if ctx_Scheme out \<noteq> DerivationSchemeSLIP10Ed25519
      then Inl (errorf ErrUnsupportedDerivationScheme ''scheme'')
      else (case normalizePaths out of
              Inl err \<Rightarrow> Inl err
            | Inr (account, child, full) \<Rightarrow>
                Inr (out\<lparr>ctx_AccountPath := account, ctx_ChildPath := child, ctx_FullPath := full\<rparr>)))"

definition trimFields :: "Context \<Rightarrow> Context" where
  "trimFields out = out\<lparr>
     ctx_ProfileID := TrimSpace (ctx_ProfileID out),
     ctx_ProfileTemplateID := TrimSpace (ctx_ProfileTemplateID out),
     ctx_Chain := TrimSpace (ctx_Chain out),
     ctx_Algorithm := ToLower (TrimSpace (ctx_Algorithm out)),
     ctx_Curve := ToLower (TrimSpace (ctx_Curve out)),
     ctx_Scheme := ToLower (TrimSpace (ctx_Scheme out)),
     ctx_PublicKeyFormat := ToLower (TrimSpace (ctx_PublicKeyFormat out))\<rparr>"

definition defaultFields :: "Context \<Rightarrow> Context" where
  "defaultFields out0 =
     (let out1 = (if ctx_Algorithm out0 = [] then out0\<lparr>ctx_Algorithm := AlgorithmECDSA\<rparr> else out0);
          out2 = (if ctx_PublicKeyFormat out1 = [] \<and> ctx_Algorithm out1 = AlgorithmECDSA
                  then out1\<lparr>ctx_PublicKeyFormat := PublicKeyFormatUncompressedHex\<rparr> else out1)
      in if ctx_Curve out2 = [] \<and> ctx_Algorithm out2 = AlgorithmECDSA
         then out2\<lparr>ctx_Curve := CurveSecp256k1\<rparr> else out2)"

definition NormalizeContext :: "curve \<Rightarrow> Context \<Rightarrow> Context result" where
  "NormalizeContext c ctx =
     (let out = trimFields ctx in
      if ctx_ProfileID out = [] then Inl (errorf ErrInvalidDerivationContext ''profile_id is required'')
      else
        let out = defaultFields out in
        if ctx_Algorithm out = AlgorithmECDSA then normalizeECDSAContext c out
        else if ctx_Algorithm out = AlgorithmEdDSA then normalizeEdDSAContext out
        else Inl (errorf ErrUnsupportedAlgorithmCurve ''algorithm''))"

definition MatchSession :: "curve \<Rightarrow> Context \<Rightarrow> Session \<Rightarrow> unit result" where
  "MatchSession c ctx session =
     (case NormalizeContext c ctx of
        Inl err \<Rightarrow> Inl err
      | Inr nctx \<Rightarrow>
          let alg0 = ToLower (TrimSpace (ses_Algorithm session));
              alg = (if alg0 = [] then AlgorithmECDSA else alg0);
              curve0 = ToLower (TrimSpace (ses_Curve session));
              curve = (if curve0 = [] \<and> alg = AlgorithmECDSA then CurveSecp256k1 else curve0)
          in if ctx_Algorithm nctx \<noteq> alg \<or> ctx_Curve nctx \<noteq> curve
             then Inl (errorf ErrUnsupportedAlgorithmCurve ''context session'')
             else if ctx_Chain nctx \<noteq> [] \<and> TrimSpace (ses_Chain session) \<noteq> []
                     \<and> ctx_Chain nctx \<noteq> TrimSpace (ses_Chain session)
             then Inl (errorf ErrInvalidDerivationContext ''chain mismatch'')
             else Inr ())"

section \<open>Trimming and lower-casing together\<close>

lemma TrimLeftSpace_set: "set (TrimLeftSpace s) \<subseteq> set s"
proof (induction s rule: TrimLeftSpace.induct)
  case (1 s)
  then show ?case
    by (cases "List.find (HasPrefix s) space_encodings")
       (auto simp: TrimLeftSpace.simps [of s] dest: in_set_dropD)
qed

lemma TrimSpace_set: "set (TrimSpace s) \<subseteq> set s"
proof -
  obtain t where "TrimLeftSpace s = TrimSpace s @ t"
    using TrimRightSpace_prefix [of "TrimLeftSpace s"] by (auto simp: TrimSpace_def)
  then have "set (TrimSpace s) \<subseteq> set (TrimLeftSpace s)" by (metis Un_upper1 set_append)
  with TrimLeftSpace_set show ?thesis by blast
qed

lemma is_ascii_TrimSpace: "is_ascii s \<Longrightarrow> is_ascii (TrimSpace s)"
  using TrimSpace_set [of s] by (auto simp: is_ascii_def list_all_iff)

lemma ascii_lower_space:
  "byte_val x \<le> 0x20 \<Longrightarrow> ascii_lower c = x \<longleftrightarrow> c = x"
  by (auto simp: ascii_lower_def)

lemma space_encoding_ascii:
  assumes "e \<in> set space_encodings" "is_ascii e"
  obtains x where "e = [x]" "byte_val x \<le> 0x20"
proof -
  have "list_all (\<lambda>e. \<not> is_ascii e \<or> (length e = 1 \<and> byte_val (hd e) \<le> 0x20)) space_encodings"
    by (simp add: space_encodings_def)
  with assms have "length e = 1" "byte_val (hd e) \<le> 0x20" by (auto simp: list_all_iff)
  then show ?thesis using that by (cases e) auto
qed

lemma HasPrefix_lower_space:
  assumes "is_ascii t" "e \<in> set space_encodings" "HasPrefix (map ascii_lower t) e"
  shows "HasPrefix t e"
proof -
  obtain r where r: "map ascii_lower t = e @ r" using assms(3) by (auto simp: HasPrefix_iff)
  then have "is_ascii e" using assms(1) is_ascii_map_lower [of t] by simp
  with assms(2) obtain x where "e = [x]" "byte_val x \<le> 0x20" by (rule space_encoding_ascii)
  with r show ?thesis by (cases t) (auto simp: HasPrefix_single ascii_lower_space)
qed

lemma HasSuffix_lower_space:
  assumes "is_ascii t" "e \<in> set space_encodings" "HasSuffix (map ascii_lower t) e"
  shows "HasSuffix t e"
proof -
  obtain r where r: "map ascii_lower t = r @ e" using assms(3) by (auto simp: HasSuffix_iff)
  then have "is_ascii e" using assms(1) is_ascii_map_lower [of t] by simp
  with assms(2) obtain x where "e = [x]" "byte_val x \<le> 0x20" by (rule space_encoding_ascii)
  with r show ?thesis by (cases t rule: rev_cases) (auto simp: HasSuffix_single ascii_lower_space)
qed

lemma TrimSpace_no_space:
  assumes "e \<in> set space_encodings"
  shows "\<not> HasPrefix (TrimSpace s) e" "\<not> HasSuffix (TrimSpace s) e"
proof -
  obtain t where t: "TrimLeftSpace s = TrimSpace s @ t"
    using TrimRightSpace_prefix [of "TrimLeftSpace s"] by (auto simp: TrimSpace_def)
  show "\<not> HasPrefix (TrimSpace s) e"
  proof
    assume "HasPrefix (TrimSpace s) e"
    then have "HasPrefix (TrimLeftSpace s) e" unfolding t by (auto simp: HasPrefix_iff)
    with assms TrimLeftSpace_none [of s] show False by (auto simp: find_None_iff)
  qed
  show "\<not> HasSuffix (TrimSpace s) e"
    using assms TrimRightSpace_none [of "TrimLeftSpace s"] by (auto simp: find_None_iff TrimSpace_def)
qed

lemma TrimSpace_fixed:
  assumes "\<And>e. e \<in> set space_encodings \<Longrightarrow> \<not> HasPrefix s e \<and> \<not> HasSuffix s e"
  shows "TrimSpace s = s"
proof -
  have "TrimLeftSpace s = s" using assms by (intro TrimLeftSpace_id) (auto simp: find_None_iff)
  moreover have "TrimRightSpace s = s" using assms by (intro TrimRightSpace_id) (auto simp: find_None_iff)
  ultimately show ?thesis by (simp add: TrimSpace_def)
qed

definition settled :: "string \<Rightarrow> bool" where
  "settled f \<longleftrightarrow> ToLower (TrimSpace f) = f"

lemma settled_lower_trim:
  assumes "is_ascii f"
  shows "settled (ToLower (TrimSpace f))"
proof -
  let ?t = "TrimSpace f"
  have a: "is_ascii ?t" by (rule is_ascii_TrimSpace [OF assms])
  have "TrimSpace (map ascii_lower ?t) = map ascii_lower ?t"
    using TrimSpace_no_space HasPrefix_lower_space [OF a] HasSuffix_lower_space [OF a]
    by (intro TrimSpace_fixed) blast
  with a show ?thesis
    by (simp add: settled_def ToLower_ascii [OF a]) (simp add: ToLower_ascii)
qed

lemma lower_word_settled:
  assumes "s \<noteq> []" "list_all (\<lambda>c. visible c \<and> ascii_lower c = c) s"
  shows "settled s"
proof -
  have "TrimSpace s = s" using assms by (intro TrimSpace_visible) (auto simp: list_all_iff)
  moreover have "is_ascii s" using assms(2) by (auto simp: is_ascii_def list_all_iff visible_def)
  ultimately show ?thesis
    using assms(2) by (auto simp: settled_def ToLower_ascii list_all_iff map_idI)
qed

lemma settled_constants [simp]:
  "settled ''ecdsa''" "settled ''eddsa''" "settled ''secp256k1''" "settled ''ed25519''"
  "settled ''bip32_secp256k1''" "settled ''slip10_ed25519''" "settled ''uncompressed_hex''"
  by (rule lower_word_settled; simp add: visible_def ascii_lower_def)+

section \<open>Well-formed contexts\<close>

definition wf_context :: "curve \<Rightarrow> Context \<Rightarrow> bool" where
  "wf_context c n \<longleftrightarrow>
     ctx_ProfileID n \<noteq> [] \<and> TrimSpace (ctx_ProfileID n) = ctx_ProfileID n
     \<and> TrimSpace (ctx_ProfileTemplateID n) = ctx_ProfileTemplateID n
     \<and> TrimSpace (ctx_Chain n) = ctx_Chain n
     \<and> canonical_account (ctx_AccountPath n) \<and> canonical_child (ctx_ChildPath n)
     \<and> ctx_FullPath n = CanonicalFullPath (ctx_AccountPath n) (ctx_ChildPath n)
     \<and> ((ctx_Algorithm n = AlgorithmECDSA \<and> ctx_Curve n = CurveSecp256k1
          \<and> ctx_Scheme n = DerivationSchemeBIP32Secp256k1 \<and> ctx_PublicKeyFormat n \<noteq> []
          \<and> is_ok (ValidateUncompressedSecp256k1Hex c (ctx_DerivedPublicKey n)))
        \<or> (ctx_Algorithm n = AlgorithmEdDSA \<and> ctx_Curve n = CurveEd25519
          \<and> ctx_Scheme n = DerivationSchemeSLIP10Ed25519))"

text \<open>What the normalisers leave of their argument apart from the paths and the scheme.\<close>

lemma normalizePaths_Inr:
  assumes "normalizePaths out = Inr (account, child, full)"
  shows "canonical_account account \<and> canonical_child child \<and> full = CanonicalFullPath account child"
  using assms by (auto simp: normalizePaths_def Let_def split: sum.splits if_splits
      dest: NormalizeAccountPath_canonical NormalizeChildPath_canonical)

lemma normalizePaths_fixed:
  assumes "canonical_account (ctx_AccountPath n)" "canonical_child (ctx_ChildPath n)"
    and "ctx_FullPath n = CanonicalFullPath (ctx_AccountPath n) (ctx_ChildPath n)"
  shows "normalizePaths n = Inr (ctx_AccountPath n, ctx_ChildPath n, ctx_FullPath n)"
  using assms NormalizeAccountPath_fixes NormalizeChildPath_fixes NormalizeFullPath_fixes
  by (fastforce simp: normalizePaths_def Let_def)

lemma normalizeECDSAContext_Inr:
  assumes "normalizeECDSAContext c out = Inr n"
  obtains account child full where "normalizePaths (out\<lparr>ctx_Scheme := DerivationSchemeBIP32Secp256k1\<rparr>)
      = Inr (account, child, full)"
    "n = out\<lparr>ctx_Scheme := DerivationSchemeBIP32Secp256k1, ctx_AccountPath := account,
             ctx_ChildPath := child, ctx_FullPath := full\<rparr>"
    "is_ok (ValidateUncompressedSecp256k1Hex c (ctx_DerivedPublicKey out))"
    "ctx_Curve out = CurveSecp256k1"
  using assms by (auto simp: normalizeECDSAContext_def Let_def is_ok_iff split: if_splits sum.splits)

lemma normalizeEdDSAContext_Inr:
  assumes "normalizeEdDSAContext out = Inr n"
  obtains account child full where "normalizePaths out = Inr (account, child, full)"
    "n = out\<lparr>ctx_AccountPath := account, ctx_ChildPath := child, ctx_FullPath := full\<rparr>"
    "ctx_Curve out = CurveEd25519" "ctx_Scheme out = DerivationSchemeSLIP10Ed25519"
  using assms by (auto simp: normalizeEdDSAContext_def split: if_splits sum.splits)

lemma defaultFields_frame [simp]:
  "ctx_ProfileID (defaultFields x) = ctx_ProfileID x"
  "ctx_ProfileTemplateID (defaultFields x) = ctx_ProfileTemplateID x"
  "ctx_Chain (defaultFields x) = ctx_Chain x"
  "ctx_Scheme (defaultFields x) = ctx_Scheme x"
  "ctx_DerivedPublicKey (defaultFields x) = ctx_DerivedPublicKey x"
  by (simp_all add: defaultFields_def Let_def)

lemma trimFields_frame [simp]:
  "ctx_ProfileID (trimFields x) = TrimSpace (ctx_ProfileID x)"
  "ctx_ProfileTemplateID (trimFields x) = TrimSpace (ctx_ProfileTemplateID x)"
  "ctx_Chain (trimFields x) = TrimSpace (ctx_Chain x)"
  "ctx_DerivedPublicKey (trimFields x) = ctx_DerivedPublicKey x"
  by (simp_all add: trimFields_def)

lemma defaultFields_format:
  "ctx_Algorithm (defaultFields x) = AlgorithmECDSA \<Longrightarrow> ctx_PublicKeyFormat (defaultFields x) \<noteq> []"
  by (auto simp: defaultFields_def Let_def split: if_splits)

lemma NormalizeContext_wf:
  assumes "NormalizeContext c ctx = Inr n"
  shows "wf_context c n"
proof -
  let ?o = "defaultFields (trimFields ctx)"
  have id: "ctx_ProfileID ?o \<noteq> []"
    using assms by (auto simp: NormalizeContext_def Let_def split: if_splits)
  show ?thesis
  proof (cases "ctx_Algorithm ?o = AlgorithmECDSA")
    case True
    with assms have "normalizeECDSAContext c ?o = Inr n"
      by (auto simp: NormalizeContext_def Let_def split: if_splits)
    then obtain account child full
      where p: "normalizePaths (?o\<lparr>ctx_Scheme := DerivationSchemeBIP32Secp256k1\<rparr>) = Inr (account, child, full)"
        and n: "n = ?o\<lparr>ctx_Scheme := DerivationSchemeBIP32Secp256k1, ctx_AccountPath := account,
                       ctx_ChildPath := child, ctx_FullPath := full\<rparr>"
        and v: "is_ok (ValidateUncompressedSecp256k1Hex c (ctx_DerivedPublicKey ?o))"
          "ctx_Curve ?o = CurveSecp256k1"
      by (rule normalizeECDSAContext_Inr)
    show ?thesis
      using normalizePaths_Inr [OF p] id True v defaultFields_format [OF True]
      by (simp add: wf_context_def n)
  next
    case False
    with assms have "normalizeEdDSAContext ?o = Inr n" "ctx_Algorithm ?o = AlgorithmEdDSA"
      by (auto simp: NormalizeContext_def Let_def split: if_splits)
    then obtain account child full
      where p: "normalizePaths ?o = Inr (account, child, full)"
        and n: "n = ?o\<lparr>ctx_AccountPath := account, ctx_ChildPath := child, ctx_FullPath := full\<rparr>"
        and v: "ctx_Curve ?o = CurveEd25519" "ctx_Scheme ?o = DerivationSchemeSLIP10Ed25519"
          "ctx_Algorithm ?o = AlgorithmEdDSA"
      by (auto elim: normalizeEdDSAContext_Inr)
    show ?thesis
      using normalizePaths_Inr [OF p] id v by (simp add: wf_context_def n)
  qed
qed

lemma wf_context_trimFields:
  assumes "wf_context c n" "settled (ctx_PublicKeyFormat n)"
  shows "trimFields n = n"
  using assms settled_constants by (auto simp: wf_context_def trimFields_def settled_def)

lemma wf_context_defaultFields: "wf_context c n \<Longrightarrow> defaultFields n = n"
  by (auto simp: wf_context_def defaultFields_def)

lemma NormalizeContext_fixed:
  assumes "wf_context c n" "settled (ctx_PublicKeyFormat n)"
  shows "NormalizeContext c n = Inr n"
proof -
  have p: "normalizePaths n = Inr (ctx_AccountPath n, ctx_ChildPath n, ctx_FullPath n)"
    using assms(1) by (intro normalizePaths_fixed) (auto simp: wf_context_def)
  have id: "ctx_ProfileID n \<noteq> []" using assms(1) by (simp add: wf_context_def)
  consider (ec) "ctx_Algorithm n = AlgorithmECDSA" | (ed) "ctx_Algorithm n = AlgorithmEdDSA"
    using assms(1) by (auto simp: wf_context_def)
  then show ?thesis
  proof cases
    case ec
    with assms(1) have v: "ctx_Curve n = CurveSecp256k1" "ctx_Scheme n = DerivationSchemeBIP32Secp256k1"
        "is_ok (ValidateUncompressedSecp256k1Hex c (ctx_DerivedPublicKey n))"
      by (simp_all add: wf_context_def)
    have e: "n\<lparr>ctx_Scheme := DerivationSchemeBIP32Secp256k1\<rparr> = n"
      using v(2) by (cases n) simp
    have "normalizeECDSAContext c n = Inr n"
      using p v by (auto simp: normalizeECDSAContext_def Let_def e is_ok_iff)
    with ec id show ?thesis
      by (simp add: NormalizeContext_def wf_context_trimFields [OF assms]
          wf_context_defaultFields [OF assms(1)])
  next
    case ed
    with assms(1) have "ctx_Curve n = CurveEd25519" "ctx_Scheme n = DerivationSchemeSLIP10Ed25519"
      by (simp_all add: wf_context_def)
    with p have "normalizeEdDSAContext n = Inr n"
      by (simp add: normalizeEdDSAContext_def)
    with ed id show ?thesis
      by (simp add: NormalizeContext_def wf_context_trimFields [OF assms]
          wf_context_defaultFields [OF assms(1)])
  qed
qed

lemma NormalizeContext_settled:
  assumes "NormalizeContext c ctx = Inr n" "is_ascii (ctx_PublicKeyFormat ctx)"
  shows "settled (ctx_PublicKeyFormat n)"
proof -
  let ?o = "defaultFields (trimFields ctx)"
  have "ctx_PublicKeyFormat n = ctx_PublicKeyFormat ?o"
    using assms(1)
    by (auto simp: NormalizeContext_def Let_def split: if_splits
        elim!: normalizeECDSAContext_Inr normalizeEdDSAContext_Inr)
  also have "\<dots> \<in> {ToLower (TrimSpace (ctx_PublicKeyFormat ctx)), PublicKeyFormatUncompressedHex}"
    by (auto simp: defaultFields_def trimFields_def Let_def)
  finally show ?thesis using settled_lower_trim [OF assms(2)] settled_constants by auto
qed

text \<open>Fields that normalisation copies.\<close>

lemma NormalizeContext_frame:
  assumes "NormalizeContext c ctx = Inr n"
  shows "ctx_DerivedPublicKey n = ctx_DerivedPublicKey ctx"
    "ctx_DescriptorVersion n = ctx_DescriptorVersion ctx"
    "ctx_ProfileVersion n = ctx_ProfileVersion ctx" "ctx_KeyVersion n = ctx_KeyVersion ctx"
    "ctx_ProfileID n = TrimSpace (ctx_ProfileID ctx)"
    "ctx_ProfileTemplateID n = TrimSpace (ctx_ProfileTemplateID ctx)"
    "ctx_Chain n = TrimSpace (ctx_Chain ctx)"
  using assms
  by (auto simp: NormalizeContext_def trimFields_def defaultFields_def Let_def split: if_splits
      elim!: normalizeECDSAContext_Inr normalizeEdDSAContext_Inr)

section \<open>Errors and sessions\<close>

definition context_sentinels :: "sentinel list" where
  "context_sentinels =
     [ErrInvalidDerivationContext, ErrUnsupportedAlgorithmCurve, ErrUnsupportedDerivationScheme,
      ErrDerivationPathInvalid]"

lemma normalizePaths_error:
  "normalizePaths out = Inl e \<Longrightarrow> \<exists>s\<in>set context_sentinels. errors_Is e s"
  by (auto simp: normalizePaths_def context_sentinels_def Let_def split: sum.splits if_splits
      dest: NormalizeAccountPath_error NormalizeChildPath_error NormalizeFullPath_error)

lemma NormalizeContext_error:
  assumes "NormalizeContext c ctx = Inl e"
  shows "\<exists>s\<in>set context_sentinels. errors_Is e s"
proof -
  have direct: "\<exists>s\<in>set context_sentinels. errors_Is (errorf t m) s" if "t \<in> set context_sentinels" for t m
    using that by simp
  have ec: "\<exists>s\<in>set context_sentinels. errors_Is e s" if "normalizeECDSAContext c out = Inl e" for out
    using that normalizePaths_error Validate_error direct
    by (auto simp: normalizeECDSAContext_def Let_def split: if_splits sum.splits)
       (auto simp: context_sentinels_def)
  have ed: "\<exists>s\<in>set context_sentinels. errors_Is e s" if "normalizeEdDSAContext out = Inl e" for out
    using that normalizePaths_error
    by (auto simp: normalizeEdDSAContext_def split: if_splits sum.splits) (auto simp: context_sentinels_def)
  show ?thesis
    using assms ec ed by (auto simp: NormalizeContext_def Let_def split: if_splits)
      (auto simp: context_sentinels_def)
qed

text \<open>What a session means: blank algorithm is ECDSA, and a blank curve is then secp256k1.\<close>

definition session_algorithm :: "Session \<Rightarrow> string" where
  "session_algorithm ses =
     (if ToLower (TrimSpace (ses_Algorithm ses)) = [] then AlgorithmECDSA
      else ToLower (TrimSpace (ses_Algorithm ses)))"

definition session_curve :: "Session \<Rightarrow> string" where
  "session_curve ses =
     (if ToLower (TrimSpace (ses_Curve ses)) = [] \<and> session_algorithm ses = AlgorithmECDSA then CurveSecp256k1
      else ToLower (TrimSpace (ses_Curve ses)))"

text \<open>A well-formed ECDSA context.\<close>

definition sample_context :: Context where
  "sample_context =
     \<lparr>ctx_ProfileID = ''evm'', ctx_ProfileTemplateID = [], ctx_Chain = ''ethereum'',
      ctx_Algorithm = AlgorithmECDSA, ctx_Curve = CurveSecp256k1,
      ctx_Scheme = DerivationSchemeBIP32Secp256k1, ctx_PublicKeyFormat = PublicKeyFormatUncompressedHex,
      ctx_AccountPath = ''m/44'' @ [CHR 0x27], ctx_ChildPath = ''/0/7'',
      ctx_FullPath = ''m/44'' @ [CHR 0x27] @ ''/0/7'', ctx_AddressEncoding = [],
      ctx_ExpectedAddress = [], ctx_DerivedPublicKey = [], ctx_Descriptor = [],
      ctx_DescriptorVersion = 1, ctx_ProfileVersion = 2, ctx_KeyVersion = 3\<rparr>"

lemma sample_context_wf: "wf_context c sample_context" "settled (ctx_PublicKeyFormat sample_context)"
proof -
  have f: "CanonicalFullPath (''m/44'' @ [CHR 0x27]) ''/0/7'' = ''m/44'' @ [CHR 0x27] @ ''/0/7''"
    using CanonicalFullPath_canonical [OF canonical_account_example] by simp
  have t: "TrimSpace ''evm'' = ''evm''" "TrimSpace ''ethereum'' = ''ethereum''"
    by (rule TrimSpace_visible; simp add: visible_def)+
  have "TrimSpace [] = []" by code_simp
  with t f show "wf_context c sample_context"
    using canonical_account_example canonical_child_example
    by (simp add: wf_context_def sample_context_def ValidateUncompressedSecp256k1Hex_def)
  show "settled (ctx_PublicKeyFormat sample_context)" by (simp add: sample_context_def)
qed

lemmas sample_context_fixed = NormalizeContext_fixed [OF sample_context_wf]

section \<open>Properties\<close>

text \<open>
  C37.  Whatever \<open>NormalizeContext\<close> returns is well formed (trimmed identifiers, a supported
  algorithm/curve/scheme triple, canonical paths with the full path composed from the other two, a
  valid derived key) and keeps the caller's derived key and version numbers; every refusal is one of
  the four documented sentinels.
\<close>

theorem context_normalisation_sound:
  "case NormalizeContext c ctx of
     Inr n \<Rightarrow> wf_context c n \<and> ctx_DerivedPublicKey n = ctx_DerivedPublicKey ctx
       \<and> ctx_DescriptorVersion n = ctx_DescriptorVersion ctx \<and> ctx_ProfileVersion n = ctx_ProfileVersion ctx
       \<and> ctx_KeyVersion n = ctx_KeyVersion ctx
   | Inl e \<Rightarrow> \<exists>s\<in>set context_sentinels. errors_Is e s"
  using NormalizeContext_wf NormalizeContext_frame NormalizeContext_error
  by (cases "NormalizeContext c ctx") auto

text \<open>
  Normalising a normalised context changes nothing, for contexts with an ASCII key format (the
  format is the one field whose lower-casing could reintroduce white space outside ASCII).
\<close>

theorem context_normalisation_idempotent:
  assumes "NormalizeContext c ctx = Inr n" "is_ascii (ctx_PublicKeyFormat ctx)"
  shows "NormalizeContext c n = Inr n"
  using NormalizeContext_fixed NormalizeContext_wf NormalizeContext_settled assms by blast

theorem context_normalisation_idempotent_witness:
  "NormalizeContext secp256k1 sample_context = Inr sample_context"
  by (rule context_normalisation_idempotent [OF sample_context_fixed]) (simp add: sample_context_def)

text \<open>
  A context matches a session exactly when it normalises, its algorithm and curve are those of
  the session (with the defaults for blank fields), and the chains agree unless one of them is blank.
\<close>

theorem match_session_exact:
  "MatchSession c ctx ses = Inr () \<longleftrightarrow>
   (\<exists>n. NormalizeContext c ctx = Inr n
        \<and> ctx_Algorithm n = session_algorithm ses \<and> ctx_Curve n = session_curve ses
        \<and> (ctx_Chain n = [] \<or> TrimSpace (ses_Chain ses) = [] \<or> ctx_Chain n = TrimSpace (ses_Chain ses)))"
  by (auto simp: MatchSession_def session_algorithm_def session_curve_def Let_def
      split: sum.splits if_splits)

end
