(* ===== verification/Derivation_Hash.thy ===== *)
theory Derivation_Hash
  imports Derivation_Context Sha256
begin

text \<open>
  The canonical payload of a derivation context and its SHA-256 commitment
  (\<^verbatim>\<open>internal/tss/derivation/hash.go\<close>).  \<open>appendJSONLoop\<close> is the source's loop with its \<open>start\<close> and
  \<open>i\<close> indices; \<open>escape_char\<close> is the reference escaping of one octet, and the loop is shown to
  compute its concatenation.  \<open>unescape1\<close> reads one escaped octet back, which makes the payload
  an injective encoding of the hashed fields: equal payloads mean equal hashed fields, so two
  contexts with the same hash agree on every hashed field or exhibit a SHA-256 collision.
\<close>

section \<open>The code\<close>

definition hashDomainV1 :: string where
  "hashDomainV1 = ''brosettlement.derivation_context.v1''"

definition jsonHex :: string where
  "jsonHex = ''0123456789abcdef''"

abbreviation "dquote \<equiv> CHR 0x22"
abbreviation "backslash \<equiv> CHR 0x5C"

definition shortEscape :: "char \<Rightarrow> string option" where
  "shortEscape c =
     (if c = backslash then Some [backslash, backslash]
      else if c = dquote then Some [backslash, dquote]
      else if c = CHR 0x08 then Some [backslash, CHR ''b'']
      else if c = CHR 0x0C then Some [backslash, CHR ''f'']
      else if c = CHR 0x0A then Some [backslash, CHR ''n'']
      else if c = CHR 0x0D then Some [backslash, CHR ''r'']
      else if c = CHR 0x09 then Some [backslash, CHR ''t'']
      else None)"

definition go_slice :: "'a list \<Rightarrow> nat \<Rightarrow> nat \<Rightarrow> 'a list" where
  "go_slice s i j = take (j - i) (drop i s)"

function appendJSONLoop :: "bytes \<Rightarrow> string \<Rightarrow> nat \<Rightarrow> nat \<Rightarrow> bytes \<times> nat" where
  "appendJSONLoop dst s start i =
     (if i < length s then
        (case shortEscape (s ! i) of
           Some esc \<Rightarrow> appendJSONLoop (dst @ go_slice s start i @ esc) s (i + 1) (i + 1)
         | None \<Rightarrow>
             if byte_val (s ! i) < 0x20
             then appendJSONLoop
                    (dst @ go_slice s start i @ [backslash, CHR ''u'', CHR ''0'', CHR ''0'']
                       @ [jsonHex ! (byte_val (s ! i) div 16), jsonHex ! (byte_val (s ! i) mod 16)])
                    s (i + 1) (i + 1)
             else appendJSONLoop dst s start (i + 1))
      else (dst, start))"
  by pat_completeness auto
termination
  by (relation "measure (\<lambda>(dst, s, start, i). length s - i)") auto

declare appendJSONLoop.simps [simp del]

definition appendJSONString :: "bytes \<Rightarrow> string \<Rightarrow> bytes" where
  "appendJSONString dst s =
     (case appendJSONLoop (dst @ [dquote]) s 0 0 of
        (dst', start) \<Rightarrow> dst' @ drop start s @ [dquote])"

definition appendJSONStringField :: "bytes \<Rightarrow> string \<Rightarrow> string \<Rightarrow> bytes" where
  "appendJSONStringField dst name value =
     appendJSONString (dst @ [CHR '','', dquote] @ name @ [dquote, CHR '':'']) value"

definition appendJSONUintField :: "bytes \<Rightarrow> string \<Rightarrow> u32 \<Rightarrow> bytes" where
  "appendJSONUintField dst name value =
     dst @ [CHR '','', dquote] @ name @ [dquote, CHR '':''] @ FormatUint (unat value)"

definition hashFields :: "Context \<Rightarrow> (string \<times> string) list" where
  "hashFields ctx =
     [(''profile_id'', ctx_ProfileID ctx),
      (''profile_template_id'', ctx_ProfileTemplateID ctx),
      (''chain'', ctx_Chain ctx),
      (''algorithm'', ctx_Algorithm ctx),
      (''curve'', ctx_Curve ctx),
      (''scheme'', ctx_Scheme ctx),
      (''public_key_format'', ctx_PublicKeyFormat ctx),
      (''account_path'', ctx_AccountPath ctx),
      (''child_path'', ctx_ChildPath ctx),
      (''full_path'', ctx_FullPath ctx),
      (''derived_public_key'', ctx_DerivedPublicKey ctx)]"

definition CanonicalHashPayloadV1 :: "curve \<Rightarrow> Context \<Rightarrow> bytes result" where
  "CanonicalHashPayloadV1 c ctx0 =
     (case NormalizeContext c ctx0 of
        Inl err \<Rightarrow> Inl err
      | Inr ctx \<Rightarrow>
          (case List.find (\<lambda>(name, value). \<not> ValidString value) (hashFields ctx) of
             Some (name, value) \<Rightarrow> Inl (errorf ErrInvalidDerivationContext ''is not valid utf-8'')
           | None \<Rightarrow>
               let payload = [CHR ''{'', dquote] @ ''version'' @ [dquote] @ '':1'';
                   payload = foldl (\<lambda>p (name, value). appendJSONStringField p name value)
                               payload (hashFields ctx);
                   payload = appendJSONUintField payload ''descriptor_version'' (ctx_DescriptorVersion ctx);
                   payload = appendJSONUintField payload ''profile_version'' (ctx_ProfileVersion ctx);
                   payload = appendJSONUintField payload ''key_version'' (ctx_KeyVersion ctx)
               in Inr (payload @ ''}'')))"

definition HashV1 :: "curve \<Rightarrow> Context \<Rightarrow> string result" where
  "HashV1 c ctx =
     (case CanonicalHashPayloadV1 c ctx of
        Inl err \<Rightarrow> Inl err
      | Inr payload \<Rightarrow>
          Inr (hex_EncodeToString (Sum256 ((hashDomainV1 @ [CHR 0x0A]) @ payload))))"

section \<open>Escaping\<close>

definition escape_char :: "char \<Rightarrow> string" where
  "escape_char c =
     (case shortEscape c of
        Some esc \<Rightarrow> esc
      | None \<Rightarrow>
          if byte_val c < 0x20
          then [backslash, CHR ''u'', CHR ''0'', CHR ''0'',
                hex_digit (byte_val c div 16), hex_digit (byte_val c mod 16)]
          else [c])"

definition escape :: "string \<Rightarrow> string" where
  "escape s = concat (map escape_char s)"

lemma escape_simps [simp]:
  "escape [] = []" "escape (c # s) = escape_char c @ escape s" "escape (s @ t) = escape s @ escape t"
  by (simp_all add: escape_def)

lemma go_slice_self [simp]: "go_slice s i i = []"
  by (simp add: go_slice_def)

lemma go_slice_Suc: "start \<le> i \<Longrightarrow> i < length s \<Longrightarrow> go_slice s start (Suc i) = go_slice s start i @ [s ! i]"
  by (simp add: go_slice_def Suc_diff_le take_Suc_conv_app_nth)

lemma go_slice_drop: "start \<le> i \<Longrightarrow> i \<ge> length s \<Longrightarrow> drop start s = go_slice s start i"
  by (simp add: go_slice_def)

text \<open>
  Loop invariant: the octets between \<open>start\<close> and \<open>i\<close> are copied verbatim later, so escaping them
  must leave them alone.
\<close>

lemma appendJSONLoop_correct:
  assumes "start \<le> i" "escape (go_slice s start i) = go_slice s start i"
  shows "(case appendJSONLoop dst s start i of (d, st) \<Rightarrow> d @ drop st s)
         = dst @ go_slice s start i @ escape (drop i s)"
  using assms
proof (induction dst s start i rule: appendJSONLoop.induct)
  case (1 dst s start i)
  show ?case
  proof (cases "i < length s")
    case False
    then show ?thesis
      using "1.prems" go_slice_drop [of start i s] by (simp add: appendJSONLoop.simps [of dst s start i])
  next
    case True
    have d: "drop i s = s ! i # drop (Suc i) s" using True by (rule Cons_nth_drop_Suc [symmetric])
    consider (short) esc where "shortEscape (s ! i) = Some esc"
      | (ctrl) "shortEscape (s ! i) = None" "byte_val (s ! i) < 0x20"
      | (plain) "shortEscape (s ! i) = None" "\<not> byte_val (s ! i) < 0x20"
      by (cases "shortEscape (s ! i)") auto
    then show ?thesis
    proof cases
      case short
      then show ?thesis
        using True d "1.IH"(3) [OF True short]
        by (simp add: appendJSONLoop.simps [of dst s start i] escape_char_def)
    next
      case ctrl
      then show ?thesis
        using True d "1.IH"(1) [OF True ctrl]
        by (simp add: appendJSONLoop.simps [of dst s start i] escape_char_def hex_digit_def jsonHex_def)
    next
      case plain
      then have "escape (go_slice s start (Suc i)) = go_slice s start (Suc i)"
        using "1.prems" True by (simp add: go_slice_Suc escape_char_def)
      then show ?thesis
        using plain True d "1.IH"(2) [OF True plain] "1.prems"
        by (simp add: appendJSONLoop.simps [of dst s start i] escape_char_def go_slice_Suc)
    qed
  qed
qed

lemma appendJSONString_escape: "appendJSONString dst s = dst @ [dquote] @ escape s @ [dquote]"
  using appendJSONLoop_correct [of 0 0 s "dst @ [dquote]"]
  by (auto simp: appendJSONString_def split: prod.splits)

section \<open>Reading back\<close>

definition unescape1 :: "string \<Rightarrow> (char \<times> string) option" where
  "unescape1 s =
     (case s of
        [] \<Rightarrow> None
      | c # t \<Rightarrow>
          if c \<noteq> backslash then Some (c, t)
          else (case t of
                  [] \<Rightarrow> None
                | x # r \<Rightarrow>
                    if x = CHR ''u'' then
                      (case r of
                         z0 # z1 # h # l # r' \<Rightarrow>
                           (case (fromHexChar h, fromHexChar l) of
                              (Some a, Some b) \<Rightarrow> Some (byte_of (16 * a + b), r')
                            | _ \<Rightarrow> None)
                       | _ \<Rightarrow> None)
                    else Some (if x = CHR ''b'' then CHR 0x08 else if x = CHR ''f'' then CHR 0x0C
                               else if x = CHR ''n'' then CHR 0x0A else if x = CHR ''r'' then CHR 0x0D
                               else if x = CHR ''t'' then CHR 0x09 else x, r)))"

lemma unescape1_escape: "unescape1 (escape_char c @ t) = Some (c, t)"
proof (cases "shortEscape c")
  case None
  then have "c \<noteq> backslash" by (auto simp: shortEscape_def split: if_splits)
  with None show ?thesis
    by (simp add: escape_char_def unescape1_def less_mult_imp_div_less)
next
  case (Some esc)
  then show ?thesis
    by (auto simp: escape_char_def unescape1_def shortEscape_def split: if_splits)
qed

lemma escape_char_hd: "escape_char c \<noteq> []" "hd (escape_char c) \<noteq> dquote"
  by (auto simp: escape_char_def shortEscape_def split: if_splits)

lemma escape_char_not_dquote [simp]: "escape_char c \<noteq> dquote # t" "dquote # t \<noteq> escape_char c"
  using escape_char_hd(2) [of c] by (metis list.sel(1))+

lemma escape_unique:
  "escape s @ dquote # r = escape s' @ dquote # r' \<Longrightarrow> s = s' \<and> r = r'"
proof (induction s arbitrary: s')
  case Nil
  then show ?case
    by (cases s') (auto simp: Cons_eq_append_conv escape_char_hd(1))
next
  case (Cons c s)
  show ?case
  proof (cases s')
    case Nil
    with Cons.prems show ?thesis
      by (auto simp: append_eq_Cons_conv escape_char_hd(1))
  next
    case (Cons c' t')
    have "unescape1 (escape_char c @ (escape s @ dquote # r)) = unescape1 (escape_char c' @ (escape t' @ dquote # r'))"
      using Cons.prems Cons by simp
    then have "c = c'" "escape s @ dquote # r = escape t' @ dquote # r'"
      by (simp_all add: unescape1_escape)
    with Cons.IH [of t'] Cons show ?thesis by simp
  qed
qed

section \<open>The payload as an injective encoding\<close>

definition string_field :: "string \<times> string \<Rightarrow> string" where
  "string_field f = [CHR '','', dquote] @ fst f @ [dquote, CHR '':'', dquote] @ escape (snd f) @ [dquote]"

definition uint_field :: "string \<times> u32 \<Rightarrow> string" where
  "uint_field f = [CHR '','', dquote] @ fst f @ [dquote, CHR '':''] @ FormatUint (unat (snd f))"

definition hashVersions :: "Context \<Rightarrow> (string \<times> u32) list" where
  "hashVersions n =
     [(''descriptor_version'', ctx_DescriptorVersion n), (''profile_version'', ctx_ProfileVersion n),
      (''key_version'', ctx_KeyVersion n)]"

definition payload_text :: "Context \<Rightarrow> string" where
  "payload_text n =
     [CHR ''{'', dquote] @ ''version'' @ [dquote] @ '':1''
     @ concat (map string_field (hashFields n)) @ concat (map uint_field (hashVersions n)) @ ''}''"

lemma foldl_string_fields:
  "foldl (\<lambda>p (name, value). appendJSONStringField p name value) p fs = p @ concat (map string_field fs)"
  by (induction fs arbitrary: p)
     (auto simp: appendJSONStringField_def appendJSONString_escape string_field_def)

lemma CanonicalHashPayloadV1_Inr_iff:
  "CanonicalHashPayloadV1 c ctx = Inr p \<longleftrightarrow>
   (\<exists>n. NormalizeContext c ctx = Inr n \<and> (\<forall>f\<in>set (hashFields n). ValidString (snd f)) \<and> p = payload_text n)"
proof (cases "NormalizeContext c ctx")
  case (Inl e)
  then show ?thesis by (simp add: CanonicalHashPayloadV1_def)
next
  case (Inr n)
  show ?thesis
  proof (cases "List.find (\<lambda>(name, value). \<not> ValidString value) (hashFields n)")
    case None
    then have "\<forall>f\<in>set (hashFields n). ValidString (snd f)" by (auto simp: find_None_iff)
    moreover have "CanonicalHashPayloadV1 c ctx = Inr (payload_text n)"
      using Inr None by (simp add: CanonicalHashPayloadV1_def foldl_string_fields payload_text_def
          hashVersions_def appendJSONUintField_def uint_field_def Let_def)
    ultimately show ?thesis using Inr by auto
  next
    case (Some f)
    then obtain nm v where "f = (nm, v)" "(nm, v) \<in> set (hashFields n)" "\<not> ValidString v"
      using find_Some_mem [OF Some] by (cases f) auto
    then show ?thesis using Inr Some by (force simp: CanonicalHashPayloadV1_def)
  qed
qed

lemma CanonicalHashPayloadV1_NormalizeContext:
  "NormalizeContext c a = NormalizeContext c b \<Longrightarrow> CanonicalHashPayloadV1 c a = CanonicalHashPayloadV1 c b"
  by (simp add: CanonicalHashPayloadV1_def)

lemma string_fields_unique:
  assumes "length fs = length gs" "map fst fs = map fst gs"
    and "concat (map string_field fs) @ r = concat (map string_field gs) @ r'"
  shows "fs = gs \<and> r = r'"
  using assms
proof (induction fs gs arbitrary: r r' rule: list_induct2)
  case Nil
  then show ?case by simp
next
  case (Cons f fs g gs)
  have "escape (snd f) @ dquote # (concat (map string_field fs) @ r)
      = escape (snd g) @ dquote # (concat (map string_field gs) @ r')"
    using Cons.prems by (simp add: string_field_def [of f] string_field_def [of g])
  from escape_unique [OF this] have eqs: "snd f = snd g"
      "concat (map string_field fs) @ r = concat (map string_field gs) @ r'"
    by simp_all
  with Cons.prems(1) Cons.IH [OF _ eqs(2)] show ?case
    by (simp add: prod_eq_iff)
qed

lemma digits_unique:
  assumes "FormatUint a @ x # r = FormatUint b @ y # r'" "\<not> is_digit x" "\<not> is_digit y"
  shows "a = b \<and> x # r = y # r'"
proof -
  have *: "takeWhile is_digit (FormatUint n @ z # t) = FormatUint n" if "\<not> is_digit z" for n z t
    using that FormatUint_digits [of n] by (simp add: takeWhile_append2 list_all_iff)
  have "FormatUint a = FormatUint b" using assms * by metis
  with assms(1) show ?thesis by simp
qed

lemma uint_fields_unique:
  assumes "length fs = length gs" "map fst fs = map fst gs"
    and "concat (map uint_field fs) @ ''}'' = concat (map uint_field gs) @ ''}''"
  shows "fs = gs"
  using assms
proof (induction fs gs rule: list_induct2)
  case Nil
  then show ?case by simp
next
  case (Cons f fs g gs)
  let ?next = "\<lambda>hs. concat (map uint_field hs) @ ''}''"
  have nx: "\<exists>x r. ?next hs = x # r \<and> \<not> is_digit x" for hs
    by (cases hs) (auto simp: uint_field_def is_digit_def)
  obtain x r y r' where xr: "?next fs = x # r" "\<not> is_digit x" "?next gs = y # r'" "\<not> is_digit y"
    using nx by metis
  have "FormatUint (unat (snd f)) @ ?next fs = FormatUint (unat (snd g)) @ ?next gs"
    using Cons.prems by (simp add: uint_field_def [of f] uint_field_def [of g])
  then have "unat (snd f) = unat (snd g)" "?next fs = ?next gs"
    using digits_unique xr by metis+
  then have "snd f = snd g" "fs = gs"
    using Cons.prems(1) Cons.IH by (auto intro: unsigned_word_eqI)
  with Cons.prems(1) show ?case by (simp add: prod_eq_iff)
qed

definition same_commitment :: "Context \<Rightarrow> Context \<Rightarrow> bool" where
  "same_commitment m n \<longleftrightarrow> hashFields m = hashFields n \<and> hashVersions m = hashVersions n"

lemma payload_text_inject: "payload_text m = payload_text n \<longleftrightarrow> same_commitment m n"
proof
  assume eq: "payload_text m = payload_text n"
  have names: "map fst (hashFields m) = map fst (hashFields n)"
      "map fst (hashVersions m) = map fst (hashVersions n)"
    by (simp_all add: hashFields_def hashVersions_def)
  have len: "length (hashFields m) = length (hashFields n)"
      "length (hashVersions m) = length (hashVersions n)"
    by (simp_all add: hashFields_def hashVersions_def)
  have "concat (map string_field (hashFields m)) @ (concat (map uint_field (hashVersions m)) @ ''}'')
      = concat (map string_field (hashFields n)) @ (concat (map uint_field (hashVersions n)) @ ''}'')"
    using eq by (simp add: payload_text_def)
  from string_fields_unique [OF len(1) names(1) this] uint_fields_unique [OF len(2) names(2)]
  show "same_commitment m n" by (simp add: same_commitment_def)
next
  assume "same_commitment m n"
  then show "payload_text m = payload_text n" by (simp add: same_commitment_def payload_text_def)
qed

lemma HashV1_Inr_iff:
  "HashV1 c ctx = Inr h \<longleftrightarrow>
   (\<exists>p. CanonicalHashPayloadV1 c ctx = Inr p
        \<and> h = hex_EncodeToString (Sum256 (hashDomainV1 @ [CHR 0x0A] @ p)))"
  by (auto simp: HashV1_def split: sum.splits)

lemma HashV1_NormalizeContext: "NormalizeContext c a = NormalizeContext c b \<Longrightarrow> HashV1 c a = HashV1 c b"
  using CanonicalHashPayloadV1_NormalizeContext [of c a b] by (simp add: HashV1_def)

section \<open>Properties\<close>

lemma sample_context_payload:
  "CanonicalHashPayloadV1 c sample_context = Inr (payload_text sample_context)"
proof -
  have "list_all (\<lambda>f. is_ascii (snd f)) (hashFields sample_context)"
    by (simp add: hashFields_def sample_context_def)
  then have "\<forall>f\<in>set (hashFields sample_context). ValidString (snd f)"
    by (auto simp: list_all_iff ValidString_ascii)
  then show ?thesis using sample_context_fixed by (auto simp: CanonicalHashPayloadV1_Inr_iff)
qed

lemma sample_context_hash: "\<exists>h. HashV1 c sample_context = Inr h"
  by (simp add: HashV1_def sample_context_payload)

text \<open>
  C38.  The index-juggling escape loop of the payload writer computes the per-octet reference
  escaping between quotes, whatever has been written before.
\<close>

theorem json_string_escaping:
  "appendJSONString dst s = dst @ [dquote] @ concat (map escape_char s) @ [dquote]"
  using appendJSONString_escape by (simp add: escape_def)

text \<open>
  C15.  The canonical payload determines every hashed field: two contexts have the same payload
  exactly when they normalise to contexts that agree on all eleven strings and three versions.
\<close>

theorem payload_injective:
  assumes "CanonicalHashPayloadV1 c a = Inr p" "CanonicalHashPayloadV1 c b = Inr q"
  shows "p = q \<longleftrightarrow> (\<exists>m n. NormalizeContext c a = Inr m \<and> NormalizeContext c b = Inr n
                         \<and> hashFields m = hashFields n
                         \<and> ctx_DescriptorVersion m = ctx_DescriptorVersion n
                         \<and> ctx_ProfileVersion m = ctx_ProfileVersion n
                         \<and> ctx_KeyVersion m = ctx_KeyVersion n)"
  using assms payload_text_inject
  by (auto simp: CanonicalHashPayloadV1_Inr_iff same_commitment_def hashVersions_def)

theorem payload_injective_witness:
  "payload_text sample_context = payload_text sample_context \<longleftrightarrow>
   (\<exists>m n. NormalizeContext secp256k1 sample_context = Inr m \<and> NormalizeContext secp256k1 sample_context = Inr n
      \<and> hashFields m = hashFields n \<and> ctx_DescriptorVersion m = ctx_DescriptorVersion n
      \<and> ctx_ProfileVersion m = ctx_ProfileVersion n \<and> ctx_KeyVersion m = ctx_KeyVersion n)"
  by (rule payload_injective [OF sample_context_payload sample_context_payload])

text \<open>
  C16.  The hash commits to the context: two contexts with one hash agree on every hashed field
  after normalisation, or their two payloads, with the domain tag in front, collide under SHA-256.
\<close>

theorem hash_commits:
  assumes "HashV1 c a = Inr h" "HashV1 c b = Inr h"
  shows "\<exists>m n. NormalizeContext c a = Inr m \<and> NormalizeContext c b = Inr n \<and>
    (same_commitment m n \<or>
     (\<exists>p q. CanonicalHashPayloadV1 c a = Inr p \<and> CanonicalHashPayloadV1 c b = Inr q \<and> p \<noteq> q
        \<and> Sum256 (hashDomainV1 @ [CHR 0x0A] @ p) = Sum256 (hashDomainV1 @ [CHR 0x0A] @ q)))"
proof -
  obtain p q where pq: "CanonicalHashPayloadV1 c a = Inr p" "CanonicalHashPayloadV1 c b = Inr q"
      "h = hex_EncodeToString (Sum256 (hashDomainV1 @ [CHR 0x0A] @ p))"
      "h = hex_EncodeToString (Sum256 (hashDomainV1 @ [CHR 0x0A] @ q))"
    using assms by (auto simp: HashV1_Inr_iff)
  then obtain m n where "NormalizeContext c a = Inr m" "NormalizeContext c b = Inr n"
      "p = payload_text m" "q = payload_text n"
    by (auto simp: CanonicalHashPayloadV1_Inr_iff)
  with pq payload_text_inject [of m n] show ?thesis by (metis hex_Encode_inject)
qed

theorem hash_commits_witness:
  "\<exists>m n. NormalizeContext secp256k1 sample_context = Inr m \<and> NormalizeContext secp256k1 sample_context = Inr n"
  using sample_context_hash [of secp256k1] hash_commits [of secp256k1 sample_context _ sample_context] by blast

text \<open>
  A hash is 64 lower-case hex digits, and hashing the normalised context gives the hash of the
  original, so the hash does not depend on who normalises.
\<close>

theorem hash_shape_and_stability:
  assumes "HashV1 c ctx = Inr h" "is_ascii (ctx_PublicKeyFormat ctx)"
  shows "length h = 64 \<and> list_all is_lower_hex h
    \<and> (\<exists>n. NormalizeContext c ctx = Inr n \<and> HashV1 c n = Inr h)"
proof -
  obtain p where p: "CanonicalHashPayloadV1 c ctx = Inr p"
      "h = hex_EncodeToString (Sum256 (hashDomainV1 @ [CHR 0x0A] @ p))"
    using assms(1) by (auto simp: HashV1_Inr_iff)
  then obtain n where n: "NormalizeContext c ctx = Inr n" by (auto simp: CanonicalHashPayloadV1_Inr_iff)
  then have "NormalizeContext c n = NormalizeContext c ctx"
    using NormalizeContext_fixed NormalizeContext_wf NormalizeContext_settled assms(2) by metis
  then have "HashV1 c n = Inr h" using HashV1_NormalizeContext assms(1) by metis
  with p(2) n show ?thesis by (simp add: Sum256_length hex_Encode_lower)
qed

theorem hash_shape_and_stability_witness:
  "\<exists>h. HashV1 secp256k1 sample_context = Inr h \<and> length h = 64"
proof -
  obtain h where "HashV1 secp256k1 sample_context = Inr h" using sample_context_hash by blast
  with hash_shape_and_stability [OF this] show ?thesis by (simp add: sample_context_def)
qed

end
