(* ===== verification/Derivation_Keys.thy ===== *)
theory Derivation_Keys
  imports Derivation_Hash
begin

text \<open>
  Chain codes, DKG material and child-key derivation (\<^verbatim>\<open>internal/tss/derivation/ecdsa.go\<close>), with the
  small helpers of \<^verbatim>\<open>tss/utils\<close>.  The key-derivation routine and the share adjustment belong to
  tss-lib and are parameters: \<open>ckd\<close> stands for \<^verbatim>\<open>ckd.DeriveChildKeyFromHierarchy\<close> on the account
  point, chain code and indices, \<open>adjust\<close> for \<^verbatim>\<open>UpdatePublicKeyAndAdjustBigXj\<close> on one share.  Of
  tss-lib's \<^verbatim>\<open>LocalPartySaveData\<close> the repository reads three fields; the others, never read here,
  are the opaque octets \<open>sp_Rest\<close>.

  Shown: a chain code parses exactly when it is 64 lower-case hex digits and then prints back to
  itself; derivation for a context hands tss-lib exactly the two non-hardened indices of the
  child path, and never returns a child whose key differs from the one the context commits to.
\<close>

section \<open>Helpers of tss/utils\<close>

definition NormalizeAlgorithm :: "string \<Rightarrow> string" where
  "NormalizeAlgorithm algorithm =
     (let alg = ToLower (TrimSpace algorithm) in if alg = [] then ''ecdsa'' else alg)"

definition IsECDSA :: "string \<Rightarrow> bool" where
  "IsECDSA algorithm = (let alg = ToLower (TrimSpace algorithm) in alg = [] \<or> alg = ''ecdsa'')"

definition ZeroBytes :: "bytes \<Rightarrow> bytes" where
  "ZeroBytes data = map (\<lambda>_. CHR 0x00) data"

text \<open>A nil \<^verbatim>\<open>emptyErr\<close> gives an error that wraps nothing.\<close>

definition NormalizeKeyID :: "string \<Rightarrow> error option \<Rightarrow> string result" where
  "NormalizeKeyID raw emptyErr =
     (let keyID = TrimSpace raw in
      if keyID = []
      then Inl (case emptyErr of Some err \<Rightarrow> Wrap ''empty key_id'' err | None \<Rightarrow> errors_New ''empty key_id'')
      else Inr keyID)"

lemma NormalizeKeyID_Inr: "NormalizeKeyID raw e = Inr k \<Longrightarrow> k = TrimSpace raw \<and> k \<noteq> [] \<and> TrimSpace k = k"
  by (auto simp: NormalizeKeyID_def Let_def split: if_splits)

lemma NormalizeAlgorithm_ecdsa: "NormalizeAlgorithm a = ''ecdsa'' \<longleftrightarrow> IsECDSA a"
  by (simp add: NormalizeAlgorithm_def IsECDSA_def Let_def)

section \<open>The code\<close>

record DKGMaterial =
  dm_ChainCode :: string
  dm_DerivationScheme :: string

record ECDSAChildKey =
  ck_PublicKey :: ECPoint
  ck_PublicKeyHex :: string
  ck_KeyDerivationDelta :: int

record LocalPartySaveData =
  sp_ECDSAPub :: "ECPoint option"
  sp_BigXj :: "ECPoint list"
  sp_Ks :: "int list"
  sp_Rest :: bytes

record PreparedECDSASigningShare =
  ps_Share :: LocalPartySaveData
  ps_DerivedPublicKey :: string
  ps_KeyDerivationDelta :: int

type_synonym ckd_fun = "u32 list \<Rightarrow> ECPoint \<Rightarrow> bytes \<Rightarrow> (int \<times> ECPoint) result"
type_synonym adjust_fun = "int \<Rightarrow> LocalPartySaveData \<Rightarrow> ECPoint \<Rightarrow> LocalPartySaveData result"

definition IsECDSAAlgorithm :: "string \<Rightarrow> bool" where
  "IsECDSAAlgorithm algorithm = (let alg = ToLower (TrimSpace algorithm) in alg = [] \<or> alg = AlgorithmECDSA)"

definition ParseChainCodeHex :: "string \<Rightarrow> bytes result" where
  "ParseChainCodeHex input =
     (let bad = Inl (errorf ErrChainCodeInvalid ''chain_code must be 32-byte lowercase hex'') in
      if length input \<noteq> 64 \<or> HasPrefix input ''0x'' \<or> ToLower input \<noteq> input then bad
      else (case hex_DecodeString input of
              None \<Rightarrow> bad
            | Some decoded \<Rightarrow> if length decoded \<noteq> 32 then bad else Inr decoded))"

definition ValidateDKGMaterial :: "string \<Rightarrow> DKGMaterial \<Rightarrow> (bytes \<times> string) result" where
  "ValidateDKGMaterial algorithm material =
     (if \<not> IsECDSAAlgorithm algorithm then Inr ([], [])
      else if TrimSpace (dm_ChainCode material) = [] then Inl (Sentinel ErrChainCodeMissing)
      else
        let scheme = ToLower (TrimSpace (dm_DerivationScheme material)) in
        if scheme \<noteq> DerivationSchemeBIP32Secp256k1
        then Inl (errorf ErrUnsupportedDerivationScheme [])
        else (case ParseChainCodeHex (dm_ChainCode material) of
                Inl err \<Rightarrow> Inl err
              | Inr chainCode \<Rightarrow> Inr (chainCode, scheme)))"

definition ParseChildPath :: "string \<Rightarrow> u32 list result" where
  "ParseChildPath raw = (case NormalizeChildPath raw of Inl err \<Rightarrow> Inl err | Inr (_, indices) \<Rightarrow> Inr indices)"

definition DeriveECDSAChildKey ::
  "curve \<Rightarrow> ckd_fun \<Rightarrow> ECPoint option \<Rightarrow> bytes \<Rightarrow> u32 list \<Rightarrow> ECDSAChildKey result" where
  "DeriveECDSAChildKey c ckd accountPub chainCode indices =
     (case accountPub of
        None \<Rightarrow> Inl (errorf ErrInvalidDerivationContext ''account public key missing'')
      | Some pub \<Rightarrow>
          if length chainCode = 0 then Inl (Sentinel ErrChainCodeMissing)
          else if length chainCode \<noteq> 32 then Inl (errorf ErrChainCodeInvalid ''chain_code must be 32 bytes'')
          else if (case (pt_X pub, pt_Y pub) of (Some x, Some y) \<Rightarrow> \<not> cv_IsOnCurve c x y | _ \<Rightarrow> True)
          then Inl (errorf ErrInvalidDerivationContext ''account public key invalid'')
          else (case ckd indices pub chainCode of
                  Inl err \<Rightarrow> Inl (errorf ErrDerivationPathInvalid [])
                | Inr (delta, childPub) \<Rightarrow>
                    (case EncodeUncompressedSecp256k1 c (Some childPub) of
                       Inl panic \<Rightarrow> Inl panic
                     | Inr hex \<Rightarrow>
                         Inr \<lparr>ck_PublicKey = childPub, ck_PublicKeyHex = hex,
                              ck_KeyDerivationDelta = delta\<rparr>)))"

definition DeriveECDSAChildKeyForContext ::
  "curve \<Rightarrow> ckd_fun \<Rightarrow> ECPoint option \<Rightarrow> bytes \<Rightarrow> Context \<Rightarrow> ECDSAChildKey result" where
  "DeriveECDSAChildKeyForContext c ckd accountPub chainCode ctx =
     (case NormalizeContext c ctx of
        Inl err \<Rightarrow> Inl err
      | Inr normalized \<Rightarrow>
          if ctx_Algorithm normalized \<noteq> AlgorithmECDSA \<or> ctx_Curve normalized \<noteq> CurveSecp256k1
          then Inl (errorf ErrUnsupportedAlgorithmCurve [])
          else (case ParseChildPath (ctx_ChildPath normalized) of
                  Inl err \<Rightarrow> Inl err
                | Inr indices \<Rightarrow>
                    (case DeriveECDSAChildKey c ckd accountPub chainCode indices of
                       Inl err \<Rightarrow> Inl err
                     | Inr child \<Rightarrow>
                         if ctx_DerivedPublicKey normalized \<noteq> []
                            \<and> ctx_DerivedPublicKey normalized \<noteq> ck_PublicKeyHex child
                         then Inl (errorf ErrDerivationContextMismatch ''derived_public_key mismatch'')
                         else Inr child)))"

text \<open>Shares are values here, so the copy of the \<^verbatim>\<open>BigXj\<close> slice is the share itself.\<close>

definition cloneECDSAShareForDerivation :: "LocalPartySaveData \<Rightarrow> LocalPartySaveData" where
  "cloneECDSAShareForDerivation share = share\<lparr>sp_BigXj := [] @ sp_BigXj share\<rparr>"

definition PrepareECDSASigningShare ::
  "curve \<Rightarrow> ckd_fun \<Rightarrow> adjust_fun \<Rightarrow> LocalPartySaveData \<Rightarrow> bytes \<Rightarrow> Context
   \<Rightarrow> PreparedECDSASigningShare result" where
  "PrepareECDSASigningShare c ckd adjust share chainCode ctx =
     (case DeriveECDSAChildKeyForContext c ckd (sp_ECDSAPub share) chainCode ctx of
        Inl err \<Rightarrow> Inl err
      | Inr child \<Rightarrow>
          (case adjust (ck_KeyDerivationDelta child) (cloneECDSAShareForDerivation share)
                  (ck_PublicKey child) of
             Inl err \<Rightarrow> Inl (errorf ErrInvalidDerivationContext ''adjust share'')
           | Inr adjusted \<Rightarrow>
               Inr \<lparr>ps_Share = adjusted, ps_DerivedPublicKey = ck_PublicKeyHex child,
                    ps_KeyDerivationDelta = ck_KeyDerivationDelta child\<rparr>))"

section \<open>Chain codes\<close>

lemma IsECDSAAlgorithm_IsECDSA: "IsECDSAAlgorithm a = IsECDSA a"
  by (simp add: IsECDSAAlgorithm_def IsECDSA_def)

lemma lower_hex_no_0x: "list_all is_lower_hex s \<Longrightarrow> \<not> HasPrefix s ''0x''"
  by (auto simp: HasPrefix_pair is_lower_hex_def)

lemma ParseChainCodeHex_iff:
  "ParseChainCodeHex s = Inr b \<longleftrightarrow> length b = 32 \<and> s = hex_EncodeToString b"
proof
  assume "ParseChainCodeHex s = Inr b"
  then have "hex_DecodeString s = Some b" "ToLower s = s" "length b = 32"
    by (auto simp: ParseChainCodeHex_def Let_def split: if_splits option.splits)
  then show "length b = 32 \<and> s = hex_EncodeToString b"
    using hex_Decode_lower(2) by auto
next
  assume "length b = 32 \<and> s = hex_EncodeToString b"
  then show "ParseChainCodeHex s = Inr b"
    using hex_Encode_lower [of b] lower_hex_ToLower(2) lower_hex_no_0x
    by (auto simp: ParseChainCodeHex_def Let_def)
qed

lemma ParseChainCodeHex_error: "ParseChainCodeHex s = Inl e \<Longrightarrow> errors_Is e ErrChainCodeInvalid"
  by (auto simp: ParseChainCodeHex_def Let_def split: if_splits option.splits)

lemma ValidateDKGMaterial_ecdsa_Inr:
  assumes "ValidateDKGMaterial alg m = Inr (cc, scheme)" "IsECDSAAlgorithm alg"
  shows "length cc = 32" "dm_ChainCode m = hex_EncodeToString cc" "scheme = DerivationSchemeBIP32Secp256k1"
  using assms ParseChainCodeHex_iff
  by (auto simp: ValidateDKGMaterial_def Let_def split: if_splits sum.splits)

section \<open>Derivation\<close>

lemma ParseChildPath_iff:
  "ParseChildPath raw = Inr idx \<longleftrightarrow>
   (\<exists>a b. a < 2 ^ 31 \<and> b < 2 ^ 31 \<and> TrimSpace raw = child_path a b \<and> idx = [of_nat a, of_nat b])"
proof -
  have "ParseChildPath raw = Inr idx \<longleftrightarrow> (\<exists>p. NormalizeChildPath raw = Inr (p, idx))"
    by (auto simp: ParseChildPath_def split: sum.splits)
  then show ?thesis unfolding NormalizeChildPath_iff by blast
qed

lemma NormalizeContext_child:
  assumes "NormalizeContext c ctx = Inr n" "ParseChildPath (ctx_ChildPath n) = Inr idx"
  shows "\<exists>a b. a < 2 ^ 31 \<and> b < 2 ^ 31 \<and> ctx_ChildPath n = child_path a b \<and> idx = [of_nat a, of_nat b]"
proof -
  have "canonical_child (ctx_ChildPath n)" using NormalizeContext_wf [OF assms(1)] by (simp add: wf_context_def)
  then have "TrimSpace (ctx_ChildPath n) = ctx_ChildPath n"
    by (auto simp: canonical_child_def child_path_TrimSpace)
  with assms(2) show ?thesis by (auto simp: ParseChildPath_iff)
qed

lemma DeriveECDSAChildKey_Inr:
  assumes "DeriveECDSAChildKey c ckd pub cc idx = Inr child"
  obtains p x y where "pub = Some p" "pt_X p = Some x" "pt_Y p = Some y" "cv_IsOnCurve c x y"
    "length cc = 32" "ckd idx p cc = Inr (ck_KeyDerivationDelta child, ck_PublicKey child)"
    "EncodeUncompressedSecp256k1 c (Some (ck_PublicKey child)) = Inr (ck_PublicKeyHex child)"
  using assms by (auto simp: DeriveECDSAChildKey_def split: option.splits if_splits sum.splits)

lemma DeriveForContext_Inr:
  assumes "DeriveECDSAChildKeyForContext c ckd pub cc ctx = Inr child"
  obtains n a b where "NormalizeContext c ctx = Inr n" "ctx_Algorithm n = AlgorithmECDSA"
    "a < 2 ^ 31" "b < 2 ^ 31" "ctx_ChildPath n = child_path a b"
    "DeriveECDSAChildKey c ckd pub cc [of_nat a, of_nat b] = Inr child"
    "ctx_DerivedPublicKey ctx \<noteq> [] \<Longrightarrow> ctx_DerivedPublicKey ctx = ck_PublicKeyHex child"
proof -
  obtain n idx where n: "NormalizeContext c ctx = Inr n" "ctx_Algorithm n = AlgorithmECDSA"
      "ParseChildPath (ctx_ChildPath n) = Inr idx" "DeriveECDSAChildKey c ckd pub cc idx = Inr child"
      "ctx_DerivedPublicKey n = [] \<or> ctx_DerivedPublicKey n = ck_PublicKeyHex child"
    using assms by (auto simp: DeriveECDSAChildKeyForContext_def split: sum.splits if_splits)
  from NormalizeContext_child [OF n(1,3)] n NormalizeContext_frame(1) [OF n(1)] that show thesis
    by auto
qed

section \<open>Chain codes as a canonical codec\<close>

text \<open>
  The reference printer of a chain code: the hex text of 32 octets.
\<close>

definition formatChainCode :: "bytes \<Rightarrow> string result" where
  "formatChainCode b = (if length b = 32 then Inr (hex_EncodeToString b) else Inl (Sentinel ErrChainCodeInvalid))"

interpretation chain_code: canonical_codec formatChainCode ParseChainCodeHex
  by unfold_locales (auto simp: formatChainCode_def ParseChainCodeHex_iff split: if_splits)

text \<open>A derivation routine for concrete instances: the child is the account key itself.\<close>

definition identity_ckd :: ckd_fun where
  "identity_ckd idx p cc = Inr (0, p)"

lemma sample_derivation:
  "DeriveECDSAChildKeyForContext secp256k1 identity_ckd (Some (mk_point 1 sample_y)) (replicate 32 CHR 0x01) sample_context
   = Inr \<lparr>ck_PublicKey = mk_point 1 sample_y, ck_PublicKeyHex = encode_xy 1 sample_y, ck_KeyDerivationDelta = 0\<rparr>"
proof -
  have "child_path 0 7 = ''/0/7''" by code_simp
  then have "TrimSpace ''/0/7'' = child_path 0 7" using child_path_TrimSpace [of 0 7] by simp
  then have p: "ParseChildPath ''/0/7'' = Inr [0, 7]"
    unfolding ParseChildPath_iff by (intro exI [of _ 0] exI [of _ 7]) simp
  have "DeriveECDSAChildKey secp256k1 identity_ckd (Some (mk_point 1 sample_y)) (replicate 32 CHR 0x01) [0, 7]
    = Inr \<lparr>ck_PublicKey = mk_point 1 sample_y, ck_PublicKeyHex = encode_xy 1 sample_y, ck_KeyDerivationDelta = 0\<rparr>"
    using sample_point Encode_point(2) [OF wf_secp256k1 sample_point]
    by (simp add: DeriveECDSAChildKey_def identity_ckd_def mk_point_def)
  then show ?thesis
    using p sample_context_fixed [of secp256k1]
    by (simp add: DeriveECDSAChildKeyForContext_def) (simp add: sample_context_def)
qed

section \<open>Properties\<close>

text \<open>
  A chain code is accepted exactly when it is the lower-case hex text of 32 octets, and parsing
  then returns those octets; everything else is \<^verbatim>\<open>ErrChainCodeInvalid\<close>.
\<close>

theorem chain_code_exact:
  "case ParseChainCodeHex s of
     Inr b \<Rightarrow> length b = 32 \<and> s = hex_EncodeToString b
   | Inl e \<Rightarrow> errors_Is e ErrChainCodeInvalid \<and> (\<nexists>b. length b = 32 \<and> s = hex_EncodeToString b)"
proof (cases "ParseChainCodeHex s")
  case (Inl e)
  then have "\<nexists>b. ParseChainCodeHex s = Inr b" by simp
  then have "\<nexists>b. length b = 32 \<and> s = hex_EncodeToString b" unfolding ParseChainCodeHex_iff .
  then show ?thesis using Inl ParseChainCodeHex_error [OF Inl] by simp
next
  case (Inr b)
  then show ?thesis using ParseChainCodeHex_iff [of s b] by simp
qed

text \<open>
  C17.  Derivation for a context hands tss-lib exactly the two non-hardened indices of the context's
  canonical child path, under a 32-octet chain code and an account key on the curve, returns what
  tss-lib derived, and never returns a key other than the one the context commits to.
\<close>

theorem derivation_for_context:
  assumes "DeriveECDSAChildKeyForContext c ckd pub cc ctx = Inr child"
  shows "\<exists>n a b p x y. NormalizeContext c ctx = Inr n \<and> ctx_Algorithm n = AlgorithmECDSA
    \<and> a < 2 ^ 31 \<and> b < 2 ^ 31 \<and> ctx_ChildPath n = child_path a b
    \<and> pub = Some p \<and> pt_X p = Some x \<and> pt_Y p = Some y \<and> cv_IsOnCurve c x y \<and> length cc = 32
    \<and> ckd [of_nat a, of_nat b] p cc = Inr (ck_KeyDerivationDelta child, ck_PublicKey child)
    \<and> EncodeUncompressedSecp256k1 c (Some (ck_PublicKey child)) = Inr (ck_PublicKeyHex child)
    \<and> ctx_DerivedPublicKey ctx \<in> {[], ck_PublicKeyHex child}"
  using assms
proof (rule DeriveForContext_Inr)
  fix n a b
  assume n: "NormalizeContext c ctx = Inr n" "ctx_Algorithm n = AlgorithmECDSA" "a < 2 ^ 31" "b < 2 ^ 31"
    "ctx_ChildPath n = child_path a b" "DeriveECDSAChildKey c ckd pub cc [of_nat a, of_nat b] = Inr child"
    "ctx_DerivedPublicKey ctx \<noteq> [] \<Longrightarrow> ctx_DerivedPublicKey ctx = ck_PublicKeyHex child"
  from n(6) show ?thesis by (rule DeriveECDSAChildKey_Inr) (use n in blast)
qed

theorem derivation_for_context_witness:
  "\<exists>n a b. NormalizeContext secp256k1 sample_context = Inr n \<and> a < 2 ^ 31 \<and> b < 2 ^ 31
     \<and> ctx_ChildPath n = child_path a b"
  using derivation_for_context [OF sample_derivation] by blast

end
