(* ===== verification/Execution.thy ===== *)
theory Execution
  imports Deduper Derivation_Keys
begin

text \<open>
  The protocol execution of one session (\<^verbatim>\<open>internal/tssbnb/execution\<close>): \<^verbatim>\<open>execution.go\<close>,
  \<^verbatim>\<open>inbound.go\<close>, \<^verbatim>\<open>outbound.go\<close>, \<^verbatim>\<open>completion.go\<close>, \<^verbatim>\<open>stats.go\<close> and \<^verbatim>\<open>watchdog.go\<close>.  The state of a
  \<^verbatim>\<open>ProtocolExecution\<close> is the record \<open>exec\<close>; the deduper and the tss-lib party are type parameters
  \<open>'d\<close> and \<open>'p\<close>, reached through the interface they implement.  What happens outside the process (the
  clock, the transport, the random source, cancellation of the context) is a state \<open>'t\<close> that the
  operations of the record \<open>env\<close> read and change.  Calls to the metrics interface are recorded in
  order in \<open>ex_metrics\<close>; log output is not modelled.

  \<open>Run\<close> takes the sequence of what its \<^verbatim>\<open>select\<close> statement meets (the parent context is done, an event
  arrives, the workers have finished) and returns, or is still waiting when the sequence ends.
\<close>

section \<open>Data\<close>

datatype metric =
    SessionsStarted string
  | SessionsSucceeded string
  | SessionsFailed string string
  | Stalls string
  | Timeouts string
  | DedupHits string
  | FramesSent string
  | FramesRecv string
  | QueueFull string
  | OversizedFrames string
  | SessionDuration string

record RunnerConfig =
  rc_StallWarn :: int
  rc_StallFail :: int
  rc_StallWarnEvery :: int
  rc_WatchdogTick :: int
  rc_MaxFrameBytes :: int
  rc_InboundQueueCap :: int
  rc_DedupTTL :: int
  rc_DedupMaxEntries :: int

text \<open>Of tss-lib: a party identifier, a signature, a wire message with its routing.\<close>

record PartyID =
  pid_Id :: string
  pid_Moniker :: string
  pid_Key :: nat

record SignatureData =
  sd_Signature :: bytes
  sd_SignatureRecovery :: bytes
  sd_R :: bytes
  sd_S :: bytes
  sd_M :: bytes

record outMessage =
  om_Type :: string
  om_WireBytes :: "bytes result"
  om_IsBroadcast :: bool
  om_From :: string
  om_To :: "string list"

record ('p, 'm) tsslib =
  tl_ParseWireMessage :: "bytes \<Rightarrow> PartyID \<Rightarrow> bool \<Rightarrow> 'm result"
  tl_Update :: "'p \<Rightarrow> 'm \<Rightarrow> 'p \<times> error option"

record protocolStats =
  st_sentFrames :: u64
  st_recvFrames :: u64
  st_dedupDrops :: u64

record protocolResult =
  pr_ecdsaKeyShare :: "LocalPartySaveData option"
  pr_signature :: "SignatureData option"

datatype protocolEvent =
    eventInboundFrame Frame
  | eventRecvError "error option"
  | eventProtocolDone protocolResult

record ('d, 'p) exec =
  ex_sessionID :: string
  ex_localPartyID :: string
  ex_correlationID :: string
  ex_stage :: string
  ex_algorithm :: string
  ex_derivationContextHash :: string
  ex_party :: 'p
  ex_partyIDs :: "string \<Rightarrow> PartyID option"
  ex_cfg :: RunnerConfig
  ex_metrics :: "metric list"
  ex_ecdsaKeyShare :: "LocalPartySaveData option"
  ex_signature :: "SignatureData option"
  ex_seq :: u64
  ex_stats :: protocolStats
  ex_deduper :: 'd
  ex_protocolDoneFlag :: bool
  ex_lastProgressNanos :: int
  ex_lastWarnNanos :: int
  ex_lastMsgType :: string
  ex_lastRecvSeq :: u64
  ex_lastSentSeq :: u64
  ex_lastRoundHint :: u32

record 't env =
  en_Now :: "'t \<Rightarrow> 't \<times> int"
  en_CtxErr :: "'t \<Rightarrow> error option"
  en_SendFrame :: "'t \<Rightarrow> Frame \<Rightarrow> 't \<times> error option"
  en_Rand :: "'t \<Rightarrow> 't \<times> bytes"

text \<open>The parameters of a session; channels and the logger are not part of the state.\<close>

record 'p Params =
  pa_SessionID :: string
  pa_LocalPartyID :: string
  pa_CorrelationID :: string
  pa_Stage :: string
  pa_Algorithm :: string
  pa_DerivationContextHash :: string
  pa_Party :: 'p
  pa_PartyIDs :: "string \<Rightarrow> PartyID option"
  pa_Config :: RunnerConfig

definition New :: "'p Params \<Rightarrow> (ttlFrameDeduper, 'p) exec" where
  "New p =
     \<lparr>ex_sessionID = pa_SessionID p, ex_localPartyID = pa_LocalPartyID p, ex_correlationID = pa_CorrelationID p,
      ex_stage = pa_Stage p, ex_algorithm = pa_Algorithm p,
      ex_derivationContextHash = pa_DerivationContextHash p, ex_party = pa_Party p,
      ex_partyIDs = pa_PartyIDs p, ex_cfg = pa_Config p, ex_metrics = [], ex_ecdsaKeyShare = None,
      ex_signature = None, ex_seq = 0,
      ex_stats = \<lparr>st_sentFrames = 0, st_recvFrames = 0, st_dedupDrops = 0\<rparr>,
      ex_deduper = newTTLFrameDeduper
        \<lparr>dc_TTL = rc_DedupTTL (pa_Config p), dc_MaxEntries = rc_DedupMaxEntries (pa_Config p),
         dc_MaxFrameBytes = rc_MaxFrameBytes (pa_Config p)\<rparr>,
      ex_protocolDoneFlag = False, ex_lastProgressNanos = 0, ex_lastWarnNanos = 0, ex_lastMsgType = [],
      ex_lastRecvSeq = 0, ex_lastSentSeq = 0, ex_lastRoundHint = 0\<rparr>"

type_synonym 'd accept_fun = "int \<Rightarrow> 'd \<Rightarrow> Frame \<Rightarrow> 'd \<times> bool result"

section \<open>Counters and progress\<close>

definition IncSent :: "protocolStats \<Rightarrow> protocolStats" where
  "IncSent s = s\<lparr>st_sentFrames := st_sentFrames s + 1\<rparr>"

definition IncRecv :: "protocolStats \<Rightarrow> protocolStats" where
  "IncRecv s = s\<lparr>st_recvFrames := st_recvFrames s + 1\<rparr>"

definition IncDedupDrop :: "protocolStats \<Rightarrow> protocolStats" where
  "IncDedupDrop s = s\<lparr>st_dedupDrops := st_dedupDrops s + 1\<rparr>"

definition observe :: "metric \<Rightarrow> ('d, 'p) exec \<Rightarrow> ('d, 'p) exec" where
  "observe m e = e\<lparr>ex_metrics := ex_metrics e @ [m]\<rparr>"

definition markProgress :: "'t env \<Rightarrow> string \<Rightarrow> u32 \<Rightarrow> ('d, 'p) exec \<times> 't \<Rightarrow> ('d, 'p) exec \<times> 't" where
  "markProgress env msgType roundHint s =
     (case s of (e, t) \<Rightarrow>
        case en_Now env t of (t', now) \<Rightarrow>
          let e = e\<lparr>ex_lastProgressNanos := now\<rparr>;
              e = (if msgType \<noteq> [] then e\<lparr>ex_lastMsgType := msgType\<rparr> else e);
              e = (if roundHint > 0 then e\<lparr>ex_lastRoundHint := roundHint\<rparr> else e)
          in (e, t'))"

section \<open>Inbound\<close>

definition shouldProcessInbound ::
  "'t env \<Rightarrow> 'd accept_fun \<Rightarrow> Frame \<Rightarrow> ('d, 'p) exec \<times> 't \<Rightarrow> (('d, 'p) exec \<times> 't) \<times> bool result" where
  "shouldProcessInbound env accept frame s =
     (case s of (e, t) \<Rightarrow>
        case en_Now env t of (t', now) \<Rightarrow>
        case accept now (ex_deduper e) frame of (d, r) \<Rightarrow>
          let e = e\<lparr>ex_deduper := d\<rparr> in
          case r of
            Inl err \<Rightarrow>
              if isDuplicateErr err
              then ((observe (DedupHits (ex_stage e)) (e\<lparr>ex_stats := IncDedupDrop (ex_stats e)\<rparr>), t'),
                    Inl (Sentinel ErrDuplicateFrame))
              else if errors_Is err ErrFrameTooLarge
              then ((observe (OversizedFrames (ex_stage e)) e, t'), Inl err)
              else ((e, t'), Inl err)
          | Inr ok \<Rightarrow> ((e, t'), Inr ok))"

definition validateDerivationContextHash :: "('d, 'p) exec \<Rightarrow> Frame \<Rightarrow> error option" where
  "validateDerivationContextHash e frame =
     (if ex_stage e \<noteq> ''sign'' then None
      else if ex_derivationContextHash e = []
              \<or> fr_DerivationContextHash frame \<noteq> ex_derivationContextHash e
      then Some (errorf ErrDerivationContextMismatch ''expected got'')
      else None)"

definition validateInbound ::
  "'t env \<Rightarrow> 'd accept_fun \<Rightarrow> Frame \<Rightarrow> ('d, 'p) exec \<times> 't \<Rightarrow> (('d, 'p) exec \<times> 't) \<times> error option" where
  "validateInbound env accept frame s =
     (if fr_SessionID frame \<noteq> ex_sessionID (fst s) then (s, Some (Sentinel IoEOF))
      else (case validateDerivationContextHash (fst s) frame of
              Some err \<Rightarrow> (s, Some err)
            | None \<Rightarrow>
                (case shouldProcessInbound env accept frame s of
                   (s', Inl err) \<Rightarrow> (s', Some err)
                 | (s', Inr ok) \<Rightarrow> (s', None))))"

definition parseInbound :: "('p, 'm) tsslib \<Rightarrow> ('d, 'p) exec \<Rightarrow> Frame \<Rightarrow> 'm result" where
  "parseInbound lib e frame =
     (case ex_partyIDs e (fr_FromParty frame) of
        None \<Rightarrow> Inl (errorf ErrUnknownSenderParty [])
      | Some from \<Rightarrow>
          (case tl_ParseWireMessage lib (fr_Payload frame) from (IsBroadcast frame) of
             Inl err \<Rightarrow> if is_panic err then Inl err else Inl (Wrap ''parse tss message'' err)
           | Inr m \<Rightarrow> Inr m))"

definition applyInbound :: "('p, 'm) tsslib \<Rightarrow> 'm \<Rightarrow> ('d, 'p) exec \<Rightarrow> ('d, 'p) exec \<times> error option" where
  "applyInbound lib m e =
     (case tl_Update lib (ex_party e) m of
        (p, None) \<Rightarrow> (e\<lparr>ex_party := p\<rparr>, None)
      | (p, Some err) \<Rightarrow>
          (e\<lparr>ex_party := p\<rparr>, Some (if is_panic err then err else Wrap ''update tss state'' err)))"

definition handleIncoming ::
  "'t env \<Rightarrow> 'd accept_fun \<Rightarrow> ('p, 'm) tsslib \<Rightarrow> Frame \<Rightarrow> ('d, 'p) exec \<times> 't
   \<Rightarrow> (('d, 'p) exec \<times> 't) \<times> error option" where
  "handleIncoming env accept lib frame s =
     (case validateInbound env accept frame s of
        (s', Some err) \<Rightarrow>
          if errors_Is err IoEOF \<or> errors_Is err ErrDuplicateFrame then (s', None) else (s', Some err)
      | ((e, t), None) \<Rightarrow>
          (case parseInbound lib e frame of
             Inl err \<Rightarrow> ((e, t), Some err)
           | Inr m \<Rightarrow> (case applyInbound lib m e of (e', r) \<Rightarrow> ((e', t), r))))"

section \<open>Events and completion\<close>

definition handleRecvError :: "('d, 'p) exec \<Rightarrow> error option \<Rightarrow> ('d, 'p) exec \<times> string \<times> error option" where
  "handleRecvError e err =
     (case err of
        None \<Rightarrow> (e, ''failed'', Some (errors_New ''recv loop stopped before protocol end''))
      | Some er \<Rightarrow>
          if errors_Is er ContextCanceled then
            (if ex_protocolDoneFlag e then (e, ''success'', None)
             else (e, ''canceled'', Some (Sentinel ContextCanceled)))
          else if errors_Is er ErrQueueFull then (observe (QueueFull (ex_stage e)) e, ''failed'', Some er)
          else if errors_Is er ErrFrameTooLarge then (observe (OversizedFrames (ex_stage e)) e, ''failed'', Some er)
          else if errors_Is er IoEOF then (e, ''failed'', Some (Wrap ''recv loop EOF before protocol end'' er))
          else (e, ''failed'', Some er))"

text \<open>Not done, or done with a terminal state and an error.\<close>

definition handleEvent ::
  "'t env \<Rightarrow> 'd accept_fun \<Rightarrow> ('p, 'm) tsslib \<Rightarrow> error option \<Rightarrow> protocolEvent \<Rightarrow> ('d, 'p) exec \<times> 't
   \<Rightarrow> (('d, 'p) exec \<times> 't) \<times> (string \<times> error option) option" where
  "handleEvent env accept lib ctxErr ev s =
     (case ev of
        eventInboundFrame frame \<Rightarrow>
          (case s of (e, t) \<Rightarrow>
             let e = observe (FramesRecv (ex_stage e)) (e\<lparr>ex_stats := IncRecv (ex_stats e)\<rparr>);
                 s1 = markProgress env (fr_MessageType frame) (fr_RoundHint frame)
                        (e\<lparr>ex_lastRecvSeq := fr_Seq frame\<rparr>, t)
             in case handleIncoming env accept lib frame s1 of
                  (s2, Some err) \<Rightarrow> (s2, Some (''failed'', Some err))
                | (s2, None) \<Rightarrow> (markProgress env (fr_MessageType frame) (fr_RoundHint frame) s2, None))
      | eventRecvError err \<Rightarrow>
          (case s of (e, t) \<Rightarrow> case handleRecvError e err of (e', st, er) \<Rightarrow> ((e', t), Some (st, er)))
      | eventProtocolDone result \<Rightarrow>
          (case s of (e, t) \<Rightarrow>
             case ctxErr of
               Some err \<Rightarrow> ((e, t), Some (''canceled'', Some err))
             | None \<Rightarrow>
                 ((e\<lparr>ex_ecdsaKeyShare := pr_ecdsaKeyShare result, ex_signature := pr_signature result,
                     ex_protocolDoneFlag := True\<rparr>, t), Some (''success'', None))))"

definition handleGroupResult :: "('d, 'p) exec \<Rightarrow> error option \<Rightarrow> string \<times> error option" where
  "handleGroupResult e groupErr =
     (case groupErr of
        None \<Rightarrow> if ex_protocolDoneFlag e then (''success'', None)
                else (''failed'', Some (Sentinel IoErrUnexpectedEOF))
      | Some err \<Rightarrow>
          if errors_Is err ContextCanceled then
            (if ex_protocolDoneFlag e then (''success'', None)
             else (''canceled'', Some (Sentinel ContextCanceled)))
          else if errors_Is err ErrStalledProtocol then (''stalled'', Some err)
          else (''failed'', Some err))"

definition finishTerminalEvent ::
  "('d, 'p) exec \<Rightarrow> string \<Rightarrow> error option \<Rightarrow> error option \<Rightarrow> ('d, 'p) exec \<times> string \<times> error option" where
  "finishTerminalEvent e state eventErr groupErr =
     (if state \<noteq> ''success'' \<or> eventErr \<noteq> None \<or> groupErr = None then (e, state, eventErr)
      else
        let e = e\<lparr>ex_ecdsaKeyShare := None, ex_signature := None, ex_protocolDoneFlag := False\<rparr>
        in case handleGroupResult e groupErr of (st, err) \<Rightarrow> (e, st, err))"

section \<open>The main loop\<close>

text \<open>
  What the \<^verbatim>\<open>select\<close> of \<^verbatim>\<open>Run\<close> meets: the context is done with its error; an event, with the context's
  error at that moment and the error the worker group ends with should the event stop the session;
  the end of the workers, with the group's error.
\<close>

datatype occurrence =
    OccCtxDone error
  | OccEvent protocolEvent "error option" "error option"
  | OccWorkersDone "error option"

text \<open>A panic inside the loop is stopped by the deferred \<^verbatim>\<open>recover\<close>.\<close>

fun runLoop ::
  "'t env \<Rightarrow> 'd accept_fun \<Rightarrow> ('p, 'm) tsslib \<Rightarrow> ('d, 'p) exec \<times> 't \<Rightarrow> occurrence list
   \<Rightarrow> (('d, 'p) exec \<times> string \<times> error option) option" where
  "runLoop env accept lib s [] = None"
| "runLoop env accept lib s (OccCtxDone err # os) = Some (fst s, ''canceled'', Some err)"
| "runLoop env accept lib s (OccWorkersDone groupErr # os) =
     (case handleGroupResult (fst s) groupErr of (st, err) \<Rightarrow> Some (fst s, st, err))"
| "runLoop env accept lib s (OccEvent ev ctxErr groupErr # os) =
     (case handleEvent env accept lib ctxErr ev s of
        (s', None) \<Rightarrow> runLoop env accept lib s' os
      | (s', Some (st, err)) \<Rightarrow>
          if (case err of Some er \<Rightarrow> is_panic er | None \<Rightarrow> False)
          then Some (fst s', ''panic'', Some (errors_New ''tss protocol loop panic''))
          else Some (finishTerminalEvent (fst s') st err groupErr))"

definition Run ::
  "'t env \<Rightarrow> 'd accept_fun \<Rightarrow> ('p, 'm) tsslib \<Rightarrow> ('d, 'p) exec \<times> 't \<Rightarrow> occurrence list
   \<Rightarrow> (('d, 'p) exec \<times> string \<times> error option) option" where
  "Run env accept lib s os = runLoop env accept lib (markProgress env ''start'' 0 s) os"

section \<open>Outbound\<close>

definition newOutboundBaseFrame ::
  "'t env \<Rightarrow> outMessage \<Rightarrow> bytes \<Rightarrow> u32 \<Rightarrow> ('d, 'p) exec \<times> 't \<Rightarrow> (('d, 'p) exec \<times> 't) \<times> Frame" where
  "newOutboundBaseFrame env msg payload roundHint s =
     (case s of (e, t) \<Rightarrow>
        case en_Rand env t of (t', b) \<Rightarrow>
        case en_Now env t' of (t'', now) \<Rightarrow>
          let e = e\<lparr>ex_seq := ex_seq e + 1\<rparr> in
          ((e, t''),
           \<lparr>fr_SessionID = ex_sessionID e, fr_Stage = ex_stage e, fr_OrgID = [], fr_MessageID = idgen_New ''msg'' b,
            fr_Seq = ex_seq e, fr_Round = 0, fr_RoundHint = roundHint, fr_Broadcast = om_IsBroadcast msg,
            fr_Protocol = ex_algorithm e, fr_MessageType = om_Type msg, fr_PayloadHash = shortHash payload,
            fr_DerivationContextHash = ex_derivationContextHash e, fr_FromParty = om_From msg, fr_ToParty = [],
            fr_Payload = payload, fr_CorrelationID = ex_correlationID e, fr_SentAt = now\<rparr>))"

definition sendFrame ::
  "'t env \<Rightarrow> Frame \<Rightarrow> ('d, 'p) exec \<times> 't \<Rightarrow> (('d, 'p) exec \<times> 't) \<times> error option" where
  "sendFrame env frame s =
     (case s of (e, t) \<Rightarrow>
        case en_CtxErr env t of
          Some err \<Rightarrow> ((e, t), Some err)
        | None \<Rightarrow>
            (case en_SendFrame env t frame of
               (t', Some err) \<Rightarrow> ((e, t'), Some err)
             | (t', None) \<Rightarrow>
                 (markProgress env (fr_MessageType frame) (fr_RoundHint frame)
                    ((observe (FramesSent (ex_stage e)) (e\<lparr>ex_stats := IncSent (ex_stats e)\<rparr>))
                       \<lparr>ex_lastSentSeq := fr_Seq frame\<rparr>, t'),
                  None)))"

fun sendTo ::
  "'t env \<Rightarrow> Frame \<Rightarrow> string list \<Rightarrow> ('d, 'p) exec \<times> 't \<Rightarrow> (('d, 'p) exec \<times> 't) \<times> error option" where
  "sendTo env base [] s = (s, None)"
| "sendTo env base (to # tos) s =
     (case sendFrame env (base\<lparr>fr_ToParty := to\<rparr>) s of
        (s', Some err) \<Rightarrow> (s', Some err)
      | (s', None) \<Rightarrow> sendTo env base tos s')"

definition forwardOutgoing ::
  "'t env \<Rightarrow> outMessage \<Rightarrow> ('d, 'p) exec \<times> 't \<Rightarrow> (('d, 'p) exec \<times> 't) \<times> error option" where
  "forwardOutgoing env msg s =
     (case en_CtxErr env (snd s) of
        Some err \<Rightarrow> (s, Some err)
      | None \<Rightarrow>
          (case om_WireBytes msg of
             Inl err \<Rightarrow> (s, Some (Wrap ''encode tss message'' err))
           | Inr payload \<Rightarrow>
               if int (length payload) > rc_MaxFrameBytes (ex_cfg (fst s))
               then ((observe (OversizedFrames (ex_stage (fst s))) (fst s), snd s),
                     Some (errorf ErrFrameTooLarge []))
               else (case newOutboundBaseFrame env msg payload (inferRoundHint (om_Type msg)) s of
                       (s', base) \<Rightarrow>
                         if om_IsBroadcast msg \<or> om_To msg = [] then sendFrame env base s'
                         else sendTo env base (om_To msg) s')))"

section \<open>Watchdog\<close>

text \<open>
  One tick.  \<^verbatim>\<open>time.Unix(0, n).IsZero()\<close> compares with the first of January of the year 1, which is
  \<open>zeroTimeNanos\<close> nanoseconds from the epoch.
\<close>

definition zeroTimeNanos :: int where
  "zeroTimeNanos = - 62135596800000000000"

definition watchdogTick :: "int \<Rightarrow> ('d, 'p) exec \<Rightarrow> ('d, 'p) exec \<times> error option" where
  "watchdogTick now e =
     (if ex_lastProgressNanos e = zeroTimeNanos then (e, None)
      else
        let idle = now - ex_lastProgressNanos e;
            e = (if idle \<ge> rc_StallWarn (ex_cfg e)
                    \<and> (ex_lastWarnNanos e = zeroTimeNanos
                       \<or> now - ex_lastWarnNanos e \<ge> rc_StallWarnEvery (ex_cfg e))
                 then e\<lparr>ex_lastWarnNanos := now\<rparr> else e)
        in if idle \<ge> rc_StallFail (ex_cfg e)
           then (observe (Stalls (ex_stage e)) e, Some (errorf ErrStalledProtocol ''idle''))
           else (e, None))"

section \<open>What handlers leave alone\<close>

lemmas handler_defs = markProgress_def observe_def IncRecv_def IncSent_def IncDedupDrop_def Let_def

definition outcome :: "('d, 'p) exec \<Rightarrow> bool \<times> LocalPartySaveData option \<times> SignatureData option" where
  "outcome e = (ex_protocolDoneFlag e, ex_ecdsaKeyShare e, ex_signature e)"

definition identity :: "('d, 'p) exec \<Rightarrow> string \<times> string \<times> string \<times> RunnerConfig \<times> (string \<Rightarrow> PartyID option)" where
  "identity e = (ex_sessionID e, ex_stage e, ex_derivationContextHash e, ex_cfg e, ex_partyIDs e)"

lemma markProgress_keeps [simp]:
  "outcome (fst (markProgress env m r s)) = outcome (fst s)"
  "identity (fst (markProgress env m r s)) = identity (fst s)"
  "ex_party (fst (markProgress env m r s)) = ex_party (fst s)"
  "ex_deduper (fst (markProgress env m r s)) = ex_deduper (fst s)"
  "ex_seq (fst (markProgress env m r s)) = ex_seq (fst s)"
  "ex_stats (fst (markProgress env m r s)) = ex_stats (fst s)"
  "ex_metrics (fst (markProgress env m r s)) = ex_metrics (fst s)"
  by (simp_all add: markProgress_def outcome_def identity_def Let_def split: prod.splits)

lemma shouldProcessInbound_keeps:
  assumes "shouldProcessInbound env accept f s = (s', r)"
  shows "outcome (fst s') = outcome (fst s)" "identity (fst s') = identity (fst s)"
    "ex_party (fst s') = ex_party (fst s)"
  using assms
  by (auto simp: shouldProcessInbound_def handler_defs outcome_def identity_def
      split: prod.splits sum.splits if_splits)

lemma validateInbound_keeps:
  assumes "validateInbound env accept f s = (s', r)"
  shows "outcome (fst s') = outcome (fst s)" "identity (fst s') = identity (fst s)"
    "ex_party (fst s') = ex_party (fst s)"
  using assms shouldProcessInbound_keeps [of env accept f s]
  by (auto simp: validateInbound_def split: if_splits option.splits prod.splits sum.splits)

lemma applyInbound_keeps:
  assumes "applyInbound lib m e = (e', r)"
  shows "outcome e' = outcome e" "identity e' = identity e" "ex_deduper e' = ex_deduper e"
    "ex_party e' = fst (tl_Update lib (ex_party e) m)"
  using assms
  by (auto simp: applyInbound_def outcome_def identity_def split: prod.splits option.splits)

lemma handleIncoming_keeps:
  assumes "handleIncoming env accept lib f s = (s', r)"
  shows "outcome (fst s') = outcome (fst s)" "identity (fst s') = identity (fst s)"
proof -
  obtain s1 v where v: "validateInbound env accept f s = (s1, v)" by fastforce
  note k = validateInbound_keeps [OF v]
  show "outcome (fst s') = outcome (fst s)"
    using assms v k applyInbound_keeps(1)
    by (fastforce simp: handleIncoming_def split: option.splits if_splits prod.splits sum.splits)
  show "identity (fst s') = identity (fst s)"
    using assms v k applyInbound_keeps(2)
    by (fastforce simp: handleIncoming_def split: option.splits if_splits prod.splits sum.splits)
qed

section \<open>The inbound gate\<close>

text \<open>What a frame must satisfy before the party sees it.\<close>

definition admissible :: "('d, 'p) exec \<Rightarrow> Frame \<Rightarrow> bool" where
  "admissible e f \<longleftrightarrow> fr_SessionID f = ex_sessionID e
     \<and> (ex_stage e = ''sign'' \<longrightarrow>
          ex_derivationContextHash e \<noteq> [] \<and> fr_DerivationContextHash f = ex_derivationContextHash e)"

lemma admissible_iff: "admissible e f \<longleftrightarrow>
  fr_SessionID f = ex_sessionID e \<and> validateDerivationContextHash e f = None"
  by (auto simp: admissible_def validateDerivationContextHash_def)

context inbound_deduper
begin

lemma validate_passes:
  assumes "validateInbound env accept f s = (s', None)"
  shows "admissible (fst s) f" "frameDedupKey f \<in> keys (ex_deduper (fst s'))"
proof -
  obtain s1 b where b: "shouldProcessInbound env accept f s = (s1, Inr b)" "s' = s1"
      "fr_SessionID f = ex_sessionID (fst s)" "validateDerivationContextHash (fst s) f = None"
    using assms by (auto simp: validateInbound_def split: if_splits option.splits prod.splits sum.splits)
  then show "admissible (fst s) f" by (simp add: admissible_iff)
  obtain e t where s: "s = (e, t)" by fastforce
  obtain t' now where n: "en_Now env t = (t', now)" by fastforce
  obtain d r where a: "accept now (ex_deduper e) f = (d, r)" by fastforce
  have "r = Inr b \<and> ex_deduper (fst s1) = d"
    using b(1) s n a by (auto simp: shouldProcessInbound_def Let_def observe_def split: sum.splits if_splits)
  with accept_true a b(2) show "frameDedupKey f \<in> keys (ex_deduper (fst s'))" by blast
qed

lemma gate:
  assumes "handleIncoming env accept lib f s = (s', r)"
  shows "ex_party (fst s') = ex_party (fst s) \<or>
    (admissible (fst s) f \<and> frameDedupKey f \<in> keys (ex_deduper (fst s'))
     \<and> (\<exists>from m. ex_partyIDs (fst s) (fr_FromParty f) = Some from
          \<and> tl_ParseWireMessage lib (fr_Payload f) from (IsBroadcast f) = Inr m
          \<and> ex_party (fst s') = fst (tl_Update lib (ex_party (fst s)) m)))"
proof -
  obtain e t v where v: "validateInbound env accept f s = ((e, t), v)" by (metis prod.collapse)
  note k = validateInbound_keeps [OF v]
  show ?thesis
  proof (cases v)
    case (Some err)
    then have "s' = (e, t)" using assms v by (auto simp: handleIncoming_def split: if_splits)
    with k(3) show ?thesis by simp
  next
    case None
    note p = validate_passes [OF v [unfolded None]]
    show ?thesis
    proof (cases "parseInbound lib e f")
      case (Inl err)
      then have "s' = (e, t)" using assms v None by (auto simp: handleIncoming_def)
      with k(3) show ?thesis by simp
    next
      case (Inr m)
      obtain e' r' where a: "applyInbound lib m e = (e', r')" by fastforce
      have s': "s' = (e', t)" using assms v None Inr a by (auto simp: handleIncoming_def)
      have "ex_partyIDs e = ex_partyIDs (fst s)" using k(2) by (simp add: identity_def)
      then obtain pid where f: "ex_partyIDs (fst s) (fr_FromParty f) = Some pid"
          "tl_ParseWireMessage lib (fr_Payload f) pid (IsBroadcast f) = Inr m"
        using Inr by (auto simp: parseInbound_def split: option.splits sum.splits if_splits)
      have "frameDedupKey f \<in> keys (ex_deduper e')" using p(2) applyInbound_keeps(3) [OF a] by simp
      then show ?thesis
        using f p(1) s' applyInbound_keeps(4) [OF a] k(3) by auto
    qed
  qed
qed

end

lemma gate_bound:
  assumes "handleIncoming env (ShouldAccept iter) lib f s = (s', r)" "ex_party (fst s') \<noteq> ex_party (fst s)"
  shows "int (length (fr_Payload f)) \<le> dd_maxFrameSize (ex_deduper (fst s))"
proof (rule ccontr)
  assume l: "\<not> ?thesis"
  then have "\<exists>err s1. validateInbound env (ShouldAccept iter) f s = (s1, Some err)"
    by (auto simp: validateInbound_def shouldProcessInbound_def ShouldAccept_def isDuplicateErr_def Let_def
        split: prod.splits option.splits)
  then obtain err s1 where "validateInbound env (ShouldAccept iter) f s = (s1, Some err)" by blast
  with assms validateInbound_keeps(3) [OF this] show False
    by (auto simp: handleIncoming_def split: if_splits)
qed

section \<open>Completion\<close>

lemma handleEvent_continue:
  assumes "handleEvent env accept lib ctxErr ev s = (s', None)"
  shows "outcome (fst s') = outcome (fst s)"
proof -
  obtain f where ev: "ev = eventInboundFrame f"
    using assms by (cases ev) (auto simp: handleEvent_def split: prod.splits option.splits)
  obtain e t where s: "s = (e, t)" by fastforce
  let ?e = "(observe (FramesRecv (ex_stage e)) (e\<lparr>ex_stats := IncRecv (ex_stats e)\<rparr>))\<lparr>ex_lastRecvSeq := fr_Seq f\<rparr>"
  let ?s1 = "markProgress env (fr_MessageType f) (fr_RoundHint f) (?e, t)"
  obtain s2 r where h: "handleIncoming env accept lib f ?s1 = (s2, r)" by fastforce
  have "r = None" "s' = markProgress env (fr_MessageType f) (fr_RoundHint f) s2"
    using assms h by (auto simp: handleEvent_def ev s Let_def split: option.splits)
  then have "outcome (fst s') = outcome (fst ?s1)" using handleIncoming_keeps(1) [OF h] by simp
  also have "\<dots> = outcome e" by (simp add: outcome_def [of ?e] observe_def) (simp add: outcome_def)
  finally show ?thesis by (simp add: s)
qed

lemma handleEvent_stop:
  assumes "handleEvent env accept lib ctxErr ev s = (s', Some (st, err))" "\<not> ex_protocolDoneFlag (fst s)"
  obtains (success) result where "ev = eventProtocolDone result" "ctxErr = None" "st = ''success''" "err = None"
      "outcome (fst s') = (True, pr_ecdsaKeyShare result, pr_signature result)"
    | (failure) er where "err = Some er" "st \<noteq> ''success''" "outcome (fst s') = outcome (fst s)"
proof (cases ev)
  case (eventInboundFrame f)
  obtain e t where s: "s = (e, t)" by fastforce
  let ?e = "(observe (FramesRecv (ex_stage e)) (e\<lparr>ex_stats := IncRecv (ex_stats e)\<rparr>))\<lparr>ex_lastRecvSeq := fr_Seq f\<rparr>"
  let ?s1 = "markProgress env (fr_MessageType f) (fr_RoundHint f) (?e, t)"
  obtain s2 r where h: "handleIncoming env accept lib f ?s1 = (s2, r)" by fastforce
  then have r: "\<exists>er. r = Some er \<and> err = Some er" "s' = s2" "st = ''failed''"
    using assms(1) by (auto simp: handleEvent_def eventInboundFrame s Let_def split: option.splits)
  have "outcome (fst ?s1) = outcome e" by (simp add: outcome_def [of ?e] observe_def) (simp add: outcome_def)
  with r handleIncoming_keeps(1) [OF h] show thesis by (auto intro: failure simp: s)
next
  case (eventRecvError er)
  then show thesis
    using assms failure
    by (auto simp: handleEvent_def handleRecvError_def observe_def outcome_def
        split: prod.splits option.splits if_splits)
next
  case (eventProtocolDone result)
  then show thesis
    using assms failure success
    by (cases ctxErr) (auto simp: handleEvent_def outcome_def split: prod.splits)
qed

definition completes :: "occurrence \<Rightarrow> protocolResult \<Rightarrow> bool" where
  "completes o' result \<longleftrightarrow> o' = OccEvent (eventProtocolDone result) None None"

lemma runLoop_result:
  assumes "runLoop env accept lib s occ = Some (e', st, err)" "outcome (fst s) = (False, None, None)"
  shows "if err = None
    then st = ''success'' \<and> (\<exists>result\<in>{r. \<exists>x\<in>set occ. completes x r}.
           outcome e' = (True, pr_ecdsaKeyShare result, pr_signature result))
    else st \<noteq> ''success'' \<and> outcome e' = (False, None, None)"
  using assms
proof (induction env accept lib s occ rule: runLoop.induct)
  case (3 env accept lib s groupErr occ)
  then show ?case
    by (auto simp: handleGroupResult_def outcome_def split: option.splits if_splits)
next
  case (4 env accept lib s ev ctxErr groupErr occ)
  obtain s1 r where h: "handleEvent env accept lib ctxErr ev s = (s1, r)" by fastforce
  show ?case
  proof (cases r)
    case None
    have o1: "outcome (fst s1) = (False, None, None)"
      using handleEvent_continue [OF h [unfolded None]] "4.prems"(2) by simp
    have "runLoop env accept lib s1 occ = Some (e', st, err)" using "4.prems"(1) h None by simp
    from "4.IH" [OF h [symmetric] None this o1] show ?thesis by (auto split: if_splits)
  next
    case (Some x)
    obtain st1 err1 where x: "x = (st1, err1)" by fastforce
    have flag: "\<not> ex_protocolDoneFlag (fst s)" using "4.prems"(2) by (simp add: outcome_def)
    from h Some x have hs: "handleEvent env accept lib ctxErr ev s = (s1, Some (st1, err1))" by simp
    from hs flag show ?thesis
    proof (cases rule: handleEvent_stop)
      case (success result)
      show ?thesis
      proof (cases groupErr)
        case None
        with success "4.prems"(1) hs have "e' = fst s1" "st = ''success''" "err = None"
          by (simp_all add: finishTerminalEvent_def)
        with success None show ?thesis by (auto simp: completes_def)
      next
        case (Some g)
        with success "4.prems"(1) hs show ?thesis
          by (auto simp: finishTerminalEvent_def handleGroupResult_def outcome_def Let_def split: if_splits)
      qed
    next
      case (failure er)
      with "4.prems" hs show ?thesis
        by (auto simp: finishTerminalEvent_def errors_New_def split: if_splits)
    qed
  qed
qed (auto simp: outcome_def)

section \<open>Outbound\<close>

fun sendList ::
  "'t env \<Rightarrow> Frame list \<Rightarrow> ('d, 'p) exec \<times> 't \<Rightarrow> (('d, 'p) exec \<times> 't) \<times> error option" where
  "sendList env [] s = (s, None)"
| "sendList env (f # fs) s =
     (case sendFrame env f s of (s', Some err) \<Rightarrow> (s', Some err) | (s', None) \<Rightarrow> sendList env fs s')"

lemma sendTo_sendList: "sendTo env base tos s = sendList env (map (\<lambda>to. base\<lparr>fr_ToParty := to\<rparr>) tos) s"
  by (induction tos arbitrary: s) (auto split: prod.splits option.splits)

lemma sendFrame_sendList: "sendFrame env f s = sendList env [f] s"
  by (auto split: prod.splits option.splits)

lemma sendFrame_counts:
  assumes "sendFrame env f s = (s', r)"
  shows "st_sentFrames (ex_stats (fst s')) = st_sentFrames (ex_stats (fst s)) + (if r = None then 1 else 0)"
    "ex_metrics (fst s') = ex_metrics (fst s) @ (if r = None then [FramesSent (ex_stage (fst s))] else [])"
    "ex_seq (fst s') = ex_seq (fst s)" "ex_stage (fst s') = ex_stage (fst s)"
  using assms
  by (auto simp: sendFrame_def handler_defs split: prod.splits option.splits)

lemma sendList_counts:
  assumes "sendList env fs s = (s', r)"
  shows "\<exists>k\<le>length fs. (r = None \<longrightarrow> k = length fs)
    \<and> st_sentFrames (ex_stats (fst s')) = st_sentFrames (ex_stats (fst s)) + of_nat k
    \<and> ex_metrics (fst s') = ex_metrics (fst s) @ replicate k (FramesSent (ex_stage (fst s)))
    \<and> ex_seq (fst s') = ex_seq (fst s)"
  using assms
proof (induction fs arbitrary: s)
  case Nil
  then show ?case by simp
next
  case (Cons f fs)
  obtain s1 r1 where f: "sendFrame env f s = (s1, r1)" by fastforce
  note c = sendFrame_counts [OF f]
  show ?case
  proof (cases r1)
    case None
    then have "sendList env fs s1 = (s', r)" using Cons.prems f by simp
    from Cons.IH [OF this] obtain k where "k \<le> length fs" "r = None \<longrightarrow> k = length fs"
      "st_sentFrames (ex_stats (fst s')) = st_sentFrames (ex_stats (fst s1)) + of_nat k"
      "ex_metrics (fst s') = ex_metrics (fst s1) @ replicate k (FramesSent (ex_stage (fst s1)))"
      "ex_seq (fst s') = ex_seq (fst s1)" by blast
    with c None show ?thesis by (intro exI [of _ "Suc k"]) (simp add: replicate_append_same [symmetric])
  next
    case (Some err)
    then have "s' = s1" "r = Some err" using Cons.prems f by simp_all
    with c Some show ?thesis by (intro exI [of _ 0]) simp
  qed
qed

text \<open>The frames of one message: one for everybody, or one per addressee.\<close>

definition message_frames :: "outMessage \<Rightarrow> Frame \<Rightarrow> Frame list" where
  "message_frames msg base =
     (if om_IsBroadcast msg \<or> om_To msg = [] then [base]
      else map (\<lambda>to. base\<lparr>fr_ToParty := to\<rparr>) (om_To msg))"

definition base_frame_of :: "('d, 'p) exec \<Rightarrow> outMessage \<Rightarrow> bytes \<Rightarrow> Frame \<Rightarrow> bool" where
  "base_frame_of e msg payload base \<longleftrightarrow>
     fr_SessionID base = ex_sessionID e \<and> fr_Stage base = ex_stage e \<and> fr_Seq base = ex_seq e + 1
     \<and> fr_Payload base = payload \<and> fr_PayloadHash base = shortHash payload
     \<and> fr_DerivationContextHash base = ex_derivationContextHash e \<and> fr_FromParty base = om_From msg
     \<and> fr_ToParty base = [] \<and> fr_Broadcast base = om_IsBroadcast msg \<and> fr_MessageType base = om_Type msg
     \<and> fr_RoundHint base = inferRoundHint (om_Type msg)"

lemma forwardOutgoing_sends:
  assumes "en_CtxErr env t = None" "om_WireBytes msg = Inr payload"
    "int (length payload) \<le> rc_MaxFrameBytes (ex_cfg e)"
  obtains base e1 t1 where "forwardOutgoing env msg (e, t) = sendList env (message_frames msg base) (e1, t1)"
    "base_frame_of e msg payload base" "e1 = e\<lparr>ex_seq := ex_seq e + 1\<rparr>"
proof -
  obtain t' b where r: "en_Rand env t = (t', b)" by fastforce
  obtain t'' now where n: "en_Now env t' = (t'', now)" by fastforce
  let ?r = "newOutboundBaseFrame env msg payload (inferRoundHint (om_Type msg)) (e, t)"
  have b: "?r = ((fst (fst ?r), t''), snd ?r)" "base_frame_of e msg payload (snd ?r)"
      "fst (fst ?r) = e\<lparr>ex_seq := ex_seq e + 1\<rparr>"
    by (simp_all add: newOutboundBaseFrame_def r n base_frame_of_def Let_def)
  have f: "forwardOutgoing env msg (e, t) = (case ?r of (s', base) \<Rightarrow>
       if om_IsBroadcast msg \<or> om_To msg = [] then sendFrame env base s' else sendTo env base (om_To msg) s')"
    using assms by (simp add: forwardOutgoing_def)
  have "forwardOutgoing env msg (e, t) = sendList env (message_frames msg (snd ?r)) (fst (fst ?r), t'')"
    unfolding f by (subst b(1)) (simp only: prod.case message_frames_def sendTo_sendList sendFrame_sendList split: if_split, simp)
  with b(2,3) that show thesis by blast
qed

section \<open>Properties\<close>

text \<open>
  The inbound gate.  Whatever frame arrives, the state of the tss-lib party changes only if the
  frame names this session, carries (when signing) the non-empty derivation-context hash of the
  session, is within the size limit, passed the replay filter, comes from a known party and parses;
  and then it changes by exactly that one update.
\<close>

theorem inbound_gate:
  assumes "handleIncoming env (ShouldAccept iter) lib f (e, t) = ((e', t'), r)"
  shows "ex_party e' = ex_party e \<or>
    (fr_SessionID f = ex_sessionID e
     \<and> (ex_stage e = ''sign'' \<longrightarrow>
          ex_derivationContextHash e \<noteq> [] \<and> fr_DerivationContextHash f = ex_derivationContextHash e)
     \<and> int (length (fr_Payload f)) \<le> dd_maxFrameSize (ex_deduper e)
     \<and> frameDedupKey f \<in> seen_keys (ex_deduper e')
     \<and> (\<exists>from m. ex_partyIDs e (fr_FromParty f) = Some from
          \<and> tl_ParseWireMessage lib (fr_Payload f) from (IsBroadcast f) = Inr m
          \<and> ex_party e' = fst (tl_Update lib (ex_party e) m)))"
  using ttl.gate [OF assms] gate_bound [OF assms] by (auto simp: admissible_def)

text \<open>A concrete session: the party counts its updates, the clock stands still, sends are recorded.\<close>

definition sample_env :: "Frame list env" where
  "sample_env = \<lparr>en_Now = (\<lambda>t. (t, 7)), en_CtxErr = (\<lambda>t. None), en_SendFrame = (\<lambda>t f. (t @ [f], None)),
     en_Rand = (\<lambda>t. (t, replicate 8 CHR 0x00))\<rparr>"

definition sample_lib :: "(nat, bytes) tsslib" where
  "sample_lib = \<lparr>tl_ParseWireMessage = (\<lambda>p from b. Inr p), tl_Update = (\<lambda>p m. (Suc p, None))\<rparr>"

definition sample_cfg :: RunnerConfig where
  "sample_cfg = \<lparr>rc_StallWarn = 30, rc_StallFail = 120, rc_StallWarnEvery = 30, rc_WatchdogTick = 5,
     rc_MaxFrameBytes = 100, rc_InboundQueueCap = 16, rc_DedupTTL = 600, rc_DedupMaxEntries = 1000\<rparr>"

definition sample_params :: "nat Params" where
  "sample_params = \<lparr>pa_SessionID = ''s'', pa_LocalPartyID = ''B'', pa_CorrelationID = [], pa_Stage = ''sign'',
     pa_Algorithm = ''ecdsa'', pa_DerivationContextHash = ''c'', pa_Party = 0,
     pa_PartyIDs = [''A'' \<mapsto> \<lparr>pid_Id = ''A'', pid_Moniker = ''A'', pid_Key = 1\<rparr>], pa_Config = sample_cfg\<rparr>"

lemmas sample_session = sample_env_def sample_lib_def sample_cfg_def sample_params_def New_def

lemma sample_incoming:
  "\<exists>e' t'. handleIncoming sample_env (ShouldAccept id) sample_lib (sample_frame 1) (New sample_params, [])
     = ((e', t'), None) \<and> ex_party e' = 1"
proof -
  have k: "frameDedupKey (sample_frame 1) \<noteq> []" by simp
  show ?thesis
    by (simp add: handleIncoming_def validateInbound_def validateDerivationContextHash_def
        shouldProcessInbound_def ShouldAccept_def pruneExpired_def evictOldest_def newTTLFrameDeduper_def
        parseInbound_def applyInbound_def sample_session dedupPruneEvery_def)
       (simp add: sample_frame_def)
qed

theorem inbound_gate_witness:
  "\<exists>e' t'. handleIncoming sample_env (ShouldAccept id) sample_lib (sample_frame 1) (New sample_params, [])
     = ((e', t'), None) \<and> frameDedupKey (sample_frame 1) \<in> seen_keys (ex_deduper e')"
proof -
  obtain e' t' where h: "handleIncoming sample_env (ShouldAccept id) sample_lib (sample_frame 1) (New sample_params, [])
     = ((e', t'), None)" "ex_party e' = 1" using sample_incoming by blast
  have "ex_party (New sample_params) = 0" by (simp add: sample_session)
  then have "ex_party e' \<noteq> ex_party (New sample_params)" using h(2) by simp
  with inbound_gate [OF h(1)] have "frameDedupKey (sample_frame 1) \<in> seen_keys (ex_deduper e')" by blast
  with h(1) show ?thesis by blast
qed

text \<open>
  C9.  Completion.  A session that returns reports success with no error exactly when a
  protocol-done event was handled while the context was live and the workers then stopped cleanly;
  its key share and signature are those of that event.  Every other return carries an error, a
  terminal state other than success, and publishes neither key share nor signature.
\<close>

theorem run_publishes_only_on_success:
  assumes "Run env accept lib (e, t) occ = Some (e', st, err)"
    and "\<not> ex_protocolDoneFlag e" "ex_ecdsaKeyShare e = None" "ex_signature e = None"
  shows "if err = None
    then st = ''success'' \<and> (\<exists>result. OccEvent (eventProtocolDone result) None None \<in> set occ
           \<and> ex_ecdsaKeyShare e' = pr_ecdsaKeyShare result \<and> ex_signature e' = pr_signature result)
    else st \<noteq> ''success'' \<and> ex_ecdsaKeyShare e' = None \<and> ex_signature e' = None \<and> \<not> ex_protocolDoneFlag e'"
proof -
  have "outcome (fst (markProgress env ''start'' 0 (e, t))) = (False, None, None)"
    unfolding markProgress_keeps(1) using assms(2-4) by (simp add: outcome_def)
  from runLoop_result [OF assms(1) [unfolded Run_def] this] show ?thesis
    by (auto simp: outcome_def completes_def split: if_splits)
qed

theorem run_publishes_only_on_success_witness:
  "\<exists>e' st. Run sample_env (ShouldAccept id) sample_lib (New sample_params, [])
     [OccEvent (eventProtocolDone \<lparr>pr_ecdsaKeyShare = None, pr_signature = None\<rparr>) None (Some (Sentinel ErrStalledProtocol))]
     = Some (e', st, Some (Sentinel ErrStalledProtocol)) \<and> st \<noteq> ''success'' \<and> ex_signature e' = None"
proof -
  obtain e' where r: "Run sample_env (ShouldAccept id) sample_lib (New sample_params, [])
     [OccEvent (eventProtocolDone \<lparr>pr_ecdsaKeyShare = None, pr_signature = None\<rparr>) None (Some (Sentinel ErrStalledProtocol))]
     = Some (e', ''stalled'', Some (Sentinel ErrStalledProtocol))"
    by (simp add: Run_def markProgress_def handleEvent_def finishTerminalEvent_def handleGroupResult_def
        sample_env_def)
  have "\<not> ex_protocolDoneFlag (New sample_params)" "ex_ecdsaKeyShare (New sample_params) = None"
    "ex_signature (New sample_params) = None" by (simp_all add: New_def)
  from run_publishes_only_on_success [OF r this] r show ?thesis by simp
qed


definition sample_message :: outMessage where
  "sample_message = \<lparr>om_Type = ''binance.tsslib.ecdsa.signing.SignRound2Message'', om_WireBytes = Inr ''p'',
     om_IsBroadcast = False, om_From = ''B'', om_To = [''A'', ''C'']\<rparr>"


text \<open>
  The watchdog fails a session exactly when the time since the last progress reaches
  \<^verbatim>\<open>StallFail\<close>, with \<^verbatim>\<open>ErrStalledProtocol\<close> and one stall counted; the test of the progress time for the
  zero time never applies to a 64-bit nanosecond count.
\<close>

theorem watchdog_exact:
  assumes "- (2 ^ 63) \<le> ex_lastProgressNanos e"
  shows "(snd (watchdogTick now e) = None \<longleftrightarrow> now - ex_lastProgressNanos e < rc_StallFail (ex_cfg e))
    \<and> (\<forall>err. snd (watchdogTick now e) = Some err \<longrightarrow> errors_Is err ErrStalledProtocol
         \<and> ex_metrics (fst (watchdogTick now e)) = ex_metrics e @ [Stalls (ex_stage e)])"
proof -
  have z: "ex_lastProgressNanos e \<noteq> zeroTimeNanos" using assms by (auto simp: zeroTimeNanos_def)
  show ?thesis by (auto simp: watchdogTick_def z observe_def Let_def)
qed

theorem watchdog_exact_witness:
  "snd (watchdogTick 120 (New sample_params)) \<noteq> None"
proof -
  have l: "ex_lastProgressNanos (New sample_params) = 0" "rc_StallFail (ex_cfg (New sample_params)) = 120"
    by (simp_all add: sample_session)
  then have "- (2 ^ 63) \<le> ex_lastProgressNanos (New sample_params)" by simp
  from watchdog_exact [OF this, of 120] l show ?thesis by simp
qed

end
