(* ===== verification/Recv_Worker.thy ===== *)
theory Recv_Worker
  imports Execution
begin

text \<open>
  The receiving side of a session: the goroutine of \<^verbatim>\<open>RecvLoop\<close> (\<^verbatim>\<open>internal/tssbnb/utils/recv_loop.go\<close>)
  and the worker \<^verbatim>\<open>runRecvWorker\<close> (\<^verbatim>\<open>internal/tssbnb/execution/inbound.go\<close>) run concurrently and share a
  bounded channel of frames, which the loop closes when it ends, and a channel for one error.  One
  iteration of the loop and one \<^verbatim>\<open>select\<close> of the worker are the steps of \<open>recv_step\<close>; where several
  cases of a \<^verbatim>\<open>select\<close> are ready, Go takes any of them, so the relation has a rule for each.  What the
  worker has taken and not yet emitted is in its hand: \<^verbatim>\<open>Emit\<close> waits for room in the event channel or
  gives up when the context is done.

  Shown: the frames emitted as events are, in order, a prefix of those the transport delivered, all
  within the size limit, and the queue never exceeds its capacity.  The error that ended the loop is
  not always reported: the worker may notice the closed channel first and leave silently.
\<close>

section \<open>The code\<close>

record rstate =
  rs_inbound :: "Frame list"
  rs_closed :: bool
  rs_err :: "error option"
  rs_loop :: bool
  rs_worker :: bool
  rs_hand :: "protocolEvent option"
  rs_events :: "protocolEvent list"

definition initRecv :: rstate where
  "initRecv = \<lparr>rs_inbound = [], rs_closed = False, rs_err = None, rs_loop = True, rs_worker = True, rs_hand = None, rs_events = []\<rparr>"

text \<open>The non-blocking send into the error channel, then the return with the deferred close.\<close>

definition stopLoop :: "error \<Rightarrow> rstate \<Rightarrow> rstate" where
  "stopLoop err s =
     s\<lparr>rs_err := (case rs_err s of None \<Rightarrow> Some err | Some e \<Rightarrow> Some e), rs_loop := False, rs_closed := True\<rparr>"

text \<open>One iteration, for what \<^verbatim>\<open>recv\<close> returned; \<open>ctxDone\<close> is the context's error when the \<^verbatim>\<open>select\<close> took that case.\<close>

definition recvLoopIteration :: "int \<Rightarrow> nat \<Rightarrow> Frame result \<Rightarrow> error option \<Rightarrow> rstate \<Rightarrow> rstate" where
  "recvLoopIteration maxFrameBytes cap received ctxDone s =
     (case received of
        Inl err \<Rightarrow> stopLoop err s
      | Inr frame \<Rightarrow>
          if int (length (fr_Payload frame)) > maxFrameBytes then stopLoop (errorf ErrFrameTooLarge []) s
          else (case ctxDone of
                  Some err \<Rightarrow> stopLoop err s
                | None \<Rightarrow>
                    if length (rs_inbound s) < cap then s\<lparr>rs_inbound := rs_inbound s @ [frame]\<rparr>
                    else stopLoop (Sentinel ErrQueueFull) s))"

datatype recv_label =
    Received "Frame result" "error option"
  | WorkerFrame Frame
  | WorkerError error
  | WorkerEmit protocolEvent
  | WorkerClosed
  | WorkerCtxDone

inductive recv_step :: "int \<Rightarrow> nat \<Rightarrow> rstate \<Rightarrow> recv_label \<Rightarrow> rstate \<Rightarrow> bool" for maxFrameBytes cap where
  loop: "rs_loop s \<Longrightarrow>
    recv_step maxFrameBytes cap s (Received r d) (recvLoopIteration maxFrameBytes cap r d s)"
| worker_frame: "rs_worker s \<Longrightarrow> rs_hand s = None \<Longrightarrow> rs_inbound s = f # q \<Longrightarrow>
    recv_step maxFrameBytes cap s (WorkerFrame f) (s\<lparr>rs_inbound := q, rs_hand := Some (eventInboundFrame f)\<rparr>)"
| worker_closed: "rs_worker s \<Longrightarrow> rs_hand s = None \<Longrightarrow> rs_inbound s = [] \<Longrightarrow> rs_closed s \<Longrightarrow>
    recv_step maxFrameBytes cap s WorkerClosed (s\<lparr>rs_worker := False\<rparr>)"
| worker_error: "rs_worker s \<Longrightarrow> rs_hand s = None \<Longrightarrow> rs_err s = Some e \<Longrightarrow>
    recv_step maxFrameBytes cap s (WorkerError e) (s\<lparr>rs_err := None, rs_hand := Some (eventRecvError (Some e))\<rparr>)"
| worker_emit: "rs_worker s \<Longrightarrow> rs_hand s = Some ev \<Longrightarrow>
    recv_step maxFrameBytes cap s (WorkerEmit ev)
      (s\<lparr>rs_hand := None, rs_events := rs_events s @ [ev], rs_worker := (case ev of eventRecvError e \<Rightarrow> False | _ \<Rightarrow> True)\<rparr>)"
| worker_ctx: "rs_worker s \<Longrightarrow>
    recv_step maxFrameBytes cap s WorkerCtxDone (s\<lparr>rs_worker := False\<rparr>)"

inductive_cases recv_stepE: "recv_step maxFrameBytes cap s l t"

section \<open>Invariant\<close>

text \<open>The frames the loop took from the transport, the frames emitted, and a frame in between.\<close>

definition delivered :: "recv_label list \<Rightarrow> Frame list" where
  "delivered ls = concat (map (\<lambda>l. case l of Received (Inr f) d \<Rightarrow> [f] | _ \<Rightarrow> []) ls)"

definition emitted :: "protocolEvent list \<Rightarrow> Frame list" where
  "emitted evs = concat (map (\<lambda>e. case e of eventInboundFrame f \<Rightarrow> [f] | _ \<Rightarrow> []) evs)"

definition in_hand :: "rstate \<Rightarrow> Frame list" where
  "in_hand s = emitted (case rs_hand s of None \<Rightarrow> [] | Some ev \<Rightarrow> [ev])"

definition frames_within :: "int \<Rightarrow> Frame list \<Rightarrow> bool" where
  "frames_within n fs = list_all (\<lambda>f. int (length (fr_Payload f)) \<le> n) fs"

lemma delivered_snoc [simp]:
  "delivered (ls @ [l]) = delivered ls @ (case l of Received (Inr f) d \<Rightarrow> [f] | _ \<Rightarrow> [])"
  by (simp add: delivered_def)

lemma emitted_snoc [simp]:
  "emitted (evs @ [e]) = emitted evs @ (case e of eventInboundFrame f \<Rightarrow> [f] | _ \<Rightarrow> [])"
  by (simp add: emitted_def)

definition recv_inv :: "int \<Rightarrow> nat \<Rightarrow> recv_label list \<Rightarrow> rstate \<Rightarrow> bool" where
  "recv_inv n cap ls s \<longleftrightarrow> length (rs_inbound s) \<le> cap
     \<and> frames_within n (emitted (rs_events s) @ in_hand s @ rs_inbound s)
     \<and> (\<exists>rest. delivered ls = emitted (rs_events s) @ in_hand s @ rs_inbound s @ rest \<and> (rs_loop s \<longrightarrow> rest = []))"

lemma iteration_inv:
  assumes "recv_inv n cap ls s" "rs_loop s"
  shows "recv_inv n cap (ls @ [Received r d]) (recvLoopIteration n cap r d s)"
  using assms
  by (cases r; cases d)
     (auto simp: recv_inv_def recvLoopIteration_def stopLoop_def frames_within_def in_hand_def split: option.splits)

lemma recv_step_inv:
  assumes "recv_inv n cap ls s" "recv_step n cap s l t"
  shows "recv_inv n cap (ls @ [l]) t"
  using assms(2)
proof cases
  case (loop r d)
  then show ?thesis using iteration_inv assms(1) by simp
qed (use assms(1) in \<open>auto simp: recv_inv_def frames_within_def in_hand_def emitted_def split: protocolEvent.splits\<close>)

lemma recv_executes_inv:
  "executes (recv_step n cap) s ls t \<Longrightarrow> s = initRecv \<Longrightarrow> recv_inv n cap ls t"
proof (induction rule: executes.induct)
  case (executes_nil s)
  then show ?case by (simp add: recv_inv_def initRecv_def delivered_def emitted_def frames_within_def in_hand_def)
next
  case (executes_snoc s ls t l u)
  then show ?case using recv_step_inv by blast
qed

section \<open>Properties\<close>

text \<open>
  C31.  In every interleaving of the receive loop and its worker the frames handed to the session are,
  in order and without loss in between or duplication, an initial part of the frames the transport
  delivered, each within the size limit, and the queue between the two never exceeds its capacity.
\<close>

theorem recv_in_order:
  assumes "executes (recv_step n cap) initRecv ls s"
  shows "(\<exists>rest. delivered ls = emitted (rs_events s) @ in_hand s @ rs_inbound s @ rest)
    \<and> frames_within n (emitted (rs_events s)) \<and> length (rs_inbound s) \<le> cap"
  using recv_executes_inv [OF assms refl] by (auto simp: recv_inv_def frames_within_def)

text \<open>
  A run in which the transport fails at once: the error is in the channel when the worker looks, but
  so is the end of the closed frame channel, and the worker takes the latter.
\<close>

definition lost_state :: rstate where
  "lost_state = initRecv\<lparr>rs_err := Some (Sentinel IoEOF), rs_loop := False, rs_closed := True, rs_worker := False\<rparr>"

lemma lost_run: "executes (recv_step n cap) initRecv [Received (Inl (Sentinel IoEOF)) None, WorkerClosed] lost_state"
proof -
  let ?s = "recvLoopIteration n cap (Inl (Sentinel IoEOF)) None initRecv"
  have 1: "recv_step n cap initRecv (Received (Inl (Sentinel IoEOF)) None) ?s"
    by (rule loop) (simp add: initRecv_def)
  have 2: "recv_step n cap ?s WorkerClosed (?s\<lparr>rs_worker := False\<rparr>)"
    by (rule worker_closed) (simp_all add: initRecv_def recvLoopIteration_def stopLoop_def)
  have "?s\<lparr>rs_worker := False\<rparr> = lost_state"
    by (simp add: lost_state_def initRecv_def recvLoopIteration_def stopLoop_def)
  with executes_snoc [OF executes_one [of "recv_step n cap", OF 1] 2] show ?thesis by simp
qed

theorem recv_in_order_witness:
  "\<exists>rest. delivered [Received (Inl (Sentinel IoEOF)) None, WorkerClosed] = emitted (rs_events lost_state) @ in_hand lost_state @ rs_inbound lost_state @ rest"
  using recv_in_order [OF lost_run] by blast

text \<open>
  The error that ends the receive loop can be lost: there is an interleaving in which the loop has
  stopped on a transport error, the worker has returned without an error of its own, and no event was
  ever emitted, so that the session learns nothing until the watchdog fires.
\<close>

theorem recv_error_can_be_lost:
  "\<exists>ls s. executes (recv_step n cap) initRecv ls s \<and> Received (Inl (Sentinel IoEOF)) None \<in> set ls
     \<and> \<not> rs_loop s \<and> \<not> rs_worker s \<and> rs_events s = [] \<and> WorkerCtxDone \<notin> set ls"
  by (intro exI [of _ "[Received (Inl (Sentinel IoEOF)) None, WorkerClosed]"] exI [of _ lost_state])
     (simp add: lost_run, simp add: lost_state_def initRecv_def)

end
