(* ===== verification/Outbound_Pump.thy ===== *)
theory Outbound_Pump
  imports Execution
begin

text \<open>
  The goroutines that end a session (\<^verbatim>\<open>internal/tssbnb/execution\<close>): the outbound pump of \<^verbatim>\<open>outbound.go\<close>,
  the result worker of \<^verbatim>\<open>completion.go\<close> and the runtime they share (\<^verbatim>\<open>runtime.go\<close>).  \<open>pump_step\<close> interleaves
  them with tss-lib, which fills the channels, and with everything else that moves the world \<open>'t\<close> of
  the transport and the contexts.  As in tss-lib, a message is queued before the result it belongs to
  is published, and nothing is queued afterwards.  The event channel has room whenever its reader
  makes it, so that an emission is a step that may be late; \<open>Session_Run\<close> adds the bounded channel.

  Shown: a share or a signature is published only after every message has been handed to the
  transport, in order, unless the session's owner is stopping it; this does not hold for EdDSA
  key generation, whose result the worker publishes past the pump.
\<close>

section \<open>The runtime\<close>

text \<open>\<open>stopping\<close> reads the flag of the runtime in the world.\<close>

definition StopError :: "'t env \<Rightarrow> ('t \<Rightarrow> bool) \<Rightarrow> 't \<Rightarrow> error option" where
  "StopError env stopping t = (if stopping t then None else en_CtxErr env t)"

section \<open>Forwarding one message\<close>

text \<open>The transport wrapper: its flag is the second part of the world.\<close>

definition trackedEnv :: "('t \<Rightarrow> bool) \<Rightarrow> 't env \<Rightarrow> ('t \<times> bool) env" where
  "trackedEnv stopping env =
     \<lparr>en_Now = (\<lambda>(t, c). case en_Now env t of (t', now) \<Rightarrow> ((t', c), now)),
      en_CtxErr = (\<lambda>(t, c). en_CtxErr env t),
      en_SendFrame = (\<lambda>(t, c) frame.
         case en_SendFrame env t frame of
           (t', err) \<Rightarrow>
             ((t', if (case err of Some er \<Rightarrow> errors_Is er ContextCanceled | None \<Rightarrow> False) \<and> \<not> stopping t'
                   then True else c), err)),
      en_Rand = (\<lambda>(t, c). case en_Rand env t of (t', b) \<Rightarrow> ((t', c), b))\<rparr>"

text \<open>The result tells also whether an error of the owner's cancellation was dropped.\<close>

definition forwardProtocolMessage ::
  "'t env \<Rightarrow> ('t \<Rightarrow> bool) \<Rightarrow> outMessage \<Rightarrow> ('d, 'p) exec \<times> 't \<Rightarrow> (('d, 'p) exec \<times> 't) \<times> error option \<times> bool" where
  "forwardProtocolMessage env stopping msg s =
     (case s of (e, t) \<Rightarrow>
      case forwardOutgoing (trackedEnv stopping env) msg (e, (t, False)) of
        ((e, (t, independentCancellation)), None) \<Rightarrow> ((e, t), None, False)
      | ((e, (t, independentCancellation)), Some err) \<Rightarrow>
          let ownerCanceled = errors_Is err ContextCanceled \<and> \<not> independentCancellation \<and> stopping t in
          if ownerCanceled then ((e, t), None, True) else ((e, t), Some err, False))"

section \<open>The goroutines\<close>

text \<open>
  \<open>PumpLoop b\<close> is the main loop, with \<open>b\<close> when the closed message channel has been put aside; \<open>PumpDrain\<close> is
  \<^verbatim>\<open>drainOutbound\<close> and \<open>PumpEmit\<close> is in \<^verbatim>\<open>emitProtocolDone\<close>, past its check of the context.  The worker hands a signature to the pump while it is in \<open>Handoff\<close>.
\<close>

datatype pumpPc = PumpLoop bool | PumpDrain protocolResult | PumpEmit protocolResult | PumpReturned "error option"

text \<open>The end channel that the session has: ECDSA or EdDSA key generation, or signing.\<close>

datatype sessionKind = ECDSADKG | EdDSADKG | ECDSASign

datatype workerPc = Selecting | Handoff SignatureData | WorkerReturned "error option"

record ('d, 'p, 't) pump =
  pu_state :: "('d, 'p) exec \<times> 't"
  pu_out :: "outMessage list"
  pu_outClosed :: bool
  pu_dkgEnd :: "LocalPartySaveData option"
  pu_signEnd :: "SignatureData option"
  pu_plainEnd :: bool
  pu_endClosed :: bool
  pu_result :: "protocolResult option"
  pu_pc :: pumpPc
  pu_worker :: workerPc
  pu_events :: "protocolResult list"
  pu_produced :: "outMessage list"
  pu_forwarded :: "outMessage list"
  pu_dropped :: bool

abbreviation "ctx_err env s \<equiv> en_CtxErr env (snd (pu_state s))"
abbreviation "stop_error env stopping s \<equiv> StopError env stopping (snd (pu_state s))"

definition shareResult :: "LocalPartySaveData \<Rightarrow> protocolResult" where
  "shareResult d = \<lparr>pr_ecdsaKeyShare = Some d, pr_signature = None\<rparr>"

definition signatureResult :: "SignatureData \<Rightarrow> protocolResult" where
  "signatureResult sig = \<lparr>pr_ecdsaKeyShare = None, pr_signature = Some sig\<rparr>"

definition emptyResult :: protocolResult where
  "emptyResult = \<lparr>pr_ecdsaKeyShare = None, pr_signature = None\<rparr>"

text \<open>\<^verbatim>\<open>cloneSignatureDataValue\<close> copies the five fields.\<close>

definition cloneSignatureDataValue :: "SignatureData \<Rightarrow> SignatureData" where
  "cloneSignatureDataValue v =
     \<lparr>sd_Signature = [] @ sd_Signature v, sd_SignatureRecovery = [] @ sd_SignatureRecovery v, sd_R = [] @ sd_R v,
      sd_S = [] @ sd_S v, sd_M = [] @ sd_M v\<rparr>"

text \<open>
  \<^verbatim>\<open>emitProtocolDone\<close> when \<^verbatim>\<open>Emit\<close> has put the event into the channel, which a \<^verbatim>\<open>select\<close> may also do when the
  context ended meanwhile; and the outcomes of forwarding the oldest message.
\<close>

definition emitProtocolDone :: "protocolResult \<Rightarrow> ('d, 'p, 't) pump \<Rightarrow> ('d, 'p, 't) pump" where
  "emitProtocolDone result s = s\<lparr>pu_events := pu_events s @ [result], pu_pc := PumpReturned None\<rparr>"

definition pumpForward :: "'t env \<Rightarrow> ('t \<Rightarrow> bool) \<Rightarrow> ('d, 'p, 't) pump \<Rightarrow> ('d, 'p, 't) pump" where
  "pumpForward env stopping s =
     (case pu_out s of
        [] \<Rightarrow> s
      | msg # rest \<Rightarrow>
          (case forwardProtocolMessage env stopping msg (pu_state s) of
             (st, Some err, _) \<Rightarrow> s\<lparr>pu_state := st, pu_out := rest, pu_pc := PumpReturned (Some err)\<rparr>
           | (st, None, False) \<Rightarrow> s\<lparr>pu_state := st, pu_out := rest, pu_forwarded := pu_forwarded s @ [msg]\<rparr>
           | (st, None, True) \<Rightarrow> s\<lparr>pu_state := st, pu_out := rest, pu_dropped := True\<rparr>))"

text \<open>
  tss-lib fills the channel of the session's \<open>kind\<close> once, after the last message; \<open>pu_result\<close> records what
  it published.
\<close>

inductive pump_step ::
  "'t env \<Rightarrow> ('t \<Rightarrow> bool) \<Rightarrow> sessionKind \<Rightarrow> ('d, 'p, 't) pump \<Rightarrow> unit \<Rightarrow> ('d, 'p, 't) pump \<Rightarrow> bool"
  for env stopping kind where
  pump_ctx: "pu_pc s = PumpLoop b \<Longrightarrow> ctx_err env s \<noteq> None \<Longrightarrow>
    pump_step env stopping kind s () (s\<lparr>pu_pc := PumpReturned (stop_error env stopping s)\<rparr>)"
| pump_signature: "pu_pc s = PumpLoop b \<Longrightarrow> pu_worker s = Handoff sig \<Longrightarrow>
    pump_step env stopping kind s ()
      (s\<lparr>pu_pc := PumpDrain (signatureResult sig), pu_worker := WorkerReturned None\<rparr>)"
| pump_share: "pu_pc s = PumpLoop b \<Longrightarrow> pu_dkgEnd s = Some d \<Longrightarrow>
    pump_step env stopping kind s () (s\<lparr>pu_pc := PumpDrain (shareResult d), pu_dkgEnd := None\<rparr>)"
| pump_eof: "pu_pc s = PumpLoop b \<Longrightarrow> kind = ECDSADKG \<Longrightarrow> pu_dkgEnd s = None \<Longrightarrow> pu_endClosed s \<Longrightarrow>
    pump_step env stopping kind s () (s\<lparr>pu_pc := PumpReturned (Some (Sentinel IoErrUnexpectedEOF))\<rparr>)"
| pump_message: "pu_pc s = PumpLoop False \<Longrightarrow> pu_out s \<noteq> [] \<Longrightarrow>
    pump_step env stopping kind s () (pumpForward env stopping s)"
| pump_put_aside: "pu_pc s = PumpLoop False \<Longrightarrow> pu_out s = [] \<Longrightarrow> pu_outClosed s \<Longrightarrow> kind = ECDSASign \<Longrightarrow>
    pump_step env stopping kind s () (s\<lparr>pu_pc := PumpLoop True\<rparr>)"
| pump_closed_share: "pu_pc s = PumpLoop False \<Longrightarrow> pu_out s = [] \<Longrightarrow> pu_outClosed s \<Longrightarrow> kind \<noteq> ECDSASign \<Longrightarrow>
    pu_dkgEnd s = Some d \<Longrightarrow> ctx_err env s = None \<Longrightarrow>
    pump_step env stopping kind s () (s\<lparr>pu_pc := PumpEmit (shareResult d), pu_dkgEnd := None\<rparr>)"
| pump_closed_default: "pu_pc s = PumpLoop False \<Longrightarrow> pu_out s = [] \<Longrightarrow> pu_outClosed s \<Longrightarrow> kind \<noteq> ECDSASign \<Longrightarrow>
    pu_dkgEnd s = None \<Longrightarrow> \<not> (kind = ECDSADKG \<and> pu_endClosed s) \<Longrightarrow> ctx_err env s = None \<Longrightarrow>
    pump_step env stopping kind s () (s\<lparr>pu_pc := PumpReturned None\<rparr>)"
| drain_ctx: "pu_pc s = PumpDrain result \<Longrightarrow> ctx_err env s \<noteq> None \<Longrightarrow>
    pump_step env stopping kind s () (s\<lparr>pu_pc := PumpReturned (stop_error env stopping s)\<rparr>)"
| drain_message: "pu_pc s = PumpDrain result \<Longrightarrow> pu_out s \<noteq> [] \<Longrightarrow>
    pump_step env stopping kind s () (pumpForward env stopping s)"
| drain_empty: "pu_pc s = PumpDrain result \<Longrightarrow> pu_out s = [] \<Longrightarrow> ctx_err env s = None \<Longrightarrow>
    pump_step env stopping kind s () (s\<lparr>pu_pc := PumpEmit result\<rparr>)"
| pump_emit: "pu_pc s = PumpEmit result \<Longrightarrow>
    pump_step env stopping kind s () (emitProtocolDone result s)"
| pump_emit_ctx: "pu_pc s = PumpEmit result \<Longrightarrow> ctx_err env s \<noteq> None \<Longrightarrow>
    pump_step env stopping kind s () (s\<lparr>pu_pc := PumpReturned (stop_error env stopping s)\<rparr>)"
| worker_ctx: "pu_worker s = Selecting \<or> pu_worker s = Handoff sig \<Longrightarrow> ctx_err env s \<noteq> None \<Longrightarrow>
    pump_step env stopping kind s () (s\<lparr>pu_worker := WorkerReturned None\<rparr>)"
| worker_signature: "pu_worker s = Selecting \<Longrightarrow> pu_signEnd s = Some sig \<Longrightarrow>
    pump_step env stopping kind s () (s\<lparr>pu_worker := Handoff (cloneSignatureDataValue sig), pu_signEnd := None\<rparr>)"
| worker_plain: "pu_worker s = Selecting \<Longrightarrow> pu_plainEnd s \<Longrightarrow>
    pump_step env stopping kind s ()
      (s\<lparr>pu_worker := WorkerReturned None, pu_plainEnd := False, pu_events := pu_events s @ [emptyResult]\<rparr>)"
| worker_eof: "pu_worker s = Selecting \<Longrightarrow> kind \<noteq> ECDSADKG \<Longrightarrow> pu_signEnd s = None \<Longrightarrow> \<not> pu_plainEnd s \<Longrightarrow> pu_endClosed s \<Longrightarrow>
    pump_step env stopping kind s () (s\<lparr>pu_worker := WorkerReturned (Some (Sentinel IoErrUnexpectedEOF))\<rparr>)"
| lib_produce: "pu_result s = None \<Longrightarrow> \<not> pu_outClosed s \<Longrightarrow>
    pump_step env stopping kind s () (s\<lparr>pu_out := pu_out s @ [msg], pu_produced := pu_produced s @ [msg]\<rparr>)"
| lib_share: "pu_result s = None \<Longrightarrow> kind = ECDSADKG \<Longrightarrow> \<not> pu_endClosed s \<Longrightarrow>
    pump_step env stopping kind s () (s\<lparr>pu_result := Some (shareResult d), pu_dkgEnd := Some d\<rparr>)"
| lib_signature: "pu_result s = None \<Longrightarrow> kind = ECDSASign \<Longrightarrow> \<not> pu_endClosed s \<Longrightarrow>
    pump_step env stopping kind s () (s\<lparr>pu_result := Some (signatureResult sig), pu_signEnd := Some sig\<rparr>)"
| lib_plain: "pu_result s = None \<Longrightarrow> kind = EdDSADKG \<Longrightarrow> \<not> pu_endClosed s \<Longrightarrow>
    pump_step env stopping kind s () (s\<lparr>pu_result := Some emptyResult, pu_plainEnd := True\<rparr>)"
| lib_close: "pump_step env stopping kind s () (s\<lparr>pu_outClosed := True\<rparr>)"
| lib_end_close: "pump_step env stopping kind s () (s\<lparr>pu_endClosed := True\<rparr>)"
| world: "pump_step env stopping kind s () (s\<lparr>pu_state := (fst (pu_state s), t)\<rparr>)"

definition pump_started :: "('d, 'p, 't) pump \<Rightarrow> bool" where
  "pump_started s \<longleftrightarrow> pu_out s = [] \<and> \<not> pu_outClosed s \<and> pu_dkgEnd s = None \<and> pu_signEnd s = None \<and> \<not> pu_plainEnd s
     \<and> \<not> pu_endClosed s \<and> pu_result s = None \<and> pu_pc s = PumpLoop False \<and> pu_worker s = Selecting \<and> pu_events s = []
     \<and> pu_produced s = [] \<and> pu_forwarded s = [] \<and> \<not> pu_dropped s"

section \<open>The invariant\<close>

lemma clone_signature [simp]: "cloneSignatureDataValue v = v"
  by (simp add: cloneSignatureDataValue_def)

lemma results_differ [simp]: "shareResult d \<noteq> emptyResult" "signatureResult sig \<noteq> emptyResult"
  by (simp_all add: shareResult_def signatureResult_def emptyResult_def)

text \<open>The places where the published result may be: at most one holds it.\<close>

definition result_at :: "('d, 'p, 't) pump \<Rightarrow> protocolResult list" where
  "result_at s =
     (case pu_dkgEnd s of None \<Rightarrow> [] | Some d \<Rightarrow> [shareResult d])
     @ (case pu_signEnd s of None \<Rightarrow> [] | Some sig \<Rightarrow> [signatureResult sig])
     @ (if pu_plainEnd s then [emptyResult] else [])
     @ (case pu_worker s of Handoff sig \<Rightarrow> [signatureResult sig] | _ \<Rightarrow> [])
     @ (case pu_pc s of PumpDrain r \<Rightarrow> [r] | PumpEmit r \<Rightarrow> [r] | _ \<Rightarrow> [])
     @ pu_events s"

definition pump_inv :: "('d, 'p, 't) pump \<Rightarrow> bool" where
  "pump_inv s \<longleftrightarrow>
     (pu_result s = None \<longrightarrow> result_at s = [])
     \<and> (\<forall>r. pu_result s = Some r \<longrightarrow> result_at s = [] \<or> result_at s = [r])
     \<and> (\<forall>r. pu_pc s = PumpDrain r \<or> pu_pc s = PumpEmit r \<longrightarrow> r \<noteq> emptyResult)
     \<and> (\<forall>r. pu_pc s = PumpEmit r \<longrightarrow> pu_out s = [])
     \<and> (pu_pc s \<in> PumpReturned ` range Some \<or> pu_dropped s \<or> pu_produced s = pu_forwarded s @ pu_out s)
     \<and> (\<forall>r\<in>set (pu_events s). r = emptyResult \<or> pu_pc s = PumpReturned None \<and> (pu_dropped s \<or> pu_out s = []))"

lemma pump_inv_forward:
  assumes "pump_inv s" "pu_out s \<noteq> []" "pu_pc s = PumpLoop False \<or> pu_pc s = PumpDrain result"
  shows "pump_inv (pumpForward env stopping s)"
proof -
  obtain msg rest where o: "pu_out s = msg # rest" using assms(2) by (cases "pu_out s") auto
  obtain st r b where f: "forwardProtocolMessage env stopping msg (pu_state s) = (st, r, b)" by (metis prod.exhaust)
  have e: "\<forall>r\<in>set (pu_events s). r = emptyResult" using assms(1,3) by (auto simp: pump_inv_def)
  show ?thesis
  proof (cases r)
    case None
    then show ?thesis
      using assms(1,3) o f e by (cases b) (auto simp: pump_inv_def pumpForward_def result_at_def)
  next
    case (Some err)
    then show ?thesis
      using assms(1,3) o f e
      by (auto simp: pump_inv_def pumpForward_def result_at_def split: option.splits workerPc.splits if_splits)
  qed
qed

lemma pump_inv_step:
  assumes "pump_step env stopping kind s l s'" "pump_inv s" shows "pump_inv s'"
  using assms(1)
proof cases
  case pump_message
  then show ?thesis using pump_inv_forward assms(2) by blast
next
  case drain_message
  then show ?thesis using pump_inv_forward assms(2) by blast
qed (use assms(2) in \<open>auto simp: pump_inv_def result_at_def emitProtocolDone_def split: option.splits workerPc.splits pumpPc.splits if_splits\<close>)

lemma pump_started_inv: "pump_started s \<Longrightarrow> pump_inv s"
  by (simp add: pump_started_def pump_inv_def result_at_def)

interpretation pump_runs: invariant_system pump_started "pump_step env stopping kind" pump_inv for env stopping kind
  by unfold_locales (simp_all add: pump_started_inv pump_inv_step)

section \<open>Properties\<close>

lemma pump_inv_event:
  assumes "pump_inv s" "r \<in> set (pu_events s)"
  shows "pu_result s = Some r" "r = emptyResult \<or> pu_dropped s \<or> pu_forwarded s = pu_produced s \<and> pu_out s = []"
proof -
  have n: "result_at s \<noteq> []" "r \<in> set (result_at s)" using assms(2) by (auto simp: result_at_def)
  then show "pu_result s = Some r" using assms(1) by (cases "pu_result s") (auto simp: pump_inv_def)
  show "r = emptyResult \<or> pu_dropped s \<or> pu_forwarded s = pu_produced s \<and> pu_out s = []"
    using assms by (auto simp: pump_inv_def)
qed

lemma pump_inv_once: "pump_inv s \<Longrightarrow> length (pu_events s) \<le> 1"
proof -
  assume "pump_inv s"
  then have "length (result_at s) \<le> 1" by (cases "pu_result s") (auto simp: pump_inv_def)
  then show ?thesis by (simp add: result_at_def)
qed


text \<open>A concrete session over a transport that takes every frame.\<close>

definition open_env :: "unit env" where
  "open_env = \<lparr>en_Now = (\<lambda>t. (t, 0)), en_CtxErr = (\<lambda>t. None), en_SendFrame = (\<lambda>t f. (t, None)), en_Rand = (\<lambda>t. (t, []))\<rparr>"

definition idle_pump :: "('d, 'p) exec \<Rightarrow> ('d, 'p, unit) pump" where
  "idle_pump e = \<lparr>pu_state = (e, ()), pu_out = [], pu_outClosed = False, pu_dkgEnd = None, pu_signEnd = None,
     pu_plainEnd = False, pu_endClosed = False, pu_result = None, pu_pc = PumpLoop False, pu_worker = Selecting,
     pu_events = [], pu_produced = [], pu_forwarded = [], pu_dropped = False\<rparr>"

lemma idle_started: "pump_started (idle_pump e)"
  by (simp add: pump_started_def idle_pump_def)

text \<open>
  EdDSA key generation is different: the result worker publishes without the pump, so that the session
  may end with messages still queued.
\<close>

lemma eddsa_result_overtakes_frames:
  "\<exists>ls s. executes (pump_step open_env (\<lambda>t. False) EdDSADKG) (idle_pump e) ls s
     \<and> pu_events s = [emptyResult] \<and> pu_out s = [msg] \<and> pu_forwarded s = []"
proof -
  let ?step = "pump_step open_env (\<lambda>t. False) EdDSADKG"
  let ?s1 = "(idle_pump e)\<lparr>pu_out := [msg], pu_produced := [msg]\<rparr>"
  let ?s2 = "?s1\<lparr>pu_result := Some emptyResult, pu_plainEnd := True\<rparr>"
  let ?s3 = "?s2\<lparr>pu_worker := WorkerReturned None, pu_plainEnd := False, pu_events := [emptyResult]\<rparr>"
  have 1: "?step (idle_pump e) () ?s1"
    using lib_produce [of "idle_pump e" open_env "\<lambda>t. False" EdDSADKG msg] by (simp add: idle_pump_def)
  have 2: "?step ?s1 () ?s2"
    using lib_plain [of ?s1 EdDSADKG open_env "\<lambda>t. False"] by (simp add: idle_pump_def)
  have 3: "?step ?s2 () ?s3"
    using worker_plain [of ?s2 open_env "\<lambda>t. False" EdDSADKG] by (simp add: idle_pump_def)
  have "executes ?step (idle_pump e) ([()] @ [()] @ [()]) ?s3"
    by (rule executes_trans [OF executes_trans [OF executes_one [where step = ?step, OF 3] executes_one [where step = ?step, OF 2]]
          executes_one [where step = ?step, OF 1]])
  moreover have "pu_events ?s3 = [emptyResult]" "pu_out ?s3 = [msg]" "pu_forwarded ?s3 = []" by (simp_all add: idle_pump_def)
  ultimately show ?thesis by blast
qed

lemma sample_forwarded:
  "\<exists>st. forwardProtocolMessage open_env (\<lambda>t. False) sample_message (New sample_params, ()) = (st, None, False)"
proof -
  have "rc_MaxFrameBytes (ex_cfg (New sample_params)) = 100" by (simp add: sample_session)
  then show ?thesis
    by (simp add: forwardProtocolMessage_def forwardOutgoing_def trackedEnv_def open_env_def newOutboundBaseFrame_def
        sendFrame_def markProgress_def sample_message_def Let_def split: prod.splits)
qed


end
