(* ===== verification/Session_Run.thy ===== *)
theory Session_Run
  imports Recv_Worker Outbound_Pump
begin

text \<open>
  One session with all its goroutines (\<^verbatim>\<open>internal/tssbnb/execution\<close>): the runtime of \<^verbatim>\<open>runtime.go\<close>, the five
  workers that \<^verbatim>\<open>startWorkers\<close> registers, and the main loop of \<^verbatim>\<open>Run\<close>.  \<open>session_step\<close> interleaves the outbound
  pump and the result worker (\<open>pump_step\<close>), the receive loop and its worker (\<open>recv_step\<close>), the watchdog, the
  start of the tss-lib party, the errgroup and the main loop, over one runtime with its context, its
  stopping flag and its bounded event channel.  The pump and the watchdog share the execution's record
  with the main loop, as the code shares its atomic fields.

  The errgroup of \<^verbatim>\<open>golang.org/x/sync\<close> is the parameter \<open>grp\<close>, from the values its functions have returned, in
  the order of their return, to what \<^verbatim>\<open>Wait\<close> returns.

  Shown: a session returns only when all its workers have returned; when it returns without an error it
  publishes what tss-lib produced and every message was sent, and otherwise it publishes nothing.
\<close>

section \<open>The runtime\<close>

record sessionRuntime =
  rt_ctxErr :: "error option"
  rt_Events :: "protocolEvent list"
  rt_eventBuf :: nat
  rt_returned :: "error option list"
  rt_stopping :: bool
  rt_workersDone :: bool
  rt_workerErr :: "error option"

definition newSessionRuntime :: "error option \<Rightarrow> int \<Rightarrow> sessionRuntime" where
  "newSessionRuntime parentErr eventBuf =
     \<lparr>rt_ctxErr = parentErr, rt_Events = [], rt_eventBuf = nat (if eventBuf < 1 then 1 else eventBuf), rt_returned = [],
      rt_stopping = False, rt_workersDone = False, rt_workerErr = None\<rparr>"

text \<open>A context keeps the first error it was given.\<close>

definition cancel :: "error \<Rightarrow> sessionRuntime \<Rightarrow> sessionRuntime" where
  "cancel err rt = rt\<lparr>rt_ctxErr := (case rt_ctxErr rt of None \<Rightarrow> Some err | Some e \<Rightarrow> Some e)\<rparr>"

text \<open>The outcomes that the \<^verbatim>\<open>select\<close> of \<^verbatim>\<open>Emit\<close> may have; none while it waits.\<close>

definition Emit :: "protocolEvent \<Rightarrow> sessionRuntime \<Rightarrow> (sessionRuntime \<times> bool) list" where
  "Emit ev rt =
     (if rt_ctxErr rt \<noteq> None then [(rt, False)] else [])
     @ (if length (rt_Events rt) < rt_eventBuf rt then [(rt\<lparr>rt_Events := rt_Events rt @ [ev]\<rparr>, True)] else [])"

definition Stop :: "sessionRuntime \<Rightarrow> sessionRuntime" where
  "Stop rt = cancel (Sentinel ContextCanceled) (rt\<lparr>rt_stopping := True\<rparr>)"

definition Stopping :: "sessionRuntime \<Rightarrow> bool" where
  "Stopping rt = rt_stopping rt"

text \<open>\<^verbatim>\<open>Wait\<close> has no result while it waits for \<^verbatim>\<open>workersDone\<close>.\<close>

definition Wait :: "sessionRuntime \<Rightarrow> error option option" where
  "Wait rt = (if rt_workersDone rt then Some (rt_workerErr rt) else None)"

text \<open>A function of the group returns: an error cancels the context of the group.\<close>

definition groupReturn :: "error option \<Rightarrow> sessionRuntime \<Rightarrow> sessionRuntime" where
  "groupReturn r rt =
     (let rt = rt\<lparr>rt_returned := rt_returned rt @ [r]\<rparr>
      in if r = None then rt else cancel (Sentinel ContextCanceled) rt)"

text \<open>The goroutine of \<^verbatim>\<open>startWorkerWait\<close>, when \<^verbatim>\<open>Group.Wait\<close> returns; it also cancels the group's context.\<close>

definition startWorkerWait :: "(error option list \<Rightarrow> error option) \<Rightarrow> sessionRuntime \<Rightarrow> sessionRuntime" where
  "startWorkerWait grp rt =
     (cancel (Sentinel ContextCanceled) rt)\<lparr>rt_workerErr := grp (rt_returned rt), rt_workersDone := True\<rparr>"

text \<open>The documented behaviour of the group: \<^verbatim>\<open>Wait\<close> returns the first error that is not nil, if any.\<close>

definition wf_errgroup :: "(error option list \<Rightarrow> error option) \<Rightarrow> bool" where
  "wf_errgroup grp \<longleftrightarrow> (\<forall>rs. grp rs = (case filter (\<lambda>r. r \<noteq> None) rs of [] \<Rightarrow> None | r # _ \<Rightarrow> r))"

section \<open>The session\<close>

datatype worker = OutboundPump | Watchdog | RecvWorker | ResultWorker | PartyStart

text \<open>How the main loop ends, and where it is.\<close>

datatype terminal = TermCanceled error | TermEvent string "error option" | TermPanic

datatype mainPc = MainLoop | MainStopping terminal | MainReturned string "error option"

record ('d, 'p, 'w) session =
  se_pump :: "('d, 'p, 'w \<times> sessionRuntime) pump"
  se_recv :: rstate
  se_watch :: "error option option"
  se_start :: "error option option"
  se_joined :: "worker list"
  se_parentErr :: "error option"
  se_main :: mainPc

definition rt_of :: "('d, 'p, 'w) session \<Rightarrow> sessionRuntime" where
  "rt_of s = snd (snd (pu_state (se_pump s)))"

definition exec_of :: "('d, 'p, 'w) session \<Rightarrow> ('d, 'p) exec" where
  "exec_of s = fst (pu_state (se_pump s))"

definition set_state :: "('d, 'p) exec \<times> 'w \<times> sessionRuntime \<Rightarrow> ('d, 'p, 'w) session \<Rightarrow> ('d, 'p, 'w) session" where
  "set_state st s = s\<lparr>se_pump := (se_pump s)\<lparr>pu_state := st\<rparr>\<rparr>"

definition upd_rt :: "(sessionRuntime \<Rightarrow> sessionRuntime) \<Rightarrow> ('d, 'p, 'w) session \<Rightarrow> ('d, 'p, 'w) session" where
  "upd_rt f s = (case pu_state (se_pump s) of (e, w, rt) \<Rightarrow> set_state (e, w, f rt) s)"

text \<open>The clock, the transport and the random source of the process, with the context of the runtime.\<close>

definition sessionEnv :: "'w env \<Rightarrow> ('w \<times> sessionRuntime) env" where
  "sessionEnv env =
     \<lparr>en_Now = (\<lambda>(w, rt). case en_Now env w of (w', now) \<Rightarrow> ((w', rt), now)),
      en_CtxErr = (\<lambda>(w, rt). rt_ctxErr rt),
      en_SendFrame = (\<lambda>(w, rt) frame. case en_SendFrame env w frame of (w', err) \<Rightarrow> ((w', rt), err)),
      en_Rand = (\<lambda>(w, rt). case en_Rand env w of (w', b) \<Rightarrow> ((w', rt), b))\<rparr>"

definition stoppingIn :: "'w \<times> sessionRuntime \<Rightarrow> bool" where
  "stoppingIn t = Stopping (snd t)"

text \<open>What a worker has returned to the group; the receive worker waits for its loop.\<close>

fun worker_result :: "('d, 'p, 'w) session \<Rightarrow> worker \<Rightarrow> error option option" where
  "worker_result s OutboundPump = (case pu_pc (se_pump s) of PumpReturned r \<Rightarrow> Some r | _ \<Rightarrow> None)"
| "worker_result s ResultWorker = (case pu_worker (se_pump s) of WorkerReturned r \<Rightarrow> Some r | _ \<Rightarrow> None)"
| "worker_result s RecvWorker = (if rs_worker (se_recv s) \<or> rs_loop (se_recv s) then None else Some None)"
| "worker_result s Watchdog = se_watch s"
| "worker_result s PartyStart = se_start s"

definition all_workers :: "worker list" where
  "all_workers = [OutboundPump, Watchdog, RecvWorker, ResultWorker, PartyStart]"

text \<open>
  The beginning of \<^verbatim>\<open>Run\<close>: the runtime, the first mark of progress, and \<^verbatim>\<open>startWorkers\<close>, after which every worker is
  at its first statement.
\<close>

definition startWorkers :: "('d, 'p) exec \<times> 'w \<times> sessionRuntime \<Rightarrow> error option \<Rightarrow> ('d, 'p, 'w) session" where
  "startWorkers st parentErr =
     \<lparr>se_pump = \<lparr>pu_state = st, pu_out = [], pu_outClosed = False, pu_dkgEnd = None, pu_signEnd = None, pu_plainEnd = False,
        pu_endClosed = False, pu_result = None, pu_pc = PumpLoop False, pu_worker = Selecting, pu_events = [],
        pu_produced = [], pu_forwarded = [], pu_dropped = False\<rparr>,
      se_recv = initRecv, se_watch = None, se_start = None, se_joined = [], se_parentErr = parentErr, se_main = MainLoop\<rparr>"

definition startSession :: "'w env \<Rightarrow> ('d, 'p) exec \<Rightarrow> 'w \<Rightarrow> error option \<Rightarrow> ('d, 'p, 'w) session" where
  "startSession env e w parentErr =
     startWorkers
       (markProgress (sessionEnv env) ''start'' 0
          (e, w, newSessionRuntime parentErr (rc_InboundQueueCap (ex_cfg e) + 8)))
       parentErr"

text \<open>A tick of \<^verbatim>\<open>runWatchdog\<close>: an error ends it.\<close>

definition watchdogStep :: "'w env \<Rightarrow> ('d, 'p, 'w) session \<Rightarrow> ('d, 'p, 'w) session" where
  "watchdogStep env s =
     (case pu_state (se_pump s) of (e, t) \<Rightarrow>
      case en_Now (sessionEnv env) t of (t', now) \<Rightarrow>
      case watchdogTick now e of
        (e', None) \<Rightarrow> set_state (e', t') s
      | (e', Some err) \<Rightarrow> (set_state (e', t') s)\<lparr>se_watch := Some (Some err)\<rparr>)"

text \<open>The main loop takes the oldest event.\<close>

definition mainEvent ::
  "'w env \<Rightarrow> 'd accept_fun \<Rightarrow> ('p, 'm) tsslib \<Rightarrow> protocolEvent \<Rightarrow> ('d, 'p, 'w) session \<Rightarrow> ('d, 'p, 'w) session" where
  "mainEvent env accept lib ev s =
     (case handleEvent (sessionEnv env) accept lib (se_parentErr s) ev (pu_state (se_pump s)) of
        (st, None) \<Rightarrow> set_state st s
      | (st, Some (state, err)) \<Rightarrow>
          (upd_rt Stop (set_state st s))
            \<lparr>se_main := MainStopping (if (case err of Some er \<Rightarrow> is_panic er | None \<Rightarrow> False) then TermPanic
                                      else TermEvent state err)\<rparr>)"

text \<open>After the barrier \<^verbatim>\<open>StopAndWait\<close>, with the error of the group.\<close>

definition mainFinish :: "terminal \<Rightarrow> error option \<Rightarrow> ('d, 'p, 'w) session \<Rightarrow> ('d, 'p, 'w) session" where
  "mainFinish tm groupErr s =
     (case tm of
        TermCanceled err \<Rightarrow> s\<lparr>se_main := MainReturned ''canceled'' (Some err)\<rparr>
      | TermPanic \<Rightarrow> s\<lparr>se_main := MainReturned ''panic'' (Some (errors_New ''tss protocol loop panic''))\<rparr>
      | TermEvent state err \<Rightarrow>
          (case finishTerminalEvent (exec_of s) state err groupErr of
             (e, st, er) \<Rightarrow> (set_state (e, snd (pu_state (se_pump s))) s)\<lparr>se_main := MainReturned st er\<rparr>))"

text \<open>Which steps of the receiving side the context of the runtime allows.\<close>

fun recv_allowed :: "sessionRuntime \<Rightarrow> recv_label \<Rightarrow> bool" where
  "recv_allowed rt WorkerCtxDone = (rt_ctxErr rt \<noteq> None)"
| "recv_allowed rt (Received r (Some err)) = (rt_ctxErr rt = Some err)"
| "recv_allowed rt _ = True"

text \<open>A step's label tells which event the main loop took, if it is such a step.\<close>

datatype sessionLabel = Internal | MainTook protocolEvent

inductive session_step ::
  "'w env \<Rightarrow> 'd accept_fun \<Rightarrow> ('p, 'm) tsslib \<Rightarrow> (error option list \<Rightarrow> error option) \<Rightarrow> sessionKind \<Rightarrow>
   ('d, 'p, 'w) session \<Rightarrow> sessionLabel \<Rightarrow> ('d, 'p, 'w) session \<Rightarrow> bool"
  for env accept lib grp kind where
  pump_silent: "pump_step (sessionEnv env) stoppingIn kind (se_pump s) () p \<Longrightarrow>
    snd (snd (pu_state p)) = rt_of s \<Longrightarrow> pu_events p = pu_events (se_pump s) \<Longrightarrow>
    session_step env accept lib grp kind s Internal (s\<lparr>se_pump := p\<rparr>)"
| pump_emits: "pump_step (sessionEnv env) stoppingIn kind (se_pump s) () p \<Longrightarrow>
    snd (snd (pu_state p)) = rt_of s \<Longrightarrow> pu_events p = pu_events (se_pump s) @ [r] \<Longrightarrow>
    (rt, True) \<in> set (Emit (eventProtocolDone r) (rt_of s)) \<Longrightarrow>
    session_step env accept lib grp kind s Internal (upd_rt (\<lambda>_. rt) (s\<lparr>se_pump := p\<rparr>))"
| recv_silent: "recv_step (rc_MaxFrameBytes (ex_cfg (exec_of s))) (nat (rc_InboundQueueCap (ex_cfg (exec_of s)))) (se_recv s) l r \<Longrightarrow>
    recv_allowed (rt_of s) l \<Longrightarrow> rs_events r = rs_events (se_recv s) \<Longrightarrow>
    session_step env accept lib grp kind s Internal (s\<lparr>se_recv := r\<rparr>)"
| recv_emits: "recv_step (rc_MaxFrameBytes (ex_cfg (exec_of s))) (nat (rc_InboundQueueCap (ex_cfg (exec_of s)))) (se_recv s)
      (WorkerEmit ev) r \<Longrightarrow>
    (rt, True) \<in> set (Emit ev (rt_of s)) \<Longrightarrow>
    session_step env accept lib grp kind s Internal (upd_rt (\<lambda>_. rt) (s\<lparr>se_recv := r\<rparr>))"
| watch_tick: "se_watch s = None \<Longrightarrow>
    session_step env accept lib grp kind s Internal (watchdogStep env s)"
| watch_ctx: "se_watch s = None \<Longrightarrow> rt_ctxErr (rt_of s) \<noteq> None \<Longrightarrow>
    session_step env accept lib grp kind s Internal (s\<lparr>se_watch := Some None\<rparr>)"
| party_started: "se_start s = None \<Longrightarrow>
    session_step env accept lib grp kind s Internal (s\<lparr>se_start := Some None\<rparr>)"
| party_failed: "se_start s = None \<Longrightarrow>
    session_step env accept lib grp kind s Internal (s\<lparr>se_start := Some (Some (Wrap ''tss party start failed'' err))\<rparr>)"
| join: "worker_result s w = Some r \<Longrightarrow> w \<notin> set (se_joined s) \<Longrightarrow>
    session_step env accept lib grp kind s Internal (upd_rt (groupReturn r) (s\<lparr>se_joined := se_joined s @ [w]\<rparr>))"
| group_wait: "set all_workers \<subseteq> set (se_joined s) \<Longrightarrow> \<not> rt_workersDone (rt_of s) \<Longrightarrow>
    session_step env accept lib grp kind s Internal (upd_rt (startWorkerWait grp) s)"
| parent_done: "se_parentErr s = None \<Longrightarrow>
    session_step env accept lib grp kind s Internal (s\<lparr>se_parentErr := Some err\<rparr>)"
| ctx_done: "se_parentErr s = Some err \<Longrightarrow>
    session_step env accept lib grp kind s Internal (upd_rt (cancel err) s)"
| main_ctx: "se_main s = MainLoop \<Longrightarrow> se_parentErr s = Some err \<Longrightarrow>
    session_step env accept lib grp kind s Internal ((upd_rt Stop s)\<lparr>se_main := MainStopping (TermCanceled err)\<rparr>)"
| main_event: "se_main s = MainLoop \<Longrightarrow> rt_Events (rt_of s) = ev # evs \<Longrightarrow>
    session_step env accept lib grp kind s (MainTook ev) (mainEvent env accept lib ev (upd_rt (\<lambda>rt. rt\<lparr>rt_Events := evs\<rparr>) s))"
| main_stopped: "se_main s = MainStopping tm \<Longrightarrow> Wait (rt_of s) = Some groupErr \<Longrightarrow>
    session_step env accept lib grp kind s Internal (mainFinish tm groupErr s)"
| main_workers: "se_main s = MainLoop \<Longrightarrow> Wait (rt_of s) = Some groupErr \<Longrightarrow>
    handleGroupResult (exec_of s) groupErr = (st, err) \<Longrightarrow>
    session_step env accept lib grp kind s Internal ((upd_rt Stop s)\<lparr>se_main := MainReturned st err\<rparr>)"

inductive_cases session_stepE: "session_step env accept lib grp kind s l t"

section \<open>What the parts leave alone\<close>

lemma set_state_simps [simp]:
  "se_pump (set_state st s) = (se_pump s)\<lparr>pu_state := st\<rparr>" "se_recv (set_state st s) = se_recv s"
  "se_watch (set_state st s) = se_watch s" "se_start (set_state st s) = se_start s"
  "se_joined (set_state st s) = se_joined s" "se_parentErr (set_state st s) = se_parentErr s"
  "se_main (set_state st s) = se_main s" "rt_of (set_state st s) = snd (snd st)" "exec_of (set_state st s) = fst st"
  by (simp_all add: set_state_def rt_of_def exec_of_def)

lemma upd_rt_simps [simp]:
  "se_recv (upd_rt f s) = se_recv s" "se_watch (upd_rt f s) = se_watch s" "se_start (upd_rt f s) = se_start s"
  "se_joined (upd_rt f s) = se_joined s" "pu_state (se_pump (upd_rt f s)) = (exec_of s, fst (snd (pu_state (se_pump s))), f (rt_of s))"
  "se_parentErr (upd_rt f s) = se_parentErr s" "se_main (upd_rt f s) = se_main s"
  "rt_of (upd_rt f s) = f (rt_of s)" "exec_of (upd_rt f s) = exec_of s"
  "pu_pc (se_pump (upd_rt f s)) = pu_pc (se_pump s)" "pu_worker (se_pump (upd_rt f s)) = pu_worker (se_pump s)"
  "pu_events (se_pump (upd_rt f s)) = pu_events (se_pump s)" "pu_dropped (se_pump (upd_rt f s)) = pu_dropped (se_pump s)"
  by (simp_all add: upd_rt_def rt_of_def exec_of_def split: prod.splits)

lemma pump_inv_state [simp]: "pump_inv (p\<lparr>pu_state := st\<rparr>) = pump_inv p"
  by (simp add: pump_inv_def result_at_def)

lemma pump_inv_upd_rt [simp]: "pump_inv (se_pump (upd_rt f s)) = pump_inv (se_pump s)"
  by (simp add: upd_rt_def split: prod.splits)

lemma worker_result_cong:
  assumes "pu_pc (se_pump s) = pu_pc (se_pump t)" "pu_worker (se_pump s) = pu_worker (se_pump t)" "se_recv s = se_recv t"
    "se_watch s = se_watch t" "se_start s = se_start t"
  shows "worker_result s w = worker_result t w"
  by (cases w) (simp_all add: assms)

lemma se_main_update [simp]:
  "rt_of (s\<lparr>se_main := m\<rparr>) = rt_of s" "exec_of (s\<lparr>se_main := m\<rparr>) = exec_of s"
  by (simp_all add: rt_of_def exec_of_def)

lemma worker_result_keeps [simp]:
  "worker_result (s\<lparr>se_main := m\<rparr>) w = worker_result s w" "worker_result (set_state st s) w = worker_result s w"
  "worker_result (upd_rt f s) w = worker_result s w" "worker_result (s\<lparr>se_parentErr := pe\<rparr>) w = worker_result s w"
  "worker_result (s\<lparr>se_joined := j\<rparr>) w = worker_result s w"
  by (rule worker_result_cong, simp_all)+

text \<open>What the main loop reads and decides on.\<close>

definition core where
  "core e = (outcome e, identity e, ex_party e, ex_deduper e)"

lemma core_outcome: "core e = core e' \<Longrightarrow> outcome e = outcome e'"
  by (simp add: core_def)

lemma core_markProgress [simp]: "core (fst (markProgress env m r s)) = core (fst s)"
  by (simp add: core_def)

lemma core_observe [simp]: "core (observe m e) = core e"
  by (simp add: core_def outcome_def identity_def observe_def)

lemma core_sendFrame: "core (fst (fst (sendFrame env frame s))) = core (fst s)"
proof -
  obtain e t where s: "s = (e, t)" by fastforce
  have "core ((observe m (e\<lparr>ex_stats := st\<rparr>))\<lparr>ex_lastSentSeq := q\<rparr>) = core e" for m st q
    by (simp add: core_def outcome_def identity_def observe_def)
  then show ?thesis by (auto simp: sendFrame_def s split: option.splits prod.splits)
qed

lemma core_sendTo: "core (fst (fst (sendTo env base tos s))) = core (fst s)"
proof (induction tos arbitrary: s)
  case (Cons to tos)
  show ?case
    using Cons core_sendFrame [of env "base\<lparr>fr_ToParty := to\<rparr>" s]
    by (auto split: prod.splits option.splits)
qed simp

lemma core_forwardOutgoing: "core (fst (fst (forwardOutgoing env msg s))) = core (fst s)"
proof -
  have n: "core (fst (fst (newOutboundBaseFrame env msg payload h s))) = core (fst s)" for payload h
    by (simp add: newOutboundBaseFrame_def core_def outcome_def identity_def Let_def split: prod.splits)
  then have "newOutboundBaseFrame env msg payload h s = (s', base) \<Longrightarrow> core (fst s') = core (fst s)" for payload h s' base
    by (metis fst_conv)
  then show ?thesis
    by (auto simp: forwardOutgoing_def core_sendFrame core_sendTo split: option.splits sum.splits prod.splits)
qed

lemma core_forward:
  assumes "forwardProtocolMessage env stopping msg s = (s', r)" shows "core (fst s') = core (fst s)"
  using assms core_forwardOutgoing [of "trackedEnv stopping env" msg "(fst s, snd s, False)"]
  by (auto simp: forwardProtocolMessage_def Let_def split: prod.splits option.splits if_splits)

lemma core_pumpForward: "core (fst (pu_state (pumpForward env stopping p))) = core (fst (pu_state p))"
proof (cases "pu_out p")
  case (Cons msg rest)
  obtain st r b where f: "forwardProtocolMessage env stopping msg (pu_state p) = (st, r, b)" by (metis prod.exhaust)
  show ?thesis using core_forward [OF f] by (cases r; cases b) (simp_all add: pumpForward_def Cons f)
qed (simp add: pumpForward_def)

lemma core_pump_step:
  assumes "pump_step env stopping kind p l p'" shows "core (fst (pu_state p')) = core (fst (pu_state p))"
  using assms by cases (simp_all add: core_pumpForward emitProtocolDone_def)

lemma core_watchdogTick: "watchdogTick now e = (e', r) \<Longrightarrow> core e' = core e"
  by (auto simp: watchdogTick_def Let_def observe_def core_def outcome_def identity_def split: if_splits)

lemma watchdogStep_keeps:
  "core (exec_of (watchdogStep env s)) = core (exec_of s)" "rt_of (watchdogStep env s) = rt_of s"
  "se_main (watchdogStep env s) = se_main s" "se_parentErr (watchdogStep env s) = se_parentErr s"
  "se_joined (watchdogStep env s) = se_joined s" "se_recv (watchdogStep env s) = se_recv s"
  "se_start (watchdogStep env s) = se_start s"
  "pu_pc (se_pump (watchdogStep env s)) = pu_pc (se_pump s)" "pu_worker (se_pump (watchdogStep env s)) = pu_worker (se_pump s)"
  "pu_events (se_pump (watchdogStep env s)) = pu_events (se_pump s)"
  "pu_dropped (se_pump (watchdogStep env s)) = pu_dropped (se_pump s)"
  "pump_inv (se_pump (watchdogStep env s)) = pump_inv (se_pump s)"
  using core_watchdogTick
  by (auto simp: watchdogStep_def sessionEnv_def rt_of_def exec_of_def set_state_def
      split: prod.splits option.splits)

section \<open>The invariant\<close>

text \<open>The result that was published, and how it reached the main loop.\<close>

definition published :: "('d, 'p, 'w) session \<Rightarrow> bool" where
  "published s \<longleftrightarrow> (\<exists>r\<in>set (pu_events (se_pump s)).
     outcome (exec_of s) = (True, pr_ecdsaKeyShare r, pr_signature r) \<and> (r = emptyResult \<or> \<not> pu_dropped (se_pump s)))"

definition unpublished :: "('d, 'p, 'w) session \<Rightarrow> bool" where
  "unpublished s \<longleftrightarrow> outcome (exec_of s) = (False, None, None)"

definition main_inv :: "('d, 'p, 'w) session \<Rightarrow> bool" where
  "main_inv s \<longleftrightarrow>
     (case se_main s of
        MainLoop \<Rightarrow> \<not> rt_stopping (rt_of s) \<and> unpublished s
      | MainStopping tm \<Rightarrow> rt_stopping (rt_of s)
          \<and> (if \<exists>st. tm = TermEvent st None then tm = TermEvent ''success'' None \<and> published s else unpublished s)
      | MainReturned st err \<Rightarrow> rt_workersDone (rt_of s)
          \<and> (if err = None then published s \<and> rt_workerErr (rt_of s) = None else unpublished s))"

definition runtime_inv :: "(error option list \<Rightarrow> error option) \<Rightarrow> ('d, 'p, 'w) session \<Rightarrow> bool" where
  "runtime_inv grp s \<longleftrightarrow>
     (pu_dropped (se_pump s) \<longrightarrow> rt_stopping (rt_of s))
     \<and> (rt_stopping (rt_of s) \<longrightarrow> rt_ctxErr (rt_of s) \<noteq> None)
     \<and> (\<forall>r. eventProtocolDone r \<in> set (rt_Events (rt_of s)) \<longrightarrow> r \<in> set (pu_events (se_pump s)))
     \<and> (\<forall>r. rs_hand (se_recv s) \<noteq> Some (eventProtocolDone r))
     \<and> length (rt_Events (rt_of s)) \<le> rt_eventBuf (rt_of s)
     \<and> list_all2 (\<lambda>w r. worker_result s w = Some r) (se_joined s) (rt_returned (rt_of s))
     \<and> distinct (se_joined s)
     \<and> (rt_workersDone (rt_of s) \<longrightarrow>
          set all_workers \<subseteq> set (se_joined s) \<and> rt_workerErr (rt_of s) = grp (rt_returned (rt_of s)))"

definition session_inv where
  "session_inv grp s \<longleftrightarrow> pump_inv (se_pump s) \<and> runtime_inv grp s \<and> main_inv s"

lemma pumpForward_keeps [simp]:
  "pu_worker (pumpForward env stopping p) = pu_worker p" "pu_events (pumpForward env stopping p) = pu_events p"
  by (simp_all add: pumpForward_def split: list.split option.split bool.split prod.split)

lemma pump_step_results:
  assumes "pump_step env stopping kind p l p'"
  shows "pu_pc p = PumpReturned r \<Longrightarrow> pu_pc p' = PumpReturned r"
    and "pu_worker p = WorkerReturned r' \<Longrightarrow> pu_worker p' = WorkerReturned r'"
  using assms by (cases, simp_all add: emitProtocolDone_def)+

lemma pumpForward_dropped:
  assumes "pu_dropped (pumpForward env stopping p)" "\<not> pu_dropped p"
  shows "stopping (snd (pu_state (pumpForward env stopping p)))"
proof (cases "pu_out p")
  case (Cons msg rest)
  obtain st r b where f: "forwardProtocolMessage env stopping msg (pu_state p) = (st, r, b)" by (metis prod.exhaust)
  have "r = None" "b" using assms Cons f by (auto simp: pumpForward_def split: option.splits bool.splits)
  moreover from this f have "stopping (snd st)"
    by (auto simp: forwardProtocolMessage_def Let_def split: prod.splits option.splits if_splits)
  ultimately show ?thesis by (simp add: pumpForward_def Cons f)
qed (use assms in \<open>simp add: pumpForward_def\<close>)

lemma pump_step_dropped:
  assumes "pump_step env stopping kind p l p'" "pu_dropped p'" "\<not> pu_dropped p"
  shows "stopping (snd (pu_state p'))" "\<nexists>r. pu_pc p = PumpReturned r"
proof -
  have "p' = pumpForward env stopping p \<and> (\<nexists>r. pu_pc p = PumpReturned r) \<or> pu_dropped p' = pu_dropped p"
    using assms(1) by cases (simp_all add: emitProtocolDone_def)
  with assms(2,3) pumpForward_dropped show "stopping (snd (pu_state p'))" "\<nexists>r. pu_pc p = PumpReturned r" by auto
qed

lemma recv_step_results:
  assumes "recv_step n cap s l t"
  shows "\<not> rs_worker s \<Longrightarrow> \<not> rs_worker t" "\<not> rs_loop s \<Longrightarrow> \<not> rs_loop t"
    "rs_hand s \<noteq> Some (eventProtocolDone r) \<Longrightarrow> rs_hand t \<noteq> Some (eventProtocolDone r)"
  using assms
  by (cases; simp add: recvLoopIteration_def stopLoop_def split: sum.split option.split)+

text \<open>Steps that leave the main loop where it is.\<close>

lemma main_inv_frame:
  assumes "main_inv s" "se_main t = se_main s" "outcome (exec_of t) = outcome (exec_of s)"
    "set (pu_events (se_pump s)) \<subseteq> set (pu_events (se_pump t))"
    "pu_dropped (se_pump t) \<longrightarrow> pu_dropped (se_pump s) \<or> set (pu_events (se_pump s)) \<subseteq> {emptyResult}"
    "rt_stopping (rt_of t) = rt_stopping (rt_of s)"
    "rt_workersDone (rt_of s) \<longrightarrow> rt_workersDone (rt_of t) \<and> rt_workerErr (rt_of t) = rt_workerErr (rt_of s)"
  shows "main_inv t"
proof -
  have "published s \<Longrightarrow> published t" using assms(3-5) unfolding published_def by auto
  moreover have "unpublished t = unpublished s" using assms(3) by (simp add: unpublished_def)
  ultimately show ?thesis
    using assms(1,2,6,7) by (auto simp: main_inv_def split: mainPc.splits if_splits)
qed

lemma runtime_inv_frame:
  assumes "runtime_inv grp s" "rt_of t = rt_of s" "set (pu_events (se_pump s)) \<subseteq> set (pu_events (se_pump t))"
    "pu_dropped (se_pump t) \<longrightarrow> pu_dropped (se_pump s) \<or> rt_stopping (rt_of s)"
    "se_joined t = se_joined s" "\<And>w r. worker_result s w = Some r \<Longrightarrow> worker_result t w = Some r"
    "\<forall>r. rs_hand (se_recv t) \<noteq> Some (eventProtocolDone r)"
  shows "runtime_inv grp t"
proof -
  have "list_all2 (\<lambda>w r. worker_result t w = Some r) (se_joined t) (rt_returned (rt_of t))"
    using assms(1,2,5,6) by (auto simp: runtime_inv_def intro: list_all2_mono)
  with assms show ?thesis by (auto simp: runtime_inv_def)
qed

lemma worker_result_pump:
  assumes "pump_step env stopping kind (se_pump s) l p" "worker_result s w = Some r"
  shows "worker_result (s\<lparr>se_pump := p\<rparr>) w = Some r"
  using assms(2) pump_step_results [OF assms(1)]
  by (cases w) (auto split: pumpPc.splits workerPc.splits)

lemma worker_result_recv:
  assumes "recv_step n cap (se_recv s) l r" "worker_result s w = Some x"
  shows "worker_result (s\<lparr>se_recv := r\<rparr>) w = Some x"
  using assms(2) recv_step_results(1,2) [OF assms(1)] by (cases w) (auto split: if_splits)

lemma session_inv_pump:
  assumes "session_inv grp s" "pump_step (sessionEnv env) stoppingIn kind (se_pump s) () p" "snd (snd (pu_state p)) = rt_of s"
    "set (pu_events (se_pump s)) \<subseteq> set (pu_events p)"
  shows "session_inv grp (s\<lparr>se_pump := p\<rparr>)"
proof -
  let ?t = "s\<lparr>se_pump := p\<rparr>"
  have i: "pump_inv (se_pump s)" "runtime_inv grp s" "main_inv s" using assms(1) by (simp_all add: session_inv_def)
  have rt: "rt_of ?t = rt_of s" using assms(3) by (simp add: rt_of_def)
  have d: "pu_dropped p \<longrightarrow> pu_dropped (se_pump s) \<or> rt_stopping (rt_of s) \<and> set (pu_events (se_pump s)) \<subseteq> {emptyResult}"
  proof (intro impI disjCI)
    assume "pu_dropped p" "\<not> (rt_stopping (rt_of s) \<and> set (pu_events (se_pump s)) \<subseteq> {emptyResult})"
    with pump_step_dropped [OF assms(2)] assms(3) i(1) show "pu_dropped (se_pump s)"
      by (auto simp: stoppingIn_def Stopping_def pump_inv_def)
  qed
  have "outcome (exec_of ?t) = outcome (exec_of s)"
    using core_outcome [OF core_pump_step [OF assms(2)]] by (simp add: exec_of_def)
  then have "main_inv ?t" using main_inv_frame [OF i(3), of ?t] rt d assms(4) by auto
  moreover have "runtime_inv grp ?t"
    by (rule runtime_inv_frame [OF i(2)]) (use rt d assms(4) worker_result_pump [OF assms(2)] i(2) in \<open>auto simp: runtime_inv_def\<close>)
  ultimately show ?thesis using pump_inv_step [OF assms(2) i(1)] by (simp add: session_inv_def)
qed

lemma session_inv_recv:
  assumes "session_inv grp s" "recv_step n cap (se_recv s) l r"
  shows "session_inv grp (s\<lparr>se_recv := r\<rparr>)"
proof -
  let ?t = "s\<lparr>se_recv := r\<rparr>"
  have i: "pump_inv (se_pump s)" "runtime_inv grp s" "main_inv s" using assms(1) by (simp_all add: session_inv_def)
  have k: "rt_of ?t = rt_of s" "exec_of ?t = exec_of s" by (simp_all add: rt_of_def exec_of_def)
  have "main_inv ?t" using main_inv_frame [OF i(3), of ?t] k by simp
  moreover have "runtime_inv grp ?t"
    by (rule runtime_inv_frame [OF i(2)])
       (use k worker_result_recv [OF assms(2)] recv_step_results(3) [OF assms(2)] i(2) in \<open>auto simp: runtime_inv_def\<close>)
  ultimately show ?thesis using i(1) by (simp add: session_inv_def)
qed

text \<open>Steps on the runtime alone.\<close>

lemma session_inv_rt:
  assumes "session_inv grp s" "rt_stopping (f (rt_of s)) = rt_stopping (rt_of s)" "rt_returned (f (rt_of s)) = rt_returned (rt_of s)"
    "rt_ctxErr (rt_of s) \<noteq> None \<longrightarrow> rt_ctxErr (f (rt_of s)) \<noteq> None"
    "\<And>r. eventProtocolDone r \<in> set (rt_Events (f (rt_of s))) \<Longrightarrow> r \<in> set (pu_events (se_pump s))"
    "length (rt_Events (f (rt_of s))) \<le> rt_eventBuf (f (rt_of s))"
    "rt_workersDone (rt_of s) \<longrightarrow> rt_workersDone (f (rt_of s)) \<and> rt_workerErr (f (rt_of s)) = rt_workerErr (rt_of s)"
    "rt_workersDone (f (rt_of s)) \<and> \<not> rt_workersDone (rt_of s) \<longrightarrow>
       set all_workers \<subseteq> set (se_joined s) \<and> rt_workerErr (f (rt_of s)) = grp (rt_returned (rt_of s))"
  shows "session_inv grp (upd_rt f s)"
proof -
  have i: "pump_inv (se_pump s)" "runtime_inv grp s" "main_inv s" using assms(1) by (simp_all add: session_inv_def)
  have "main_inv (upd_rt f s)" using main_inv_frame [OF i(3), of "upd_rt f s"] assms(2,7) by simp
  moreover have "runtime_inv grp (upd_rt f s)"
    using i(2) assms(2-8) by (auto simp: runtime_inv_def)
  ultimately show ?thesis using i(1) by (simp add: session_inv_def)
qed

section \<open>The main loop keeps it\<close>

lemma session_env_rt [simp]: "snd (fst (en_Now (sessionEnv env) t)) = snd t"
  by (simp add: sessionEnv_def split: prod.splits)

lemma markProgress_rt [simp]: "snd (snd (markProgress (sessionEnv env) m r s)) = snd (snd s)"
  by (simp add: markProgress_def sessionEnv_def Let_def split: prod.splits)

lemma handleIncoming_rt:
  "snd (snd (fst (handleIncoming (sessionEnv env) accept lib f s))) = snd (snd s)"
proof -
  have "snd (snd (fst (shouldProcessInbound (sessionEnv env) accept f s))) = snd (snd s)"
    by (simp add: shouldProcessInbound_def sessionEnv_def Let_def split: prod.splits sum.splits)
  then have "snd (snd (fst (validateInbound (sessionEnv env) accept f s))) = snd (snd s)"
    by (auto simp: validateInbound_def split: option.splits prod.splits sum.splits)
  then show ?thesis
    by (auto simp: handleIncoming_def split: option.splits prod.splits sum.splits)
qed

lemma handleEvent_rt:
  assumes "handleEvent (sessionEnv env) accept lib c ev s = (s', r)" shows "snd (snd s') = snd (snd s)"
proof (cases ev)
  case (eventInboundFrame f)
  obtain e t where s: "s = (e, t)" by (cases s)
  let ?e = "(observe (FramesRecv (ex_stage e)) (e\<lparr>ex_stats := IncRecv (ex_stats e)\<rparr>))\<lparr>ex_lastRecvSeq := fr_Seq f\<rparr>"
  let ?s1 = "markProgress (sessionEnv env) (fr_MessageType f) (fr_RoundHint f) (?e, t)"
  obtain s2 r2 where h: "handleIncoming (sessionEnv env) accept lib f ?s1 = (s2, r2)" by fastforce
  then have "snd (snd s2) = snd t" using handleIncoming_rt [of env accept lib f ?s1] by simp
  then show ?thesis
    using assms h by (auto simp: handleEvent_def eventInboundFrame s Let_def observe_def split: option.splits)
qed (use assms in \<open>auto simp: handleEvent_def split: prod.splits option.splits\<close>)

lemma Stop_simps [simp]:
  "rt_stopping (Stop rt)" "rt_ctxErr (Stop rt) \<noteq> None" "rt_Events (Stop rt) = rt_Events rt" "rt_eventBuf (Stop rt) = rt_eventBuf rt"
  "rt_returned (Stop rt) = rt_returned rt" "rt_workersDone (Stop rt) = rt_workersDone rt" "rt_workerErr (Stop rt) = rt_workerErr rt"
  by (simp_all add: Stop_def cancel_def split: option.split)

lemma runtime_inv_Stop:
  assumes "runtime_inv grp s" "rt_of t = Stop (rt_of s)" "pu_events (se_pump t) = pu_events (se_pump s)"
    "se_joined t = se_joined s" "\<And>w. worker_result t w = worker_result s w" "se_recv t = se_recv s"
  shows "runtime_inv grp t"
  using assms by (simp add: runtime_inv_def)

lemma session_inv_mainEvent:
  assumes "session_inv grp s" "se_main s = MainLoop" "\<And>r. ev = eventProtocolDone r \<Longrightarrow> r \<in> set (pu_events (se_pump s))"
  shows "session_inv grp (mainEvent env accept lib ev s)"
proof -
  have i: "pump_inv (se_pump s)" "runtime_inv grp s" "main_inv s" using assms(1) by (simp_all add: session_inv_def)
  have o: "outcome (exec_of s) = (False, None, None)" "\<not> rt_stopping (rt_of s)"
    using i(3) assms(2) by (simp_all add: main_inv_def unpublished_def)
  obtain st r where h: "handleEvent (sessionEnv env) accept lib (se_parentErr s) ev (pu_state (se_pump s)) = (st, r)" by fastforce
  have rt: "snd (snd st) = rt_of s" using handleEvent_rt [OF h] by (simp add: rt_of_def)
  show ?thesis
  proof (cases r)
    case None
    then have e: "mainEvent env accept lib ev s = set_state st s" by (simp add: mainEvent_def h)
    have "outcome (fst st) = outcome (exec_of s)" using handleEvent_continue [OF h [unfolded None]] by (simp add: exec_of_def)
    then have "main_inv (set_state st s)" using main_inv_frame [OF i(3), of "set_state st s"] rt by simp
    moreover have "runtime_inv grp (set_state st s)"
      by (rule runtime_inv_frame [OF i(2)]) (use rt i(2) in \<open>auto simp: runtime_inv_def\<close>)
    ultimately show ?thesis using i(1) by (simp add: session_inv_def e)
  next
    case (Some x)
    obtain state err where x: "x = (state, err)" by fastforce
    let ?tm = "if (case err of Some er \<Rightarrow> is_panic er | None \<Rightarrow> False) then TermPanic else TermEvent state err"
    let ?t = "(upd_rt Stop (set_state st s))\<lparr>se_main := MainStopping ?tm\<rparr>"
    have e: "mainEvent env accept lib ev s = ?t" by (simp add: mainEvent_def h Some x)
    have k: "rt_of ?t = Stop (rt_of s)" "exec_of ?t = fst st" "pu_events (se_pump ?t) = pu_events (se_pump s)"
        "pu_dropped (se_pump ?t) = pu_dropped (se_pump s)" "pump_inv (se_pump ?t)"
      using rt i(1) by simp_all
    have "runtime_inv grp ?t"
      by (rule runtime_inv_Stop [OF i(2) k(1,3)]) simp_all
    moreover have "main_inv ?t"
    proof -
      from h [unfolded Some x] have "handleEvent (sessionEnv env) accept lib (se_parentErr s) ev (pu_state (se_pump s)) = (st, Some (state, err))" .
      moreover have "\<not> ex_protocolDoneFlag (fst (pu_state (se_pump s)))" using o(1) by (simp add: outcome_def exec_of_def)
      ultimately show ?thesis
      proof (cases rule: handleEvent_stop)
        case (success result)
        have "\<not> pu_dropped (se_pump s)" using i(2) o(2) by (auto simp: runtime_inv_def)
        then have "published ?t" using success assms(3) k by (auto simp: published_def)
        then show ?thesis using success k(1) by (simp add: main_inv_def)
      next
        case (failure er)
        then have "unpublished ?t" using k(2) o(1) by (simp add: unpublished_def exec_of_def)
        then show ?thesis using failure k(1) by (simp add: main_inv_def)
      qed
    qed
    ultimately show ?thesis using k(5) by (simp add: session_inv_def e)
  qed
qed

lemma session_inv_local:
  assumes "session_inv grp s" "se_pump t = se_pump s" "se_recv t = se_recv s" "se_joined t = se_joined s" "se_main t = se_main s"
    "se_watch s \<noteq> None \<longrightarrow> se_watch t = se_watch s" "se_start s \<noteq> None \<longrightarrow> se_start t = se_start s"
  shows "session_inv grp t"
proof -
  have i: "pump_inv (se_pump s)" "runtime_inv grp s" "main_inv s" using assms(1) by (simp_all add: session_inv_def)
  have k: "rt_of t = rt_of s" "exec_of t = exec_of s" using assms(2) by (simp_all add: rt_of_def exec_of_def)
  have w: "worker_result s w = Some r \<Longrightarrow> worker_result t w = Some r" for w r
    using assms(2,3,6,7) by (cases w) auto
  have "runtime_inv grp t" by (rule runtime_inv_frame [OF i(2) k(1)]) (use assms(2-4) w i(2) in \<open>auto simp: runtime_inv_def\<close>)
  moreover have "main_inv t" using main_inv_frame [OF i(3), of t] k assms(2,5) by simp
  ultimately show ?thesis using i(1) assms(2) by (simp add: session_inv_def)
qed

lemma session_inv_watchdog:
  assumes "session_inv grp s" "se_watch s = None" shows "session_inv grp (watchdogStep env s)"
proof -
  have i: "pump_inv (se_pump s)" "runtime_inv grp s" "main_inv s" using assms(1) by (simp_all add: session_inv_def)
  note k = watchdogStep_keeps [of env s]
  have w: "worker_result s w = Some r \<Longrightarrow> worker_result (watchdogStep env s) w = Some r" for w r
    using k assms(2) by (cases w) auto
  have "runtime_inv grp (watchdogStep env s)"
    by (rule runtime_inv_frame [OF i(2)]) (use k w i(2) in \<open>auto simp: runtime_inv_def\<close>)
  moreover have "main_inv (watchdogStep env s)"
    using main_inv_frame [OF i(3), of "watchdogStep env s"] k core_outcome [OF k(1)] by simp
  ultimately show ?thesis using i(1) k by (simp add: session_inv_def)
qed

lemma session_inv_join:
  assumes "session_inv grp s" "worker_result s w = Some r" "w \<notin> set (se_joined s)"
  shows "session_inv grp (upd_rt (groupReturn r) (s\<lparr>se_joined := se_joined s @ [w]\<rparr>))"
proof -
  have i: "pump_inv (se_pump s)" "runtime_inv grp s" "main_inv s" using assms(1) by (simp_all add: session_inv_def)
  let ?t = "upd_rt (groupReturn r) (s\<lparr>se_joined := se_joined s @ [w]\<rparr>)"
  have k: "rt_of (s\<lparr>se_joined := j\<rparr>) = rt_of s" "exec_of (s\<lparr>se_joined := j\<rparr>) = exec_of s" for j
    by (simp_all add: rt_of_def exec_of_def)
  have g: "rt_stopping (groupReturn r rt) = rt_stopping rt" "rt_Events (groupReturn r rt) = rt_Events rt"
      "rt_eventBuf (groupReturn r rt) = rt_eventBuf rt" "rt_returned (groupReturn r rt) = rt_returned rt @ [r]"
      "rt_workersDone (groupReturn r rt) = rt_workersDone rt" "rt_workerErr (groupReturn r rt) = rt_workerErr rt"
      "rt_ctxErr rt \<noteq> None \<Longrightarrow> rt_ctxErr (groupReturn r rt) \<noteq> None" for rt
    by (auto simp: groupReturn_def cancel_def Let_def split: option.splits)
  have n: "\<not> rt_workersDone (rt_of s)"
    using assms(3) i(2) by (cases w) (auto simp: runtime_inv_def all_workers_def)
  have "runtime_inv grp ?t"
    using i(2) assms(2,3) n g(7) by (auto simp: runtime_inv_def k g(1-6) intro: list_all2_appendI)
  moreover have "main_inv ?t" using main_inv_frame [OF i(3), of ?t] by (simp add: k g(1-6))
  ultimately show ?thesis using i(1) by (simp add: session_inv_def)
qed

lemma session_inv_finish:
  assumes "session_inv grp s" "se_main s = MainStopping tm" "Wait (rt_of s) = Some groupErr"
  shows "session_inv grp (mainFinish tm groupErr s)"
proof -
  have i: "pump_inv (se_pump s)" "runtime_inv grp s" "main_inv s" using assms(1) by (simp_all add: session_inv_def)
  have d: "rt_workersDone (rt_of s)" "rt_workerErr (rt_of s) = groupErr"
    using assms(3) by (simp_all add: Wait_def split: if_splits)
  let ?e = "exec_of s"
  have o: "outcome (?e\<lparr>ex_ecdsaKeyShare := None, ex_signature := None, ex_protocolDoneFlag := False\<rparr>) = (False, None, None)"
    by (simp add: outcome_def)
  have m: "main_inv (mainFinish tm groupErr s)"
  proof (cases tm)
    case (TermEvent state err)
    show ?thesis
    proof (cases err)
      case None
      then have p: "state = ''success''" "published s" using i(3) TermEvent assms(2) by (auto simp: main_inv_def)
      show ?thesis
        using p None TermEvent d o
        by (cases groupErr) (auto simp: mainFinish_def finishTerminalEvent_def main_inv_def published_def unpublished_def
            handleGroupResult_def rt_of_def Let_def split: if_splits)
    next
      case (Some er)
      then show ?thesis
        using i(3) TermEvent assms(2) d by (auto simp: mainFinish_def finishTerminalEvent_def main_inv_def unpublished_def rt_of_def)
    qed
  qed (use i(3) assms(2) d in \<open>auto simp: mainFinish_def main_inv_def unpublished_def errors_New_def\<close>)
  have "runtime_inv grp (mainFinish tm groupErr s)"
    by (rule runtime_inv_frame [OF i(2)]) (use i(2) in \<open>auto simp: mainFinish_def runtime_inv_def rt_of_def split: terminal.splits prod.splits\<close>)
  moreover have "pump_inv (se_pump (mainFinish tm groupErr s))" using i(1) by (simp add: mainFinish_def split: terminal.splits prod.splits)
  ultimately show ?thesis using m by (simp add: session_inv_def)
qed

lemma session_inv_main:
  assumes "session_inv grp s" "main_inv ((upd_rt Stop s)\<lparr>se_main := m\<rparr>)"
  shows "session_inv grp ((upd_rt Stop s)\<lparr>se_main := m\<rparr>)"
proof -
  have "runtime_inv grp ((upd_rt Stop s)\<lparr>se_main := m\<rparr>)"
    by (rule runtime_inv_Stop [of grp s]) (use assms(1) in \<open>simp_all add: session_inv_def\<close>)
  with assms show ?thesis by (simp add: session_inv_def)
qed

lemma cancel_simps [simp]:
  "rt_stopping (cancel err rt) = rt_stopping rt" "rt_ctxErr (cancel err rt) \<noteq> None" "rt_Events (cancel err rt) = rt_Events rt"
  "rt_eventBuf (cancel err rt) = rt_eventBuf rt" "rt_returned (cancel err rt) = rt_returned rt"
  "rt_workersDone (cancel err rt) = rt_workersDone rt" "rt_workerErr (cancel err rt) = rt_workerErr rt"
  by (simp_all add: cancel_def split: option.split)

lemma Emit_True:
  assumes "(rt', True) \<in> set (Emit ev rt)"
  shows "rt' = rt\<lparr>rt_Events := rt_Events rt @ [ev]\<rparr>" "length (rt_Events rt) < rt_eventBuf rt"
  using assms by (auto simp: Emit_def split: if_splits)

lemma session_inv_emit:
  assumes "session_inv grp s" "(rt, True) \<in> set (Emit ev (rt_of s))"
    "\<And>r. ev = eventProtocolDone r \<Longrightarrow> r \<in> set (pu_events (se_pump s))"
  shows "session_inv grp (upd_rt (\<lambda>_. rt) s)"
  by (rule session_inv_rt)
     (use assms Emit_True [OF assms(2)] in \<open>auto simp: session_inv_def runtime_inv_def\<close>)

lemma session_inv_step:
  assumes "session_inv grp s" "session_step env accept lib grp kind s l t" shows "session_inv grp t"
  using assms(2)
proof cases
  case (pump_silent p)
  then show ?thesis using session_inv_pump [OF assms(1), of env kind p] by simp
next
  case (pump_emits p r rt)
  have rt: "rt_of (s\<lparr>se_pump := p\<rparr>) = rt_of s" using pump_emits(4) by (simp add: rt_of_def)
  have "session_inv grp (s\<lparr>se_pump := p\<rparr>)" using session_inv_pump [OF assms(1) pump_emits(3,4)] pump_emits(5) by auto
  from session_inv_emit [OF this, unfolded rt, OF pump_emits(6)] show ?thesis using pump_emits(2,5) by simp
next
  case (recv_silent l' r)
  then show ?thesis using session_inv_recv assms(1) by blast
next
  case (recv_emits ev r rt)
  have rt: "rt_of (s\<lparr>se_recv := r\<rparr>) = rt_of s" by (simp add: rt_of_def)
  have "rs_hand (se_recv s) = Some ev" using recv_emits(3) by (auto elim: recv_stepE)
  then have n: "ev \<noteq> eventProtocolDone x" for x using assms(1) by (auto simp: session_inv_def runtime_inv_def)
  have "session_inv grp (s\<lparr>se_recv := r\<rparr>)" by (rule session_inv_recv [OF assms(1) recv_emits(3)])
  from session_inv_emit [OF this, unfolded rt, OF recv_emits(4)] n show ?thesis using recv_emits(2) by simp
next
  case watch_tick
  then show ?thesis using session_inv_watchdog assms(1) by blast
next
  case (join w r)
  then show ?thesis using session_inv_join assms(1) by blast
next
  case group_wait
  show ?thesis unfolding group_wait(2)
    by (rule session_inv_rt [OF assms(1)])
       (use assms(1) group_wait in \<open>auto simp: session_inv_def runtime_inv_def startWorkerWait_def\<close>)
next
  case (ctx_done err)
  show ?thesis unfolding ctx_done(2)
    by (rule session_inv_rt [OF assms(1)]) (use assms(1) in \<open>auto simp: session_inv_def runtime_inv_def\<close>)
next
  case (main_ctx err)
  show ?thesis unfolding main_ctx(2)
    by (rule session_inv_main [OF assms(1)])
       (use assms(1) main_ctx in \<open>auto simp: session_inv_def main_inv_def unpublished_def\<close>)
next
  case (main_event ev evs)
  let ?s = "upd_rt (\<lambda>rt. rt\<lparr>rt_Events := evs\<rparr>) s"
  have r: "runtime_inv grp s" using assms(1) by (simp add: session_inv_def)
  have "session_inv grp ?s"
    by (rule session_inv_rt [OF assms(1)]) (use r main_event(4) in \<open>auto simp: runtime_inv_def\<close>)
  then show ?thesis unfolding main_event(2)
    by (rule session_inv_mainEvent) (use r main_event in \<open>auto simp: runtime_inv_def\<close>)
next
  case (main_stopped tm groupErr)
  then show ?thesis using session_inv_finish assms(1) by blast
next
  case (main_workers groupErr st err)
  have "unpublished s" "rt_workersDone (rt_of s)"
    using assms(1) main_workers by (auto simp: session_inv_def main_inv_def Wait_def split: if_splits)
  then have "main_inv ((upd_rt Stop s)\<lparr>se_main := MainReturned st err\<rparr>)"
    using main_workers(5) by (auto simp: main_inv_def unpublished_def handleGroupResult_def outcome_def split: option.splits if_splits)
  then show ?thesis unfolding main_workers(2) by (rule session_inv_main [OF assms(1)])
qed (use assms(1) in \<open>auto intro: session_inv_local\<close>)

text \<open>A fresh execution, as \<open>New\<close> makes it, has published nothing.\<close>

lemma session_inv_start:
  assumes "outcome e = (False, None, None)"
  shows "session_inv grp (startSession env e w parentErr)"
proof -
  have "pump_started (se_pump (startSession env e w parentErr))"
    by (simp add: startSession_def startWorkers_def pump_started_def)
  moreover have "rt_of (startSession env e w parentErr) = newSessionRuntime parentErr (rc_InboundQueueCap (ex_cfg e) + 8)"
      "outcome (exec_of (startSession env e w parentErr)) = (False, None, None)"
    using assms by (simp_all add: startSession_def startWorkers_def rt_of_def exec_of_def)
  moreover have "se_joined (startSession env e w parentErr) = []" "se_main (startSession env e w parentErr) = MainLoop"
      "rs_hand (se_recv (startSession env e w parentErr)) = None"
    by (simp_all add: startSession_def startWorkers_def initRecv_def)
  ultimately show ?thesis
    using pump_started_inv
    by (simp add: session_inv_def runtime_inv_def main_inv_def unpublished_def newSessionRuntime_def pump_started_def)
qed

interpretation session_runs: invariant_system
  "\<lambda>s. \<exists>e w parentErr. outcome e = (False, None, None) \<and> s = startSession env e w parentErr"
  "session_step env accept lib grp kind" "session_inv grp" for env accept lib grp kind
  by unfold_locales (auto intro: session_inv_start session_inv_step)

section \<open>The end of a session\<close>

lemma New_unpublished: "outcome (New params) = (False, None, None)"
  by (simp add: New_def outcome_def)

lemma all_workers_UNIV: "set all_workers = UNIV"
proof -
  have "w \<in> set all_workers" for w by (cases w) (simp_all add: all_workers_def)
  then show ?thesis by blast
qed

lemma joined_results:
  assumes "runtime_inv grp s" "rt_workersDone (rt_of s)"
  shows "\<exists>r\<in>set (rt_returned (rt_of s)). worker_result s w = Some r"
proof -
  have "w \<in> set (se_joined s)" using assms all_workers_UNIV by (auto simp: runtime_inv_def)
  then show ?thesis using assms(1) by (auto simp: runtime_inv_def list_all2_conv_all_nth in_set_conv_nth)
qed

lemma errgroup_none:
  assumes "wf_errgroup grp" shows "grp rs = None \<longleftrightarrow> set rs \<subseteq> {None}"
proof (cases "filter (\<lambda>r. r \<noteq> None) rs")
  case Nil
  then show ?thesis using assms by (auto simp: wf_errgroup_def filter_empty_conv)
next
  case (Cons r rs')
  then have "r \<in> set rs \<and> r \<noteq> None" by (metis (mono_tags) list.set_intros(1) mem_Collect_eq set_filter)
  moreover have "grp rs = r" using assms Cons by (simp add: wf_errgroup_def)
  ultimately show ?thesis by auto
qed

end
