(* ===== verification/Session_Shutdown.thy ===== *)
theory Session_Shutdown
  imports Session_Run
begin

text \<open>
  The end of a session (\<^verbatim>\<open>Stop\<close>, \<^verbatim>\<open>StopAndWait\<close> and \<^verbatim>\<open>startWorkerWait\<close> of \<^verbatim>\<open>internal/tssbnb/execution/runtime.go\<close>).  Once the main
  loop has stopped the runtime, every worker that is still running has a way to return: the pump and
  the result worker leave their \<^verbatim>\<open>select\<close> statements, the receive worker too, its loop when the transport
  returns, and the group then ends.  So the barrier \<^verbatim>\<open>StopAndWait\<close> is never blocked by a full event channel, a
  hand-over without a taker or a message that nobody takes.
\<close>

section \<open>Every worker can return\<close>

text \<open>No worker has failed so far.\<close>

definition clean :: "('d, 'p, 'w) session \<Rightarrow> bool" where
  "clean s \<longleftrightarrow> (\<forall>w r. worker_result s w = Some r \<longrightarrow> r = None)"

text \<open>What a run on the way to the end keeps.\<close>

definition winds :: "(error option list \<Rightarrow> error option) \<Rightarrow> ('d, 'p, 'w) session \<Rightarrow> ('d, 'p, 'w) session \<Rightarrow> bool" where
  "winds grp s t \<longleftrightarrow> session_inv grp t \<and> rt_stopping (rt_of t) \<and> se_main t = se_main s \<and> exec_of t = exec_of s
     \<and> set (se_joined s) \<subseteq> set (se_joined t) \<and> (clean s \<longrightarrow> clean t)"

lemma winds_trans: "winds grp s t \<Longrightarrow> winds grp t u \<Longrightarrow> winds grp s u"
  by (auto simp: winds_def)

lemma ctx_stop: 
  "ctx_err (sessionEnv env) (se_pump s) = rt_ctxErr (rt_of s)"
  "rt_stopping (rt_of s) \<Longrightarrow> stop_error (sessionEnv env) stoppingIn (se_pump s) = None"
  by (simp_all add: sessionEnv_def rt_of_def StopError_def stoppingIn_def Stopping_def split: prod.split)

lemma winds_nil: "session_inv grp s \<Longrightarrow> rt_stopping (rt_of s) \<Longrightarrow> winds grp s s"
  by (simp add: winds_def)

text \<open>One step in which only workers move, and those that end return nil.\<close>

lemma winds_one:
  assumes "session_inv grp s" "rt_stopping (rt_of s)" "session_step env accept lib grp kind s l t"
    "rt_of t = rt_of s" "se_main t = se_main s" "exec_of t = exec_of s" "se_joined t = se_joined s"
    "\<And>w. worker_result t w = worker_result s w \<or> worker_result t w \<in> {None, Some None}"
  shows "executes (session_step env accept lib grp kind) s [l] t \<and> winds grp s t"
proof -
  have "clean t" if "clean s" unfolding clean_def
  proof (intro allI impI)
    fix w r assume "worker_result t w = Some r"
    then show "r = None" using assms(8) [of w] that by (auto simp: clean_def)
  qed
  then have "winds grp s t" using assms session_inv_step [OF assms(1,3)] by (simp add: winds_def)
  then show ?thesis using executes_one [where step = "session_step env accept lib grp kind", OF assms(3)] by blast
qed

lemma pump_returns:
  assumes "session_inv grp s" "rt_stopping (rt_of s)"
  shows "\<exists>ls t. executes (session_step env accept lib grp kind) s ls t \<and> winds grp s t \<and> worker_result t OutboundPump \<noteq> None"
proof (cases "\<exists>r. pu_pc (se_pump s) = PumpReturned r")
  case True
  then show ?thesis using winds_nil [OF assms] executes_nil by fastforce
next
  case False
  let ?t = "s\<lparr>se_pump := (se_pump s)\<lparr>pu_pc := PumpReturned None\<rparr>\<rparr>"
  have c: "ctx_err (sessionEnv env) (se_pump s) \<noteq> None"
    using assms by (simp add: ctx_stop session_inv_def runtime_inv_def)
  have "pump_step (sessionEnv env) stoppingIn kind (se_pump s) () ((se_pump s)\<lparr>pu_pc := PumpReturned None\<rparr>)"
    using False pump_ctx [OF _ c, of _ stoppingIn] drain_ctx [OF _ c, of _ stoppingIn] pump_emit_ctx [OF _ c, of _ stoppingIn]
    by (cases "pu_pc (se_pump s)") (auto simp: ctx_stop(2) [OF assms(2)])
  then have "session_step env accept lib grp kind s Internal ?t"
    by (rule pump_silent) (simp_all add: rt_of_def)
  moreover have "worker_result ?t w = worker_result s w \<or> worker_result ?t w \<in> {None, Some None}" for w by (cases w) simp_all
  ultimately have "executes (session_step env accept lib grp kind) s [Internal] ?t \<and> winds grp s ?t"
    by (intro winds_one [OF assms]) (simp_all add: rt_of_def exec_of_def)
  then show ?thesis by fastforce
qed

lemma result_worker_returns:
  assumes "session_inv grp s" "rt_stopping (rt_of s)"
  shows "\<exists>ls t. executes (session_step env accept lib grp kind) s ls t \<and> winds grp s t \<and> worker_result t ResultWorker \<noteq> None"
proof (cases "\<exists>r. pu_worker (se_pump s) = WorkerReturned r")
  case True
  then show ?thesis using winds_nil [OF assms] executes_nil by fastforce
next
  case False
  let ?t = "s\<lparr>se_pump := (se_pump s)\<lparr>pu_worker := WorkerReturned None\<rparr>\<rparr>"
  have c: "ctx_err (sessionEnv env) (se_pump s) \<noteq> None"
    using assms by (simp add: ctx_stop session_inv_def runtime_inv_def)
  have "\<exists>sig. pu_worker (se_pump s) = Selecting \<or> pu_worker (se_pump s) = Handoff sig"
    using False by (cases "pu_worker (se_pump s)") auto
  then have "pump_step (sessionEnv env) stoppingIn kind (se_pump s) () ((se_pump s)\<lparr>pu_worker := WorkerReturned None\<rparr>)"
    using pump_step.worker_ctx [OF _ c] by blast
  then have "session_step env accept lib grp kind s Internal ?t"
    by (rule pump_silent) (simp_all add: rt_of_def)
  moreover have "worker_result ?t w = worker_result s w \<or> worker_result ?t w \<in> {None, Some None}" for w by (cases w) simp_all
  ultimately have "executes (session_step env accept lib grp kind) s [Internal] ?t \<and> winds grp s ?t"
    by (intro winds_one [OF assms]) (simp_all add: rt_of_def exec_of_def)
  then show ?thesis by fastforce
qed

text \<open>The receive worker gives up, and its loop when the transport returns, at the latest with the context's error.\<close>

lemma recv_moves:
  assumes "session_inv grp s" "rt_stopping (rt_of s)"
    "recv_step (rc_MaxFrameBytes (ex_cfg (exec_of s))) (nat (rc_InboundQueueCap (ex_cfg (exec_of s)))) (se_recv s) l r"
    "recv_allowed (rt_of s) l" "rs_events r = rs_events (se_recv s)"
  shows "executes (session_step env accept lib grp kind) s [Internal] (s\<lparr>se_recv := r\<rparr>) \<and> winds grp s (s\<lparr>se_recv := r\<rparr>)"
proof -
  have "worker_result (s\<lparr>se_recv := r\<rparr>) w = worker_result s w \<or> worker_result (s\<lparr>se_recv := r\<rparr>) w \<in> {None, Some None}" for w
    by (cases w) simp_all
  with recv_silent [OF assms(3-5)] show ?thesis
    by (intro winds_one [OF assms(1,2)]) (simp_all add: rt_of_def exec_of_def)
qed

lemma recv_worker_returns:
  assumes "session_inv grp s" "rt_stopping (rt_of s)"
  shows "\<exists>ls t. executes (session_step env accept lib grp kind) s ls t \<and> winds grp s t \<and> worker_result t RecvWorker \<noteq> None"
proof -
  let ?ex = "executes (session_step env accept lib grp kind)"
  have c: "rt_ctxErr (rt_of s) \<noteq> None" using assms by (simp add: session_inv_def runtime_inv_def)
  have 1: "\<exists>ls t. ?ex s ls t \<and> winds grp s t \<and> \<not> rs_worker (se_recv t)"
  proof (cases "rs_worker (se_recv s)")
    case True
    from recv_moves [OF assms recv_step.worker_ctx [OF True]] c show ?thesis by fastforce
  next
    case False
    then show ?thesis using winds_nil [OF assms] executes_nil by fastforce
  qed
  then obtain ls t where t: "?ex s ls t" "winds grp s t" "\<not> rs_worker (se_recv t)" by blast
  have i: "session_inv grp t" "rt_stopping (rt_of t)" using t(2) by (simp_all add: winds_def)
  show ?thesis
  proof (cases "rs_loop (se_recv t)")
    case True
    let ?u = "t\<lparr>se_recv := stopLoop (Sentinel ContextCanceled) (se_recv t)\<rparr>"
    have u: "?ex t [Internal] ?u \<and> winds grp t ?u"
      using recv_moves [OF i recv_step.loop [OF True, where r = "Inl (Sentinel ContextCanceled)" and d = None]]
      by (simp add: recvLoopIteration_def stopLoop_def)
    have "?ex s (ls @ [Internal]) ?u" by (rule executes_trans [OF conjunct1 [OF u] t(1)])
    moreover have "winds grp s ?u" by (rule winds_trans [OF t(2) conjunct2 [OF u]])
    moreover have "worker_result ?u RecvWorker \<noteq> None" using t(3) by (simp add: stopLoop_def)
    ultimately show ?thesis by blast
  next
    case False
    with t show ?thesis by fastforce
  qed
qed

lemma worker_returns:
  assumes "session_inv grp s" "rt_stopping (rt_of s)"
  shows "\<exists>ls t. executes (session_step env accept lib grp kind) s ls t \<and> winds grp s t \<and> worker_result t w \<noteq> None"
proof (cases "worker_result s w")
  case None
  have c: "rt_ctxErr (rt_of s) \<noteq> None" using assms by (simp add: session_inv_def runtime_inv_def)
  show ?thesis
  proof (cases w)
    case Watchdog
    let ?t = "s\<lparr>se_watch := Some None\<rparr>"
    have "session_step env accept lib grp kind s Internal ?t" using None Watchdog c by (intro watch_ctx) simp_all
    moreover have "worker_result ?t w = worker_result s w \<or> worker_result ?t w \<in> {None, Some None}" for w by (cases w) simp_all
    ultimately have "executes (session_step env accept lib grp kind) s [Internal] ?t \<and> winds grp s ?t"
      by (intro winds_one [OF assms]) (simp_all add: rt_of_def exec_of_def)
    then show ?thesis using Watchdog by fastforce
  next
    case PartyStart
    let ?t = "s\<lparr>se_start := Some None\<rparr>"
    have "session_step env accept lib grp kind s Internal ?t" using None PartyStart by (intro party_started) simp_all
    moreover have "worker_result ?t w = worker_result s w \<or> worker_result ?t w \<in> {None, Some None}" for w by (cases w) simp_all
    ultimately have "executes (session_step env accept lib grp kind) s [Internal] ?t \<and> winds grp s ?t"
      by (intro winds_one [OF assms]) (simp_all add: rt_of_def exec_of_def)
    then show ?thesis using PartyStart by fastforce
  next
    case OutboundPump
    show ?thesis unfolding OutboundPump by (rule pump_returns [OF assms])
  next
    case RecvWorker
    show ?thesis unfolding RecvWorker by (rule recv_worker_returns [OF assms])
  next
    case ResultWorker
    show ?thesis unfolding ResultWorker by (rule result_worker_returns [OF assms])
  qed
next
  case (Some r)
  then show ?thesis by (intro exI [of _ "[]"] exI [of _ s]) (simp add: executes_nil winds_nil [OF assms])
qed

lemma worker_joins:
  assumes "session_inv grp s" "rt_stopping (rt_of s)"
  shows "\<exists>ls t. executes (session_step env accept lib grp kind) s ls t \<and> winds grp s t \<and> w \<in> set (se_joined t)"
proof -
  let ?step = "session_step env accept lib grp kind"
  obtain ls t r where t: "executes ?step s ls t" "winds grp s t" "worker_result t w = Some r"
    using worker_returns [OF assms, of env accept lib kind w] by blast
  show ?thesis
  proof (cases "w \<in> set (se_joined t)")
    case True
    with t show ?thesis by blast
  next
    case False
    let ?u = "upd_rt (groupReturn r) (t\<lparr>se_joined := se_joined t @ [w]\<rparr>)"
    have st: "?step t Internal ?u" by (rule join [OF t(3) False])
    have "rt_stopping (rt_of ?u) = rt_stopping (rt_of t)" "exec_of ?u = exec_of t"
      by (simp_all add: groupReturn_def Let_def rt_of_def exec_of_def)
    then have "winds grp t ?u"
      using session_inv_step [OF _ st] t(2) by (auto simp: winds_def clean_def)
    with executes_snoc [OF t(1) st] winds_trans [OF t(2)] show ?thesis by fastforce
  qed
qed

lemma all_join:
  assumes "session_inv grp s" "rt_stopping (rt_of s)"
  shows "\<exists>ls t. executes (session_step env accept lib grp kind) s ls t \<and> winds grp s t \<and> set ws \<subseteq> set (se_joined t)"
proof (induction ws)
  case Nil
  then show ?case using winds_nil [OF assms] executes_nil by fastforce
next
  case (Cons w ws)
  let ?step = "session_step env accept lib grp kind"
  obtain ls t where t: "executes ?step s ls t" "winds grp s t" "set ws \<subseteq> set (se_joined t)" using Cons by blast
  then have "session_inv grp t" "rt_stopping (rt_of t)" by (simp_all add: winds_def)
  from worker_joins [OF this] obtain ls' u where u: "executes ?step t ls' u" "winds grp t u" "w \<in> set (se_joined u)" by blast
  have "executes ?step s (ls @ ls') u" by (rule executes_trans [OF u(1) t(1)])
  moreover have "winds grp s u" by (rule winds_trans [OF t(2) u(2)])
  moreover have "set (w # ws) \<subseteq> set (se_joined u)" using t(3) u(2,3) by (auto simp: winds_def)
  ultimately show ?case by blast
qed

lemma group_ends:
  assumes "session_inv grp s" "rt_stopping (rt_of s)"
  shows "\<exists>ls t. executes (session_step env accept lib grp kind) s ls t \<and> winds grp s t \<and> rt_workersDone (rt_of t)"
proof -
  let ?step = "session_step env accept lib grp kind"
  obtain ls t where t: "executes ?step s ls t" "winds grp s t" "set all_workers \<subseteq> set (se_joined t)"
    using all_join [OF assms] by blast
  show ?thesis
  proof (cases "rt_workersDone (rt_of t)")
    case False
    let ?u = "upd_rt (startWorkerWait grp) t"
    have st: "?step t Internal ?u" by (rule group_wait [OF t(3) False])
    then have "winds grp t ?u"
      using session_inv_step [OF _ st] t(2) by (auto simp: winds_def clean_def startWorkerWait_def)
    moreover have "rt_workersDone (rt_of ?u)" by (simp add: startWorkerWait_def)
    ultimately show ?thesis using executes_snoc [OF t(1) st] winds_trans [OF t(2)] by blast
  qed (use t in blast)
qed

lemma list_all2_right: "list_all2 P xs ys \<Longrightarrow> y \<in> set ys \<Longrightarrow> \<exists>x\<in>set xs. P x y"
  by (induction rule: list_all2_induct) auto

lemma mainFinish_returns: "\<exists>st err. se_main (mainFinish tm g s) = MainReturned st err"
  by (simp add: mainFinish_def split: terminal.split prod.split)

lemma stopping_returns:
  assumes "executes (session_step env accept lib grp kind) (startSession env (New params) w parentErr) ls s"
    and "se_main s = MainStopping tm" "wf_errgroup grp"
  shows "\<exists>ls' t st err. executes (session_step env accept lib grp kind) s ls' t \<and> se_main t = MainReturned st err
    \<and> (tm = TermEvent ''success'' None \<and> clean s \<longrightarrow> st = ''success'' \<and> err = None)"
proof -
  let ?step = "session_step env accept lib grp kind"
  have inv: "session_inv grp s"
    by (rule session_runs.inv_executes [OF assms(1)]) (rule session_inv_start [OF New_unpublished])
  then have "rt_stopping (rt_of s)" using assms(2) by (simp add: session_inv_def main_inv_def)
  from group_ends [OF inv this, of env accept lib kind] obtain ls' t where
    t: "executes ?step s ls' t" "winds grp s t" "rt_workersDone (rt_of t)" by blast
  have i: "session_inv grp t" "se_main t = MainStopping tm" using t(2) assms(2) by (simp_all add: winds_def)
  let ?u = "mainFinish tm (rt_workerErr (rt_of t)) t"
  have "?step t Internal ?u" using i(2) t(3) by (intro main_stopped) (simp_all add: Wait_def)
  with t(1) have x: "executes ?step s (ls' @ [Internal]) ?u" by (rule executes_snoc)
  obtain st err where m: "se_main ?u = MainReturned st err"
    using mainFinish_returns by blast
  have "st = ''success'' \<and> err = None" if a: "tm = TermEvent ''success'' None" "clean s"
  proof -
    have "clean t" using t(2) a(2) by (simp add: winds_def)
    then have c: "worker_result t w = Some r \<Longrightarrow> r = None" for w r by (simp add: clean_def)
    have l: "list_all2 (\<lambda>w r. worker_result t w = Some r) (se_joined t) (rt_returned (rt_of t))"
      using i(1) by (simp add: session_inv_def runtime_inv_def)
    have "set (rt_returned (rt_of t)) \<subseteq> {None}"
    proof
      fix r assume "r \<in> set (rt_returned (rt_of t))"
      from list_all2_right [OF l this] c show "r \<in> {None}" by blast
    qed
    then have "rt_workerErr (rt_of t) = None"
      using i(1) t(3) errgroup_none [OF assms(3)] by (simp add: session_inv_def runtime_inv_def)
    with m a(1) show ?thesis by (simp add: mainFinish_def finishTerminalEvent_def)
  qed
  with x m show ?thesis by blast
qed

section \<open>A session\<close>

text \<open>
  A key generation over a transport that takes every frame: one message is sent, tss-lib publishes a
  share, the pump emits it and the main loop takes it.
\<close>

definition first_error :: "error option list \<Rightarrow> error option" where
  "first_error rs = (case filter (\<lambda>r. r \<noteq> None) rs of [] \<Rightarrow> None | r # _ \<Rightarrow> r)"

lemma wf_first_error: "wf_errgroup first_error"
  by (simp add: wf_errgroup_def first_error_def)

definition plain_share :: LocalPartySaveData where
  "plain_share = \<lparr>sp_ECDSAPub = None, sp_BigXj = [], sp_Ks = [], sp_Rest = []\<rparr>"

abbreviation "sample_step \<equiv> session_step open_env (ShouldAccept (\<lambda>m. m)) sample_lib first_error ECDSADKG"
abbreviation "sample_start \<equiv> startSession open_env (New sample_params) () None"

lemma sample_message_sent:
  assumes "rc_MaxFrameBytes (ex_cfg e) = 100" "rt_ctxErr rt = None"
  shows "\<exists>e'. forwardProtocolMessage (sessionEnv open_env) stoppingIn sample_message (e, (), rt) = ((e', (), rt), None, False)"
  using assms
  by (simp add: forwardProtocolMessage_def forwardOutgoing_def trackedEnv_def sessionEnv_def open_env_def newOutboundBaseFrame_def
      sendFrame_def markProgress_def sample_message_def Let_def observe_def split: prod.splits)

lemma lift_pump:
  assumes "executes sample_step s ls t" "pump_step (sessionEnv open_env) stoppingIn ECDSADKG (se_pump t) () p"
    "snd (snd (pu_state p)) = snd (snd (pu_state (se_pump t)))" "pu_events p = pu_events (se_pump t)"
  shows "\<exists>ls. executes sample_step s ls (t\<lparr>se_pump := p\<rparr>)"
  using executes_snoc [OF assms(1) pump_silent [OF assms(2)]] assms(3,4) by (auto simp: rt_of_def)

lemma sample_session_emitting:
  "\<exists>ls e rt p. executes sample_step sample_start ls (sample_start\<lparr>se_pump := p\<rparr>) \<and> pu_state p = (e, (), rt)
     \<and> pu_pc p = PumpEmit (shareResult plain_share) \<and> pu_events p = [] \<and> pu_worker p = Selecting
     \<and> rt_Events rt = [] \<and> 0 < rt_eventBuf rt"
proof -
  let ?pstep = "pump_step (sessionEnv open_env) stoppingIn ECDSADKG"
  let ?s0 = sample_start
  let ?m = sample_message
  let ?r = "shareResult plain_share"
  let ?p0 = "se_pump ?s0"
  obtain e rt where st: "pu_state ?p0 = (e, (), rt)" by (metis prod.exhaust old.unit.exhaust)
  have rt: "rt_ctxErr rt = None" "rt_Events rt = []" "0 < rt_eventBuf rt" and e: "rc_MaxFrameBytes (ex_cfg e) = 100"
    using st markProgress_rt [of open_env "''start''" 0 "(New sample_params, (), newSessionRuntime None (rc_InboundQueueCap (ex_cfg (New sample_params)) + 8))"]
      markProgress_keeps(2) [of "sessionEnv open_env" "''start''" 0 "(New sample_params, (), newSessionRuntime None (rc_InboundQueueCap (ex_cfg (New sample_params)) + 8))"]
    by (auto simp: startSession_def startWorkers_def newSessionRuntime_def identity_def sample_session)
  have f: "pu_out ?p0 = []" "\<not> pu_outClosed ?p0" "pu_result ?p0 = None" "pu_pc ?p0 = PumpLoop False" "\<not> pu_endClosed ?p0"
      "pu_events ?p0 = []" "pu_worker ?p0 = Selecting"
    by (simp_all add: startSession_def startWorkers_def)
  obtain e' where fw: "forwardProtocolMessage (sessionEnv open_env) stoppingIn ?m (e, (), rt) = ((e', (), rt), None, False)"
    using sample_message_sent [OF e rt(1)] by blast
  have cx: "en_CtxErr (sessionEnv open_env) (w, rt) = None" for w using rt(1) by (simp add: sessionEnv_def)
  let ?p1 = "?p0\<lparr>pu_out := [?m], pu_produced := pu_produced ?p0 @ [?m]\<rparr>"
  let ?p2 = "?p1\<lparr>pu_state := (e', (), rt), pu_out := [], pu_forwarded := pu_forwarded ?p0 @ [?m]\<rparr>"
  let ?p3 = "?p2\<lparr>pu_result := Some ?r, pu_dkgEnd := Some plain_share\<rparr>"
  let ?p4 = "?p3\<lparr>pu_pc := PumpDrain ?r, pu_dkgEnd := None\<rparr>"
  let ?p5 = "?p4\<lparr>pu_pc := PumpEmit ?r\<rparr>"
  have 1: "?pstep ?p0 () ?p1" using lib_produce [of ?p0 "sessionEnv open_env" stoppingIn ECDSADKG ?m] f by simp
  have 2: "?pstep ?p1 () ?p2"
    using pump_message [of ?p1 "sessionEnv open_env" stoppingIn ECDSADKG] f st fw by (simp add: pumpForward_def)
  have 3: "?pstep ?p2 () ?p3" using lib_share [of ?p2 ECDSADKG "sessionEnv open_env" stoppingIn plain_share] f by simp
  have 4: "?pstep ?p3 () ?p4" using pump_share [of ?p3 False plain_share "sessionEnv open_env" stoppingIn ECDSADKG] f by simp
  have 5: "?pstep ?p4 () ?p5" using drain_empty [of ?p4 ?r "sessionEnv open_env" stoppingIn ECDSADKG] f cx by simp
  obtain l1 where x1: "executes sample_step ?s0 l1 (?s0\<lparr>se_pump := ?p1\<rparr>)"
    using lift_pump [OF executes_nil [of sample_step ?s0] 1] by auto
  obtain l2 where x2: "executes sample_step ?s0 l2 (?s0\<lparr>se_pump := ?p2\<rparr>)" using lift_pump [OF x1, of ?p2] 2 st by auto
  obtain l3 where x3: "executes sample_step ?s0 l3 (?s0\<lparr>se_pump := ?p3\<rparr>)" using lift_pump [OF x2, of ?p3] 3 by auto
  obtain l4 where x4: "executes sample_step ?s0 l4 (?s0\<lparr>se_pump := ?p4\<rparr>)" using lift_pump [OF x3, of ?p4] 4 by auto
  obtain l5 where x5: "executes sample_step ?s0 l5 (?s0\<lparr>se_pump := ?p5\<rparr>)" using lift_pump [OF x4, of ?p5] 5 by auto
  show ?thesis
    by (rule exI [of _ l5], rule exI [of _ e'], rule exI [of _ rt], rule exI [of _ ?p5]) (use x5 rt f in simp)
qed

lemma sample_session_stopping:
  "\<exists>ls s. executes sample_step sample_start ls s \<and> se_main s = MainStopping (TermEvent ''success'' None) \<and> clean s"
proof -
  let ?s0 = sample_start
  let ?r = "shareResult plain_share"
  obtain l5 e rt p where x5: "executes sample_step ?s0 l5 (?s0\<lparr>se_pump := p\<rparr>)" and p: "pu_state p = (e, (), rt)"
      "pu_pc p = PumpEmit ?r" "pu_events p = []" "pu_worker p = Selecting" and rt: "rt_Events rt = []" "0 < rt_eventBuf rt"
    using sample_session_emitting by blast
  have f: "se_main ?s0 = MainLoop" "se_watch ?s0 = None" "se_start ?s0 = None" "rs_worker (se_recv ?s0)" "se_parentErr ?s0 = None"
    by (simp_all add: startSession_def startWorkers_def initRecv_def)
  let ?p6 = "emitProtocolDone ?r p"
  let ?rt = "rt\<lparr>rt_Events := [eventProtocolDone ?r]\<rparr>"
  let ?s6 = "upd_rt (\<lambda>_. ?rt) (?s0\<lparr>se_pump := ?p6\<rparr>)"
  have "sample_step (?s0\<lparr>se_pump := p\<rparr>) Internal (upd_rt (\<lambda>_. ?rt) ((?s0\<lparr>se_pump := p\<rparr>)\<lparr>se_pump := ?p6\<rparr>))"
    by (rule pump_emits [where r = ?r])
       (use rt p pump_emit [OF p(2)] in \<open>simp_all add: rt_of_def Emit_def emitProtocolDone_def\<close>)
  then have x6: "executes sample_step ?s0 (l5 @ [Internal]) ?s6" using executes_snoc [OF x5] by simp
  have k6: "rt_of ?s6 = ?rt" "exec_of ?s6 = e" "se_main ?s6 = MainLoop" "se_parentErr ?s6 = None"
    using f p by (simp_all add: exec_of_def emitProtocolDone_def)
  let ?s7 = "mainEvent open_env (ShouldAccept (\<lambda>m. m)) sample_lib (eventProtocolDone ?r) (upd_rt (\<lambda>rt. rt\<lparr>rt_Events := []\<rparr>) ?s6)"
  have "sample_step ?s6 (MainTook (eventProtocolDone ?r)) ?s7"
    by (rule main_event) (use k6 in simp_all)
  with x6 have "executes sample_step ?s0 ((l5 @ [Internal]) @ [MainTook (eventProtocolDone ?r)]) ?s7" by (rule executes_snoc)
  moreover have "se_main ?s7 = MainStopping (TermEvent ''success'' None)"
    using k6 by (simp add: mainEvent_def handleEvent_def shareResult_def split: prod.splits)
  moreover have w: "worker_result ?s7 w = worker_result (?s0\<lparr>se_pump := ?p6\<rparr>) w" for w
    using k6 by (simp add: mainEvent_def handleEvent_def split: prod.splits)
  have "clean ?s7" unfolding clean_def w
  proof (intro allI impI)
    fix w r assume "worker_result (?s0\<lparr>se_pump := ?p6\<rparr>) w = Some r"
    then show "r = None" using f p(4) by (cases w) (simp_all add: emitProtocolDone_def)
  qed
  ultimately show ?thesis by blast
qed

lemma sample_session_returns:
  "\<exists>ls s. executes sample_step sample_start ls s \<and> se_main s = MainReturned ''success'' None"
proof -
  obtain ls s where s: "executes sample_step sample_start ls s" "se_main s = MainStopping (TermEvent ''success'' None)" "clean s"
    using sample_session_stopping by blast
  from stopping_returns [OF s(1,2) wf_first_error] s(3) obtain ls' t where
    t: "executes sample_step s ls' t" "se_main t = MainReturned ''success'' None" by blast
  from executes_trans [OF t(1) s(1)] t(2) show ?thesis by blast
qed

section \<open>Properties\<close>



text \<open>
  C14.  A session that is stopping is never stuck: from every state it can reach, steps of its own
  goroutines lead to its return.  When it is stopping on a published result and no worker has failed,
  it can return that success.
\<close>

theorem session_can_return:
  assumes "executes (session_step env accept lib grp kind) (startSession env (New params) w parentErr) ls s"
    and "se_main s = MainStopping tm" "wf_errgroup grp"
  shows "\<exists>ls' t st err. executes (session_step env accept lib grp kind) s ls' t \<and> se_main t = MainReturned st err
    \<and> (tm = TermEvent ''success'' None \<and> clean s \<longrightarrow> st = ''success'' \<and> err = None)"
  by (rule stopping_returns [OF assms])

theorem session_can_return_witness:
  "\<exists>ls s ls' t. executes sample_step sample_start ls s \<and> se_main s = MainStopping (TermEvent ''success'' None)
     \<and> executes sample_step s ls' t \<and> se_main t = MainReturned ''success'' None"
proof -
  obtain ls s where s: "executes sample_step sample_start ls s" "se_main s = MainStopping (TermEvent ''success'' None)" "clean s"
    using sample_session_stopping by blast
  from session_can_return [OF s(1,2) wf_first_error] s show ?thesis by blast
qed

end
