(* ===== verification/Session_Refinement.thy ===== *)
theory Session_Refinement
  imports Session_Shutdown
begin

text \<open>
  The transition system of the goroutines refines \<open>Run\<close>, the main loop over a sequence of occurrences, on
  which the theorems of \<open>Execution\<close>, \<open>Session_Flow\<close> and \<open>Service\<close> rest.  The simulation relates the parts of the
  execution's record that the main loop reads and decides on (\<open>core\<close>): progress marks and counters, which
  the pump and the watchdog also write, are not among them.  The clock that \<open>Run\<close> reads is the sequence of
  the times that the main loop read.
\<close>

section \<open>The occurrences of a session\<close>

text \<open>A clock that is a list of times; the main loop reads nothing else of the world.\<close>

definition clockEnv :: "int list env" where
  "clockEnv = \<lparr>en_Now = (\<lambda>ts. case ts of [] \<Rightarrow> ([], 0) | n # ts' \<Rightarrow> (ts', n)), en_CtxErr = (\<lambda>_. None),
     en_SendFrame = (\<lambda>ts _. (ts, None)), en_Rand = (\<lambda>ts. (ts, []))\<rparr>"

lemma markProgress_clock:
  "\<exists>n e2'. core e2' = core e2 \<and> (\<forall>rest. markProgress clockEnv m r (e2, n # rest) = (e2', rest))"
proof -
  let ?e = "fst (markProgress clockEnv m r (e2, [0]))"
  have "core ?e = core e2" by simp
  moreover have "\<forall>rest. markProgress clockEnv m r (e2, 0 # rest) = (?e, rest)"
    by (simp add: markProgress_def clockEnv_def Let_def)
  ultimately show ?thesis by blast
qed

lemma core_eqD:
  assumes "core e = core e2"
  shows "ex_sessionID e = ex_sessionID e2" "ex_stage e = ex_stage e2" "ex_derivationContextHash e = ex_derivationContextHash e2"
    "ex_partyIDs e = ex_partyIDs e2" "ex_party e = ex_party e2" "ex_deduper e = ex_deduper e2"
    "ex_protocolDoneFlag e = ex_protocolDoneFlag e2"
  using assms by (simp_all add: core_def outcome_def identity_def)

lemma core_updates:
  assumes "core e = core e2"
  shows "core (e\<lparr>ex_deduper := d\<rparr>) = core (e2\<lparr>ex_deduper := d\<rparr>)" "core (e\<lparr>ex_party := p\<rparr>) = core (e2\<lparr>ex_party := p\<rparr>)"
    "core (e\<lparr>ex_stats := st\<rparr>) = core e" "core (e\<lparr>ex_lastRecvSeq := q\<rparr>) = core e"
    "core (e\<lparr>ex_ecdsaKeyShare := a, ex_signature := b, ex_protocolDoneFlag := c\<rparr>)
       = core (e2\<lparr>ex_ecdsaKeyShare := a, ex_signature := b, ex_protocolDoneFlag := c\<rparr>)"
  using assms by (simp_all add: core_def outcome_def identity_def)

lemma shouldProcess_clock:
  assumes "core e = core e2" "shouldProcessInbound env accept f (e, t) = ((e', t'), r)"
  shows "\<exists>n e2'. core e2' = core e' \<and> (\<forall>rest. shouldProcessInbound clockEnv accept f (e2, n # rest) = ((e2', rest), r))"
proof -
  obtain t1 now where n: "en_Now env t = (t1, now)" by fastforce
  obtain d x where a: "accept now (ex_deduper e) f = (d, x)" by fastforce
  note c = core_eqD [OF assms(1)] core_updates [OF assms(1)]
  have k: "core ((e2\<lparr>ex_deduper := d\<rparr>)\<lparr>ex_stats := st\<rparr>) = core (e2\<lparr>ex_deduper := d\<rparr>)" for st
    by (simp add: core_def outcome_def identity_def)
  have k': "core ((e\<lparr>ex_deduper := d\<rparr>)\<lparr>ex_stats := st\<rparr>) = core (e\<lparr>ex_deduper := d\<rparr>)" for st
    by (simp add: core_def outcome_def identity_def)
  show ?thesis
  proof (cases x)
    case (Inl err)
    then show ?thesis
      using assms(2) n a c(6,8) k k'
      by (intro exI [of _ now]) (auto simp: shouldProcessInbound_def clockEnv_def Let_def split: if_splits)
  next
    case (Inr ok)
    then show ?thesis
      using assms(2) n a c(6,8) by (intro exI [of _ now]) (auto simp: shouldProcessInbound_def clockEnv_def Let_def)
  qed
qed

lemma handleIncoming_clock:
  assumes "core e = core e2" "handleIncoming env accept lib f (e, t) = ((e', t'), r)"
  shows "\<exists>ts e2'. core e2' = core e' \<and> (\<forall>rest. handleIncoming clockEnv accept lib f (e2, ts @ rest) = ((e2', rest), r))"
proof (cases "fr_SessionID f = ex_sessionID e \<and> validateDerivationContextHash e f = None")
  case False
  then have "\<exists>err. (\<forall>s. fst s = e2 \<longrightarrow> validateInbound clockEnv accept f s = (s, Some err)) \<and> validateInbound env accept f (e, t) = ((e, t), Some err)"
    using core_eqD [OF assms(1)] by (auto simp: validateInbound_def validateDerivationContextHash_def split: if_splits)
  then show ?thesis
    using assms by (intro exI [of _ "[]"] exI [of _ e2]) (auto simp: handleIncoming_def split: if_splits)
next
  case True
  then have a2: "fr_SessionID f = ex_sessionID e2" "validateDerivationContextHash e2 f = None"
    using core_eqD [OF assms(1)] by (auto simp: validateDerivationContextHash_def split: if_splits)
  obtain e1 t1 x where p: "shouldProcessInbound env accept f (e, t) = ((e1, t1), x)" by (metis prod.exhaust)
  from shouldProcess_clock [OF assms(1) p] obtain n e3 where
    q: "core e3 = core e1" "\<And>rest. shouldProcessInbound clockEnv accept f (e2, n # rest) = ((e3, rest), x)" by blast
  note c = core_eqD [OF q(1)] core_updates [OF q(1)]
  show ?thesis
  proof (cases x)
    case (Inl err)
    then show ?thesis
      using assms(2) True a2 p q
      by (intro exI [of _ "[n]"] exI [of _ e3]) (auto simp: handleIncoming_def validateInbound_def split: if_splits)
  next
    case (Inr ok)
    have v: "validateInbound env accept f (e, t) = ((e1, t1), None)" using True p Inr by (simp add: validateInbound_def)
    have v2: "validateInbound clockEnv accept f (e2, n # rest) = ((e3, rest), None)" for rest
      using a2 q(2) Inr by (simp add: validateInbound_def)
    have pa: "parseInbound lib e3 f = parseInbound lib e1 f" using c(4) by (simp add: parseInbound_def)
    show ?thesis
    proof (cases "parseInbound lib e1 f")
      case (Inl err)
      then show ?thesis
        using assms(2) v v2 pa q(1) by (intro exI [of _ "[n]"] exI [of _ e3]) (auto simp: handleIncoming_def)
    next
      case (Inr m)
      obtain p' er where u: "tl_Update lib (ex_party e1) m = (p', er)" by fastforce
      have "handleIncoming clockEnv accept lib f (e2, [n] @ rest) = ((e3\<lparr>ex_party := p'\<rparr>, rest), r)" for rest
        using assms(2) v v2 pa Inr u c(5) by (auto simp: handleIncoming_def applyInbound_def split: option.splits)
      moreover have "e' = e1\<lparr>ex_party := p'\<rparr>"
        using assms(2) v Inr u by (auto simp: handleIncoming_def applyInbound_def split: option.splits)
      ultimately show ?thesis using c(9) by blast
    qed
  qed
qed

lemma handleEvent_clock:
  assumes "core e = core e2" "handleEvent env accept lib ctxErr ev (e, t) = ((e', t'), r)"
  shows "\<exists>ts e2'. core e2' = core e' \<and> (\<forall>rest. handleEvent clockEnv accept lib ctxErr ev (e2, ts @ rest) = ((e2', rest), r))"
proof (cases ev)
  case (eventInboundFrame f)
  let ?up = "\<lambda>e. (observe (FramesRecv (ex_stage e)) (e\<lparr>ex_stats := IncRecv (ex_stats e)\<rparr>))\<lparr>ex_lastRecvSeq := fr_Seq f\<rparr>"
  let ?mp = "\<lambda>env s. markProgress env (fr_MessageType f) (fr_RoundHint f) s"
  have up: "core (?up x) = core x" for x by (simp add: core_def outcome_def identity_def observe_def)
  have hv: "handleEvent env accept lib ctxErr ev (x, w) = (case handleIncoming env accept lib f (?mp env (?up x, w)) of
      (s2, Some err) \<Rightarrow> (s2, Some (''failed'', Some err)) | (s2, None) \<Rightarrow> (?mp env s2, None))" for env x w
    by (simp add: handleEvent_def eventInboundFrame Let_def observe_def)
  obtain n e3 where 1: "core e3 = core (?up e2)" "\<And>rest. ?mp clockEnv (?up e2, n # rest) = (e3, rest)"
    using markProgress_clock [of "?up e2" "fr_MessageType f" "fr_RoundHint f"] by blast
  obtain e1 t1 where m: "?mp env (?up e, t) = (e1, t1)" by fastforce
  obtain e4 t4 x where h: "handleIncoming env accept lib f (e1, t1) = ((e4, t4), x)" by (metis prod.exhaust)
  have "core e1 = core (?up e)" using core_markProgress [of env "fr_MessageType f" "fr_RoundHint f" "(?up e, t)"] m by simp
  also have "\<dots> = core e" by (rule up)
  also have "\<dots> = core e2" by (rule assms(1))
  also have "\<dots> = core (?up e2)" by (rule up [symmetric])
  finally have "core e1 = core e3" using 1(1) by simp
  from handleIncoming_clock [OF this h] obtain ts e5 where
    2: "core e5 = core e4" "\<And>rest. handleIncoming clockEnv accept lib f (e3, ts @ rest) = ((e5, rest), x)" by blast
  show ?thesis
  proof (cases x)
    case (Some err)
    then show ?thesis
      using assms(2) hv [of env e t] m h 1(2) 2 hv [of clockEnv e2]
      by (intro exI [of _ "n # ts"] exI [of _ e5]) auto
  next
    case None
    obtain n' e6 where 3: "core e6 = core e5" "\<And>rest. ?mp clockEnv (e5, n' # rest) = (e6, rest)"
      using markProgress_clock [of e5 "fr_MessageType f" "fr_RoundHint f"] by blast
    have "core e' = core e4" "r = None"
      using assms(2) hv [of env e t] m h None core_markProgress [of env "fr_MessageType f" "fr_RoundHint f" "(e4, t4)"] by auto
    moreover have "handleEvent clockEnv accept lib ctxErr ev (e2, (n # ts @ [n']) @ rest) = ((e6, rest), None)" for rest
      using hv [of clockEnv e2 "(n # ts @ [n']) @ rest"] 1(2) 2(2) 3(2) None by simp
    ultimately show ?thesis using 3(1) 2(1) by metis
  qed
next
  case (eventRecvError er)
  note c = core_eqD [OF assms(1)]
  obtain a st x where h: "handleRecvError e er = (a, st, x)" by (metis prod.exhaust)
  have "\<exists>b. handleRecvError e2 er = (b, st, x) \<and> core b = core a"
    using h assms(1) c(2,7) by (auto simp: handleRecvError_def split: option.splits if_splits)
  then obtain b where "handleRecvError e2 er = (b, st, x)" "core b = core a" by blast
  with h assms(2) show ?thesis
    by (intro exI [of _ "[]"] exI [of _ b]) (auto simp: handleEvent_def eventRecvError)
next
  case (eventProtocolDone result)
  with assms core_updates(5) [OF assms(1)] show ?thesis
    by (cases ctxErr) (auto simp: handleEvent_def intro!: exI [of _ "[]"])
qed

text \<open>The events that the main loop took, by the labels of a run and by the occurrences.\<close>

definition taken :: "sessionLabel list \<Rightarrow> protocolEvent list" where
  "taken ls = concat (map (\<lambda>l. case l of MainTook ev \<Rightarrow> [ev] | Internal \<Rightarrow> []) ls)"

definition occ_events :: "occurrence list \<Rightarrow> protocolEvent list" where
  "occ_events os = concat (map (\<lambda>oc. case oc of OccEvent ev _ _ \<Rightarrow> [ev] | _ \<Rightarrow> []) os)"

lemma taken_snoc [simp]:
  "taken (ls @ [Internal]) = taken ls" "taken (ls @ [MainTook ev]) = taken ls @ [ev]"
  by (simp_all add: taken_def)

lemma occ_events_append [simp]:
  "occ_events (os @ os') = occ_events os @ occ_events os'" "occ_events [] = []"
  "occ_events [OccEvent ev c g] = [ev]" "occ_events [OccCtxDone er] = []" "occ_events [OccWorkersDone g] = []"
  by (simp_all add: occ_events_def)

section \<open>The simulation\<close>

text \<open>The loop of \<open>Run\<close> has come, over the events taken, to a state with this core.\<close>

definition at_loop where
  "at_loop accept lib e0 evs e \<longleftrightarrow> (\<exists>ts os e2. core e2 = core e \<and> occ_events os = evs
     \<and> (\<forall>rest more. runLoop clockEnv accept lib (e0, ts @ rest) (os @ more) = runLoop clockEnv accept lib (e2, rest) more))"

definition at_event where
  "at_event accept lib e0 evs e st err \<longleftrightarrow> (\<exists>ts os e2. core e2 = core e \<and> (\<forall>g. occ_events (os g) = evs)
     \<and> (\<forall>g. runLoop clockEnv accept lib (e0, ts) (os g) = Some (finishTerminalEvent e2 st err g)))"

definition at_end where
  "at_end accept lib e0 evs e st err \<longleftrightarrow> (\<exists>ts os e2. core e2 = core e \<and> occ_events os = evs
     \<and> runLoop clockEnv accept lib (e0, ts) os = Some (e2, st, err))"

definition simulated where
  "simulated accept lib e0 evs s \<longleftrightarrow>
     (case se_main s of
        MainLoop \<Rightarrow> at_loop accept lib e0 evs (exec_of s)
      | MainStopping (TermCanceled err) \<Rightarrow> at_loop accept lib e0 evs (exec_of s)
      | MainStopping TermPanic \<Rightarrow>
          at_end accept lib e0 evs (exec_of s) ''panic'' (Some (errors_New ''tss protocol loop panic''))
      | MainStopping (TermEvent st err) \<Rightarrow> at_event accept lib e0 evs (exec_of s) st err
      | MainReturned st err \<Rightarrow> at_end accept lib e0 evs (exec_of s) st err)"

lemma simulated_frame:
  assumes "simulated accept lib e0 evs s" "core (exec_of t) = core (exec_of s)" "se_main t = se_main s"
  shows "simulated accept lib e0 evs t"
  using assms by (simp add: simulated_def at_loop_def at_event_def at_end_def split: mainPc.splits terminal.splits)

lemma at_loop_ends:
  assumes "at_loop accept lib e0 evs e"
    "\<And>e2 rest. core e2 = core e \<Longrightarrow> \<exists>e3. core e3 = core e' \<and> runLoop clockEnv accept lib (e2, rest) [oc] = Some (e3, st, err)"
    "occ_events [oc] = evs'"
  shows "at_end accept lib e0 (evs @ evs') e' st err"
proof -
  obtain ts os e2 where l: "core e2 = core e" "occ_events os = evs"
      "\<And>rest more. runLoop clockEnv accept lib (e0, ts @ rest) (os @ more) = runLoop clockEnv accept lib (e2, rest) more"
    using assms(1) by (auto simp: at_loop_def)
  obtain e3 where "core e3 = core e'" "runLoop clockEnv accept lib (e2, []) [oc] = Some (e3, st, err)" using assms(2) [OF l(1)] by blast
  with l(3) [of "[]" "[oc]"] l(2) assms(3) show ?thesis
    unfolding at_end_def by (intro exI [of _ ts] exI [of _ "os @ [oc]"] exI [of _ e3]) simp
qed

lemma simulated_event:
  assumes "at_loop accept lib e0 evs (exec_of s)" "se_main s = MainLoop"
  shows "simulated accept lib e0 (evs @ [ev]) (mainEvent env accept lib ev s)"
proof -
  obtain ts os e2 where l: "core e2 = core (exec_of s)" "occ_events os = evs"
      "\<And>rest more. runLoop clockEnv accept lib (e0, ts @ rest) (os @ more) = runLoop clockEnv accept lib (e2, rest) more"
    using assms(1) by (auto simp: at_loop_def)
  obtain e t where p: "pu_state (se_pump s) = (e, t)" by (cases "pu_state (se_pump s)")
  obtain e' t' r where h: "handleEvent (sessionEnv env) accept lib (se_parentErr s) ev (e, t) = ((e', t'), r)" by (metis prod.exhaust)
  have "core e = core e2" using l(1) p by (simp add: exec_of_def)
  from handleEvent_clock [OF this h] obtain ts' e3 where
    c: "core e3 = core e'" "\<And>rest. handleEvent clockEnv accept lib (se_parentErr s) ev (e2, ts' @ rest) = ((e3, rest), r)" by blast
  let ?oc = "OccEvent ev (se_parentErr s)"
  have x: "runLoop clockEnv accept lib (e0, (ts @ ts') @ rest) ((os @ [?oc g]) @ more)
      = runLoop clockEnv accept lib (e2, ts' @ rest) (?oc g # more)" for rest g more
    using l(3) [of "ts' @ rest" "?oc g # more"] by simp
  show ?thesis
  proof (cases r)
    case None
    have "at_loop accept lib e0 (evs @ [ev]) e'" unfolding at_loop_def
      using l(2) c x None by (intro exI [of _ "ts @ ts'"] exI [of _ "os @ [?oc None]"] exI [of _ e3]) simp
    then show ?thesis using assms(2) by (simp add: mainEvent_def p h None simulated_def)
  next
    case (Some y)
    obtain st err where y: "y = (st, err)" by fastforce
    show ?thesis
    proof (cases "case err of Some er \<Rightarrow> is_panic er | None \<Rightarrow> False")
      case True
      have "at_end accept lib e0 (evs @ [ev]) e' ''panic'' (Some (errors_New ''tss protocol loop panic''))" unfolding at_end_def
        using l(2) c(1) c(2) [of "[]"] x [of "[]" None "[]"] Some y True
        by (intro exI [of _ "ts @ ts'"] exI [of _ "os @ [?oc None]"] exI [of _ e3]) simp
      then show ?thesis by (simp add: mainEvent_def p h Some y True simulated_def)
    next
      case False
      have "at_event accept lib e0 (evs @ [ev]) e' st err" unfolding at_event_def
        using l(2) c(1) c(2) [of "[]"] x [of "[]" _ "[]"] Some y False
        by (intro exI [of _ "ts @ ts'"] exI [of _ "\<lambda>g. os @ [?oc g]"] exI [of _ e3]) simp
      then show ?thesis by (simp add: mainEvent_def p h Some y False simulated_def)
    qed
  qed
qed

lemma core_step:
  assumes "session_step env accept lib grp kind s l t" "se_main t = se_main s" "se_main s \<noteq> MainLoop \<or> l = Internal"
  shows "core (exec_of t) = core (exec_of s)"
  using assms(1)
proof cases
  case (pump_silent p)
  then show ?thesis using core_pump_step by (fastforce simp: exec_of_def)
next
  case (pump_emits p r rt)
  then show ?thesis using core_pump_step by (fastforce simp: exec_of_def)
next
  case watch_tick
  then show ?thesis by (simp add: watchdogStep_keeps(1))
next
  case (main_stopped tm groupErr)
  then show ?thesis using assms(2) by (auto simp: mainFinish_def split: terminal.splits prod.splits)
qed (use assms(2,3) in \<open>auto simp: exec_of_def upd_rt_def split: prod.splits\<close>)

lemma simulated_finish:
  assumes "simulated accept lib e0 evs s" "se_main s = MainStopping tm"
  shows "simulated accept lib e0 evs (mainFinish tm groupErr s)"
proof (cases tm)
  case (TermCanceled err)
  with assms have "at_loop accept lib e0 evs (exec_of s)" by (simp add: simulated_def)
  then have "at_end accept lib e0 (evs @ []) (exec_of s) ''canceled'' (Some err)"
    by (rule at_loop_ends [where oc = "OccCtxDone err"]) auto
  then show ?thesis using TermCanceled by (simp add: simulated_def mainFinish_def)
next
  case (TermEvent st err)
  with assms obtain ts os e2 where l: "core e2 = core (exec_of s)" "\<And>g. occ_events (os g) = evs"
      "\<And>g. runLoop clockEnv accept lib (e0, ts) (os g) = Some (finishTerminalEvent e2 st err g)"
    by (auto simp: simulated_def at_event_def)
  obtain e st' err' where f: "finishTerminalEvent (exec_of s) st err groupErr = (e, st', err')" by (metis prod.exhaust)
  have "\<exists>e3. core e3 = core e \<and> finishTerminalEvent e2 st err groupErr = (e3, st', err')"
    using f l(1) core_updates(5) [OF l(1)]
    by (auto simp: finishTerminalEvent_def handleGroupResult_def Let_def split: if_splits option.splits)
  then obtain e3 where "core e3 = core e" "finishTerminalEvent e2 st err groupErr = (e3, st', err')" by blast
  then have "at_end accept lib e0 evs e st' err'" unfolding at_end_def
    using l(2,3) [of groupErr] by (intro exI [of _ ts] exI [of _ "os groupErr"] exI [of _ e3]) simp
  then show ?thesis using TermEvent f by (simp add: simulated_def mainFinish_def)
qed (use assms in \<open>simp add: simulated_def mainFinish_def\<close>)

lemma simulated_step:
  assumes "simulated accept lib e0 (taken ls) s" "session_step env accept lib grp kind s l t"
  shows "simulated accept lib e0 (taken (ls @ [l])) t"
proof (cases "se_main t = se_main s \<and> l = Internal")
  case True
  then show ?thesis using simulated_frame [OF assms(1) core_step [OF assms(2)]] by simp
next
  case False
  from assms(2) show ?thesis
  proof cases
    case (main_ctx err)
    then show ?thesis using assms(1) by (simp add: simulated_def)
  next
    case (main_event ev evs)
    have "at_loop accept lib e0 (taken ls) (exec_of (upd_rt (\<lambda>rt. rt\<lparr>rt_Events := evs\<rparr>) s))"
      using assms(1) main_event by (simp add: simulated_def)
    from simulated_event [OF this] main_event show ?thesis by simp
  next
    case (main_stopped tm groupErr)
    then show ?thesis using simulated_finish assms(1) by simp
  next
    case (main_workers groupErr st err)
    have "at_loop accept lib e0 (taken ls) (exec_of s)" using assms(1) main_workers by (simp add: simulated_def)
    moreover have "\<exists>e3. core e3 = core (exec_of s) \<and> runLoop clockEnv accept lib (e2, rest) [OccWorkersDone groupErr] = Some (e3, st, err)"
      if "core e2 = core (exec_of s)" for e2 and rest :: "int list"
    proof -
      have "handleGroupResult e2 groupErr = handleGroupResult (exec_of s) groupErr"
        unfolding handleGroupResult_def core_eqD(7) [OF that] by (rule refl)
      then show ?thesis using that main_workers by simp
    qed
    ultimately have "at_end accept lib e0 (taken ls @ []) (exec_of s) st err"
      by (rule at_loop_ends [where oc = "OccWorkersDone groupErr"]) simp_all
    then show ?thesis using main_workers by (simp add: simulated_def)
  qed (use False watchdogStep_keeps(3) in auto)
qed



end
