(* ===== verification/Session_Stats.thy ===== *)
theory Session_Stats
  imports Session_Shutdown
begin

text \<open>
  The counters of an execution and what its owner reads of it when \<^verbatim>\<open>Run\<close> has returned
  (\<^verbatim>\<open>internal/tssbnb/execution\<close>: \<^verbatim>\<open>stats.go\<close> and the accessors of \<^verbatim>\<open>execution.go\<close>).  The counters are 64-bit words
  and wrap.

  Shown: in every interleaving of a session the counters are, modulo \<open>2 ^ 64\<close>, the numbers that were
  reported to the metrics, and the frames received are those the main loop took.
\<close>

section \<open>The accessors\<close>

definition Sent :: "protocolStats \<Rightarrow> u64" where
  "Sent s = st_sentFrames s"

definition Recv :: "protocolStats \<Rightarrow> u64" where
  "Recv s = st_recvFrames s"

definition DedupDrops :: "protocolStats \<Rightarrow> u64" where
  "DedupDrops s = st_dedupDrops s"

record StatsSnapshot =
  sh_FramesSent :: u64
  sh_FramesRecv :: u64
  sh_DedupDrops :: u64

definition Stats :: "('d, 'p) exec \<Rightarrow> StatsSnapshot" where
  "Stats e = \<lparr>sh_FramesSent = Sent (ex_stats e), sh_FramesRecv = Recv (ex_stats e), sh_DedupDrops = DedupDrops (ex_stats e)\<rparr>"

definition ECDSAKeyShare :: "('d, 'p) exec \<Rightarrow> LocalPartySaveData option" where
  "ECDSAKeyShare e = ex_ecdsaKeyShare e"

definition Signature :: "('d, 'p) exec \<Rightarrow> SignatureData option" where
  "Signature e = ex_signature e"

section \<open>The counters and the metrics\<close>

text \<open>The three counters as numbers of reports, for the stage of the execution.\<close>

definition reported :: "('d, 'p) exec \<Rightarrow> nat \<times> nat \<times> nat" where
  "reported e = (count_list (ex_metrics e) (FramesSent (ex_stage e)), count_list (ex_metrics e) (FramesRecv (ex_stage e)),
     count_list (ex_metrics e) (DedupHits (ex_stage e)))"

definition snapshotOf :: "nat \<times> nat \<times> nat \<Rightarrow> StatsSnapshot" where
  "snapshotOf n = \<lparr>sh_FramesSent = of_nat (fst n), sh_FramesRecv = of_nat (fst (snd n)), sh_DedupDrops = of_nat (snd (snd n))\<rparr>"

definition stats_ok :: "('d, 'p) exec \<Rightarrow> bool" where
  "stats_ok e \<longleftrightarrow> Stats e = snapshotOf (reported e)"

text \<open>How far an execution is from another: only these reports were added, and they were counted.\<close>

definition grows :: "nat \<Rightarrow> ('d, 'p) exec \<Rightarrow> ('d, 'p) exec \<Rightarrow> bool" where
  "grows n e e' \<longleftrightarrow> (stats_ok e \<longrightarrow> stats_ok e') \<and> fst (snd (reported e')) = fst (snd (reported e)) + n"

lemma grows_refl: "grows 0 e e"
  by (simp add: grows_def)

lemma grows_trans: "grows m e e' \<Longrightarrow> grows n e' e'' \<Longrightarrow> grows (m + n) e e''"
  by (simp add: grows_def)

lemmas grows_defs = grows_def stats_ok_def reported_def Stats_def Sent_def Recv_def DedupDrops_def snapshotOf_def

lemma grows_same: "ex_stats e' = ex_stats e \<Longrightarrow> ex_metrics e' = ex_metrics e \<Longrightarrow> ex_stage e' = ex_stage e \<Longrightarrow> grows 0 e e'"
  by (simp add: grows_defs)

lemma grows_other:
  assumes "m \<notin> {FramesSent (ex_stage e), FramesRecv (ex_stage e), DedupHits (ex_stage e)}"
  shows "grows 0 e (observe m e)"
  using assms by (simp add: grows_defs observe_def)

lemma grows_counted:
  "grows 0 e (observe (FramesSent (ex_stage e)) (e\<lparr>ex_stats := IncSent (ex_stats e)\<rparr>))"
  "grows 1 e (observe (FramesRecv (ex_stage e)) (e\<lparr>ex_stats := IncRecv (ex_stats e)\<rparr>))"
  "grows 0 e (observe (DedupHits (ex_stage e)) (e\<lparr>ex_stats := IncDedupDrop (ex_stats e)\<rparr>))"
  by (simp_all add: grows_defs observe_def IncSent_def IncRecv_def IncDedupDrop_def)

lemma grows_markProgress: "grows 0 (fst s) (fst (markProgress env m r s))"
  by (rule grows_same) (simp_all add: markProgress_def Let_def split: prod.splits)

lemma grows_update: "grows n e e' \<Longrightarrow> ex_stats e'' = ex_stats e' \<Longrightarrow> ex_metrics e'' = ex_metrics e' \<Longrightarrow> ex_stage e'' = ex_stage e'
  \<Longrightarrow> grows n e e''"
  using grows_trans [OF _ grows_same] by fastforce

section \<open>What the parts count\<close>

lemma grows_sendFrame: "grows 0 (fst s) (fst (fst (sendFrame env frame s)))"
proof (cases s)
  case (Pair e t)
  let ?e = "observe (FramesSent (ex_stage e)) (e\<lparr>ex_stats := IncSent (ex_stats e)\<rparr>)\<lparr>ex_lastSentSeq := fr_Seq frame\<rparr>"
  have "grows 0 e ?e" by (rule grows_update [OF grows_counted(1)]) simp_all
  then have "grows 0 e (fst (markProgress env m r (?e, t')))" for m r t'
    using grows_trans [OF _ grows_markProgress [of "(?e, t')"]] by fastforce
  then show ?thesis using Pair by (auto simp: sendFrame_def grows_refl split: option.splits prod.splits)
qed

lemma grows_sendTo: "grows 0 (fst s) (fst (fst (sendTo env base tos s)))"
proof (induction tos arbitrary: s)
  case (Cons to tos)
  obtain s' r where f: "sendFrame env (base\<lparr>fr_ToParty := to\<rparr>) s = (s', r)" by fastforce
  then have "grows 0 (fst s) (fst s')" using grows_sendFrame [of s env "base\<lparr>fr_ToParty := to\<rparr>"] by simp
  then show ?case using f Cons.IH [of s'] grows_trans [of 0] by (cases r) fastforce+
qed (simp add: grows_refl)

lemma grows_forwardOutgoing: "grows 0 (fst s) (fst (fst (forwardOutgoing env msg s)))"
proof -
  have b: "grows 0 (fst s) (fst (fst (newOutboundBaseFrame env msg p h s)))" for p h
    by (rule grows_same) (simp_all add: newOutboundBaseFrame_def Let_def split: prod.splits)
  have "grows 0 (fst s) (fst (fst (sendFrame env base s')))" "grows 0 (fst s) (fst (fst (sendTo env base tos s')))"
    if "newOutboundBaseFrame env msg p h s = (s', base)" for s' base p h tos
    using grows_trans [OF b [of p h], of 0] grows_sendFrame [of s'] grows_sendTo [of s'] that by simp_all
  then show ?thesis
    by (auto simp: forwardOutgoing_def grows_refl grows_other split: option.splits sum.splits prod.splits)
qed

lemma grows_pumpForward: "grows 0 (fst (pu_state p)) (fst (pu_state (pumpForward env stopping p)))"
proof -
  have "grows 0 (fst s) (fst (fst (forwardProtocolMessage env stopping msg s)))" for msg s
    using grows_forwardOutgoing [of "(fst s, (snd s, False))" "trackedEnv stopping env" msg]
    by (auto simp: forwardProtocolMessage_def Let_def split: prod.splits option.splits)
  from this [of "pu_state p"] show ?thesis
    by (auto simp: pumpForward_def grows_refl split: list.splits prod.splits option.splits bool.splits) (metis fst_conv)+
qed

lemma grows_pump_step: "pump_step env stopping kind p l p' \<Longrightarrow> grows 0 (fst (pu_state p)) (fst (pu_state p'))"
  by (erule pump_step.cases) (auto simp: emitProtocolDone_def grows_refl grows_pumpForward)

lemma grows_watchdogTick: "watchdogTick now e = (e', r) \<Longrightarrow> grows 0 e e'"
  by (auto simp: watchdogTick_def Let_def grows_defs observe_def split: if_splits)

lemma grows_validateInbound: "grows 0 (fst s) (fst (fst (validateInbound env accept frame s)))"
proof (cases s)
  case (Pair e t)
  have d: "grows 0 e (e\<lparr>ex_deduper := d\<rparr>)" for d by (rule grows_same) simp_all
  have "grows 0 e (fst (fst (shouldProcessInbound env accept frame (e, t))))"
    using d grows_trans [OF d grows_counted(3), simplified] grows_trans [OF d grows_other [of "OversizedFrames (ex_stage e)"], simplified]
    by (auto simp: shouldProcessInbound_def Let_def split: prod.splits sum.splits)
  then show ?thesis using Pair by (auto simp: validateInbound_def grows_refl split: option.splits prod.splits sum.splits)
qed

lemma grows_handleIncoming: "grows 0 (fst s) (fst (fst (handleIncoming env accept lib frame s)))"
proof -
  obtain e t r where v: "validateInbound env accept frame s = ((e, t), r)" by (metis prod.exhaust)
  have g: "grows 0 (fst s) e" using grows_validateInbound [of s env accept frame] v by simp
  have "grows 0 (fst s) (fst (applyInbound lib m e))" for m
    by (rule grows_update [OF g]) (simp_all add: applyInbound_def split: prod.splits option.splits)
  then show ?thesis
    using v g by (auto simp: handleIncoming_def split: option.splits sum.splits prod.splits) (metis fst_conv)
qed

lemma grows_handleRecvError: "grows 0 e (fst (handleRecvError e err))"
  by (auto simp: handleRecvError_def grows_refl grows_other split: option.splits)

lemma grows_handleEvent:
  "grows (case ev of eventInboundFrame f \<Rightarrow> 1 | _ \<Rightarrow> 0) (fst s) (fst (fst (handleEvent env accept lib ctxErr ev s)))"
proof (cases s; cases ev)
  fix e t f assume [simp]: "s = (e, t)" "ev = eventInboundFrame f"
  let ?e = "(observe (FramesRecv (ex_stage e)) (e\<lparr>ex_stats := IncRecv (ex_stats e)\<rparr>))\<lparr>ex_lastRecvSeq := fr_Seq f\<rparr>"
  let ?mp = "markProgress env (fr_MessageType f) (fr_RoundHint f)"
  have "grows 1 e ?e" by (rule grows_update [OF grows_counted(2)]) simp_all
  then have "grows 1 e (fst (?mp (?e, t)))" using grows_trans [OF _ grows_markProgress [of "(?e, t)"]] by fastforce
  from grows_trans [OF this grows_handleIncoming]
  have h: "grows 1 e (fst (fst (handleIncoming env accept lib f (?mp (?e, t)))))" by simp
  have "grows 1 e (fst (?mp (fst (handleIncoming env accept lib f (?mp (?e, t))))))"
    using grows_trans [OF h grows_markProgress] by simp
  with h show ?thesis by (auto simp: handleEvent_def Let_def split: prod.splits option.splits)
next
  fix e t r assume "s = (e, t)" "ev = eventRecvError r"
  then show ?thesis using grows_handleRecvError [of e r] by (auto simp: handleEvent_def split: prod.splits)
next
  fix e t r assume "s = (e, t)" "ev = eventProtocolDone r"
  then show ?thesis by (auto simp: handleEvent_def grows_refl split: option.splits intro: grows_same)
qed

lemma grows_finish: "grows 0 e (fst (finishTerminalEvent e st er g))"
  by (rule grows_same) (auto simp: finishTerminalEvent_def Let_def split: prod.splits)

section \<open>Sessions\<close>

text \<open>The frames that the main loop took.\<close>

definition framesTaken :: "sessionLabel list \<Rightarrow> Frame list" where
  "framesTaken ls = concat (map (\<lambda>l. case l of MainTook (eventInboundFrame f) \<Rightarrow> [f] | _ \<Rightarrow> []) ls)"

lemma mainEvent_exec:
  "exec_of (mainEvent env accept lib ev s) = fst (fst (handleEvent (sessionEnv env) accept lib (se_parentErr s) ev (pu_state (se_pump s))))"
  by (auto simp: mainEvent_def split: prod.splits option.splits)

lemma grows_session_step:
  assumes "session_step env accept lib grp kind s l t"
  shows "grows (length (framesTaken [l])) (exec_of s) (exec_of t)"
  using assms
proof cases
  case (pump_silent p)
  then show ?thesis using grows_pump_step [OF pump_silent(3)] by (simp add: exec_of_def framesTaken_def)
next
  case (pump_emits p r rt)
  then show ?thesis using grows_pump_step [OF pump_emits(3)] by (simp add: framesTaken_def) (simp add: exec_of_def)
next
  case watch_tick
  then show ?thesis
    using grows_watchdogTick by (auto simp: watchdogStep_def framesTaken_def exec_of_def split: prod.splits option.splits)
next
  case (main_event ev evs)
  let ?s = "upd_rt (\<lambda>rt. rt\<lparr>rt_Events := evs\<rparr>) s"
  have "grows (length (framesTaken [l])) (exec_of s)
      (fst (fst (handleEvent (sessionEnv env) accept lib (se_parentErr s) ev (pu_state (se_pump ?s)))))"
    using grows_handleEvent [of ev "pu_state (se_pump ?s)"] main_event(1)
    by (auto simp: framesTaken_def split: protocolEvent.splits)
  then show ?thesis using main_event by (auto simp: mainEvent_def split: prod.splits option.splits)
next
  case (main_stopped tm groupErr)
  then show ?thesis
    using grows_finish [of "exec_of s" _ _ groupErr]
    by (auto simp: mainFinish_def framesTaken_def grows_refl split: terminal.splits prod.splits) (metis fst_conv)
qed (simp_all add: framesTaken_def grows_refl exec_of_def)

lemma grows_executes:
  "executes (session_step env accept lib grp kind) s ls t \<Longrightarrow> grows (length (framesTaken ls)) (exec_of s) (exec_of t)"
proof (induction rule: executes.induct)
  case (executes_nil s)
  then show ?case by (simp add: grows_refl framesTaken_def)
next
  case (executes_snoc s ls t l u)
  have "framesTaken (ls @ [l]) = framesTaken ls @ framesTaken [l]" by (simp add: framesTaken_def)
  then show ?case using grows_trans [OF executes_snoc.IH grows_session_step [OF executes_snoc.hyps(2)]] by simp
qed

section \<open>Properties\<close>

text \<open>
  C32.  The counters of a session.  However the goroutines of a session interleave, at every moment the
  statistics it reports are, as 64-bit numbers, how often it reported a sent frame, a received frame and
  a dropped duplicate to the metrics, and the received frames are exactly those the main loop has taken.
\<close>

theorem session_stats_exact:
  assumes "executes (session_step env accept lib grp kind) (startSession env (New params) w parentErr) ls s"
  shows "Stats (exec_of s) = \<lparr>sh_FramesSent = of_nat (count_list (ex_metrics (exec_of s)) (FramesSent (ex_stage (exec_of s)))),
      sh_FramesRecv = of_nat (length (framesTaken ls)),
      sh_DedupDrops = of_nat (count_list (ex_metrics (exec_of s)) (DedupHits (ex_stage (exec_of s))))\<rparr>
    \<and> count_list (ex_metrics (exec_of s)) (FramesRecv (ex_stage (exec_of s))) = length (framesTaken ls)"
proof -
  let ?s0 = "startSession env (New params) w parentErr"
  have "grows 0 (New params) (exec_of ?s0)"
    using grows_markProgress [of "(New params, w, newSessionRuntime parentErr (rc_InboundQueueCap (ex_cfg (New params)) + 8))"]
    by (simp add: startSession_def startWorkers_def exec_of_def)
  from grows_trans [OF this grows_executes [OF assms]]
  have "grows (length (framesTaken ls)) (New params) (exec_of s)" by simp
  moreover have "stats_ok (New params)" "fst (snd (reported (New params))) = 0" by (simp_all add: grows_defs New_def)
  ultimately show ?thesis by (simp add: grows_defs)
qed

text \<open>
  The sample session receives a frame: the loop queues it, the worker emits it, the main loop takes it and the
  party, which counts its updates, is updated.
\<close>

lemma sample_frame_applied:
  assumes "core e = core (New sample_params)"
  shows "ex_party (fst (fst (handleEvent (sessionEnv open_env) (ShouldAccept (\<lambda>m. m)) sample_lib c
    (eventInboundFrame (sample_frame 1)) (e, (), rt)))) = 1"
proof -
  have f: "fr_SessionID (sample_frame 1) = ''s''" "fr_DerivationContextHash (sample_frame 1) = ''c''" "length (fr_Payload (sample_frame 1)) = 1"
      "fr_FromParty (sample_frame 1) = ''A''"
    by (simp_all add: sample_frame_def)
  have "ex_sessionID e = ''s''" "ex_stage e = ''sign''" "ex_derivationContextHash e = ''c''" "ex_party e = 0"
      "ex_partyIDs e = pa_PartyIDs sample_params" "ex_deduper e = ex_deduper (New sample_params)"
    using assms by (simp_all add: core_def identity_def New_def) (simp_all add: sample_params_def)
  then show ?thesis
    by (simp add: handleEvent_def handleIncoming_def validateInbound_def validateDerivationContextHash_def f
        shouldProcessInbound_def ShouldAccept_def pruneExpired_def evictOldest_def newTTLFrameDeduper_def
        parseInbound_def applyInbound_def sample_session dedupPruneEvery_def sessionEnv_def open_env_def handler_defs)
qed

lemma sample_session_receives:
  "\<exists>ls s. executes sample_step sample_start ls s \<and> framesTaken ls = [sample_frame 1] \<and> ex_party (exec_of s) = 1"
proof -
  let ?s0 = sample_start and ?f = "sample_frame 1"
  let ?ev = "eventInboundFrame ?f"
  obtain e rt where st: "pu_state (se_pump ?s0) = (e, (), rt)" by (metis prod.exhaust old.unit.exhaust)
  have rt: "rt_of ?s0 = rt" "rt_Events rt = []" "0 < rt_eventBuf rt" and e: "exec_of ?s0 = e" "ex_cfg e = sample_cfg"
    using st markProgress_rt [of open_env "''start''" 0 "(New sample_params, (), newSessionRuntime None (rc_InboundQueueCap (ex_cfg (New sample_params)) + 8))"]
      markProgress_keeps(2) [of "sessionEnv open_env" "''start''" 0 "(New sample_params, (), newSessionRuntime None (rc_InboundQueueCap (ex_cfg (New sample_params)) + 8))"]
    by (auto simp: startSession_def startWorkers_def newSessionRuntime_def identity_def sample_session rt_of_def exec_of_def)
  have r0: "se_recv ?s0 = initRecv" and m0: "se_main ?s0 = MainLoop" by (simp_all add: startSession_def startWorkers_def)
  have c: "rc_MaxFrameBytes sample_cfg = 100" "rc_InboundQueueCap sample_cfg = 16" by (simp_all add: sample_cfg_def)
  have rs: "rt_of (?s0\<lparr>se_recv := r\<rparr>) = rt" "exec_of (?s0\<lparr>se_recv := r\<rparr>) = e" for r using rt(1) e(1) by (simp_all add: rt_of_def exec_of_def)
  let ?r1 = "initRecv\<lparr>rs_inbound := [?f]\<rparr>"
  let ?r2 = "initRecv\<lparr>rs_hand := Some ?ev\<rparr>"
  let ?r3 = "initRecv\<lparr>rs_events := [?ev]\<rparr>"
  have "length (fr_Payload ?f) = 1" by (simp add: sample_frame_def)
  then have 1: "recv_step 100 16 initRecv (Received (Inr ?f) None) ?r1"
    using recv_step.loop [of initRecv 100 16 "Inr ?f" None] by (simp add: initRecv_def recvLoopIteration_def)
  have 2: "recv_step 100 16 ?r1 (WorkerFrame ?f) ?r2" using worker_frame [of ?r1 ?f "[]" 100 16] by (simp add: initRecv_def)
  have 3: "recv_step 100 16 ?r2 (WorkerEmit ?ev) ?r3" using worker_emit [of ?r2 ?ev 100 16] by (simp add: initRecv_def)
  have x1: "sample_step ?s0 Internal (?s0\<lparr>se_recv := ?r1\<rparr>)"
    by (rule recv_silent [where l = "Received (Inr ?f) None"]) (use 1 e c r0 in simp_all)
  have x2: "sample_step (?s0\<lparr>se_recv := ?r1\<rparr>) Internal ((?s0\<lparr>se_recv := ?r1\<rparr>)\<lparr>se_recv := ?r2\<rparr>)"
    by (rule recv_silent [where l = "WorkerFrame ?f"]) (use 2 rs e c in simp_all)
  let ?rt = "rt\<lparr>rt_Events := [?ev]\<rparr>"
  let ?s3 = "upd_rt (\<lambda>_. ?rt) (?s0\<lparr>se_recv := ?r3\<rparr>)"
  have x3: "sample_step (?s0\<lparr>se_recv := ?r2\<rparr>) Internal (upd_rt (\<lambda>_. ?rt) ((?s0\<lparr>se_recv := ?r2\<rparr>)\<lparr>se_recv := ?r3\<rparr>))"
    by (rule recv_emits) (use 3 rs e c rt in \<open>simp_all add: Emit_def\<close>)
  let ?s4 = "mainEvent open_env (ShouldAccept (\<lambda>m. m)) sample_lib ?ev (upd_rt (\<lambda>rt. rt\<lparr>rt_Events := []\<rparr>) ?s3)"
  have x4: "sample_step ?s3 (MainTook ?ev) ?s4"
    using main_event [of ?s3 ?ev "[]" open_env "ShouldAccept (\<lambda>m. m)" sample_lib first_error ECDSADKG] m0 by simp
  have "core e = core (New sample_params)" using e(1) by (simp add: startSession_def startWorkers_def exec_of_def flip: e(1))
  then have p4: "ex_party (exec_of ?s4) = 1" by (simp add: mainEvent_exec rs(2) sample_frame_applied del: One_nat_def)
  have "executes sample_step ?s0 ([Internal] @ [Internal] @ [Internal] @ [MainTook ?ev]) ?s4"
    by (rule executes_trans [OF executes_trans [OF executes_trans [OF executes_one [where step = sample_step, OF x4]
          executes_one [where step = sample_step]] executes_one [where step = sample_step]] executes_one [where step = sample_step, OF x1]])
       (use x2 x3 in simp_all)
  with p4 show ?thesis by (intro exI conjI) (auto simp: framesTaken_def)
qed

theorem session_stats_exact_witness:
  "\<exists>ls s. executes sample_step sample_start ls s \<and> framesTaken ls = [sample_frame 1] \<and> sh_FramesRecv (Stats (exec_of s)) = 1"
proof -
  obtain ls s where "executes sample_step sample_start ls s" "framesTaken ls = [sample_frame 1]"
    using sample_session_receives by blast
  with session_stats_exact [of open_env "ShouldAccept (\<lambda>m. m)" sample_lib first_error ECDSADKG sample_params "()" None ls s]
  show ?thesis by (intro exI [of _ ls] exI [of _ s]) simp
qed

end
