(* ===== verification/Session_Protocol.thy ===== *)
theory Session_Protocol
  imports Session_Refinement Session_Stats "HOL-Library.Sublist"
begin

text \<open>
  What the tss-lib party of a session has seen, in every interleaving of the session's goroutines
  (\<^verbatim>\<open>internal/tssbnb/execution\<close>).  The receive worker, the main loop, the replay filter and the inbound gate
  together: the party's state is the sequence of its updates by messages of frames that the main loop
  took, each admitted by the gate and by the filter.
\<close>

section \<open>Runs of the replay filter, extended at the end\<close>

lemma dedup_run_snoc:
  "dedup_run d (cs @ [(i, n, f)]) =
     (case dedup_run d cs of (d', rs) \<Rightarrow> case ShouldAccept i n d' f of (d'', r) \<Rightarrow> (d'', rs @ [r]))"
  by (induction d cs rule: dedup_run.induct) (auto split: prod.splits)

lemma dedup_run_length: "dedup_run d cs = (d', rs) \<Longrightarrow> length rs = length cs"
  by (induction d cs arbitrary: d' rs rule: dedup_run.induct) (auto split: prod.splits)

lemma dedup_run_size: "dedup_run d cs = (d', rs) \<Longrightarrow> dd_maxFrameSize d' = dd_maxFrameSize d"
proof (induction d cs arbitrary: d' rs rule: dedup_run.induct)
  case (2 d iter now f cs)
  obtain d1 r where r: "ShouldAccept iter now d f = (d1, r)" by fastforce
  obtain rs1 where "dedup_run d1 cs = (d', rs1)" using "2.prems" r by (auto split: prod.splits)
  from "2.IH" [OF r [symmetric] this] show ?case using ShouldAccept_frame(3) [of iter now d f] r by simp
qed simp

lemma accepted_snoc:
  "length rs = length cs \<Longrightarrow>
   accepted (cs @ [(i, n, f)]) (rs @ [r]) = accepted cs rs @ (if r = Inr True then [frameDedupKey f] else [])"
  by (simp add: accepted_def)

lemma accepted_calls: "subseq (accepted cs rs) (map (\<lambda>c. frameDedupKey (snd (snd c))) cs)"
proof (induction cs arbitrary: rs)
  case (Cons c cs)
  then show ?case by (cases rs; cases c) (auto simp: accepted_def)
qed (simp add: accepted_def)

section \<open>One frame\<close>

text \<open>The message that a frame carries for the party of an execution, if the gate admits the frame.\<close>

definition carries :: "('p, 'm) tsslib \<Rightarrow> (ttlFrameDeduper, 'p) exec \<Rightarrow> Frame \<Rightarrow> 'm \<Rightarrow> bool" where
  "carries lib e f m \<longleftrightarrow> admissible e f \<and> int (length (fr_Payload f)) \<le> dd_maxFrameSize (ex_deduper e)
     \<and> (\<exists>from. ex_partyIDs e (fr_FromParty f) = Some from
          \<and> tl_ParseWireMessage lib (fr_Payload f) from (IsBroadcast f) = Inr m)"

definition inner :: "('d, 'p) exec \<Rightarrow> _" where
  "inner e = (identity e, ex_party e, ex_deduper e)"

lemma core_inner: "core e = core e' \<Longrightarrow> inner e = inner e'"
  by (simp add: core_def inner_def)

text \<open>The filter was asked about the frame at a time of the clock; the party changed only if it said yes.\<close>

definition plays :: "int set \<Rightarrow> iter_order \<Rightarrow> ('p, 'm) tsslib \<Rightarrow> Frame \<Rightarrow> (ttlFrameDeduper, 'p) exec \<Rightarrow> (ttlFrameDeduper, 'p) exec \<Rightarrow> bool" where
  "plays clock iter lib f e e' \<longleftrightarrow> identity e' = identity e
     \<and> (\<exists>now\<in>clock. \<exists>r. ShouldAccept iter now (ex_deduper e) f = (ex_deduper e', r)
          \<and> (ex_party e' = ex_party e
             \<or> r = Inr True \<and> (\<exists>m. carries lib e f m \<and> ex_party e' = fst (tl_Update lib (ex_party e) m))))"

definition readings :: "'t env \<Rightarrow> int set" where
  "readings env = range (\<lambda>t. snd (en_Now env t))"

lemma ShouldAccept_accepts:
  assumes "ShouldAccept iter now d f = (d', Inr b)"
  shows "b" "int (length (fr_Payload f)) \<le> dd_maxFrameSize d"
  by (rule ShouldAccept_cases [where f = f and d = d and iter = iter and now = now]; use assms in simp)+

lemma shouldProcess_asks:
  assumes "shouldProcessInbound env accept f (e, t) = ((e', t'), r)"
  obtains r' where "accept (snd (en_Now env t)) (ex_deduper e) f = (ex_deduper e', r')" "\<And>b. r = Inr b \<Longrightarrow> r' = Inr b"
  using assms
  by (auto simp: shouldProcessInbound_def Let_def observe_def split: prod.splits sum.splits if_splits)

lemma handleIncoming_plays:
  assumes "handleIncoming env (ShouldAccept iter) lib f (e, t) = ((e', t'), r)"
  shows "inner e' = inner e \<or> plays (readings env) iter lib f e e'"
proof (cases "admissible e f")
  case False
  then have "e' = e" using assms
    by (auto simp: handleIncoming_def validateInbound_def admissible_iff split: if_splits option.splits)
  then show ?thesis by simp
next
  case True
  obtain e1 t1 x where p: "shouldProcessInbound env (ShouldAccept iter) f (e, t) = ((e1, t1), x)" by (metis prod.exhaust)
  note k = shouldProcessInbound_keeps [OF p, simplified]
  obtain r' where a: "ShouldAccept iter (snd (en_Now env t)) (ex_deduper e) f = (ex_deduper e1, r')" "\<And>b. x = Inr b \<Longrightarrow> r' = Inr b"
    using shouldProcess_asks [OF p] by blast
  have n: "snd (en_Now env t) \<in> readings env" by (simp add: readings_def)
  have same: "plays (readings env) iter lib f e e1" unfolding plays_def using k n a(1) by blast
  show ?thesis
  proof (cases "\<exists>b m. x = Inr b \<and> parseInbound lib e1 f = Inr m")
    case False
    then have "e' = e1" using assms p True
      by (auto simp: handleIncoming_def validateInbound_def admissible_iff split: if_splits sum.splits)
    with same show ?thesis by simp
  next
    case True
    then obtain b m where m: "x = Inr b" "parseInbound lib e1 f = Inr m" by blast
    obtain r'' where u: "applyInbound lib m e1 = (e', r'')"
      using assms p \<open>admissible e f\<close> m by (auto simp: handleIncoming_def validateInbound_def admissible_iff split: prod.splits)
    note ap = applyInbound_keeps [OF u]
    have acc: "ShouldAccept iter (snd (en_Now env t)) (ex_deduper e) f = (ex_deduper e', Inr True)"
      using a m(1) ap(3) ShouldAccept_accepts(1) by fastforce
    have "ex_partyIDs e1 = ex_partyIDs e" using k(2) by (simp add: identity_def)
    then have "carries lib e f m"
      using m(2) \<open>admissible e f\<close> ShouldAccept_accepts(2) [OF acc]
      by (auto simp: carries_def parseInbound_def split: option.splits sum.splits if_splits)
    then show ?thesis unfolding plays_def using n acc ap(2,4) k(2,3) by metis
  qed
qed

lemma inner_received: "inner ((observe m (e\<lparr>ex_stats := st\<rparr>))\<lparr>ex_lastRecvSeq := q\<rparr>) = inner e"
  by (simp add: inner_def identity_def observe_def)

lemma inner_plays:
  assumes "inner a = inner b" "inner c = inner d"
  shows "plays clock iter lib f a c = plays clock iter lib f b d"
  using assms by (simp add: plays_def inner_def carries_def admissible_def identity_def)

lemma handleEvent_plays:
  assumes "handleEvent env (ShouldAccept iter) lib ctxErr (eventInboundFrame f) (e, t) = ((e', t'), r)"
  shows "inner e' = inner e \<or> plays (readings env) iter lib f e e'"
proof -
  let ?e = "(observe (FramesRecv (ex_stage e)) (e\<lparr>ex_stats := IncRecv (ex_stats e)\<rparr>))\<lparr>ex_lastRecvSeq := fr_Seq f\<rparr>"
  let ?mp = "markProgress env (fr_MessageType f) (fr_RoundHint f)"
  obtain e1 t1 where m: "?mp (?e, t) = (e1, t1)" by fastforce
  obtain e2 t2 x where h: "handleIncoming env (ShouldAccept iter) lib f (e1, t1) = ((e2, t2), x)" by (metis prod.exhaust)
  have i: "inner (fst (?mp s)) = inner (fst s)" for s by (simp add: inner_def)
  have 1: "inner e1 = inner e" using i [of "(?e, t)"] m inner_received by simp
  have 2: "inner e' = inner e2"
    using assms m h i [of "(e2, t2)"] by (auto simp: handleEvent_def Let_def observe_def split: option.splits)
  show ?thesis using handleIncoming_plays [OF h] inner_plays [OF 1 2 [symmetric]] 1 2 by metis
qed

lemma handleEvent_other:
  assumes "handleEvent env accept lib ctxErr ev (e, t) = ((e', t'), r)" "\<And>f. ev \<noteq> eventInboundFrame f"
  shows "inner e' = inner e"
  using assms
  by (cases ev) (auto simp: handleEvent_def handleRecvError_def inner_def identity_def observe_def
      split: option.splits prod.splits if_splits)

section \<open>All frames\<close>

text \<open>
  From \<open>e0\<close> to \<open>e\<close> over the frames \<open>fs\<close>: the filter was asked about some of them, it accepted the keys of the frames
  \<open>gs\<close> among others, and the party was updated by their messages \<open>ms\<close>.
\<close>

definition party_after :: "('p, 'm) tsslib \<Rightarrow> 'm list \<Rightarrow> 'p \<Rightarrow> 'p" where
  "party_after lib ms p = fold (\<lambda>m p. fst (tl_Update lib p m)) ms p"

definition asked :: "int set \<Rightarrow> Frame list \<Rightarrow> dedup_call list \<Rightarrow> bool" where
  "asked clock fs cs \<longleftrightarrow> subseq (map (\<lambda>c. snd (snd c)) cs) fs \<and> (\<forall>c\<in>set cs. fst (snd c) \<in> clock)"

definition played where
  "played clock lib e0 fs e cs rs gs ms \<longleftrightarrow> identity e = identity e0 \<and> asked clock fs cs
     \<and> dedup_run (ex_deduper e0) cs = (ex_deduper e, rs)
     \<and> subseq (map frameDedupKey gs) (accepted cs rs) \<and> subseq gs fs
     \<and> list_all2 (carries lib e0) gs ms \<and> ex_party e = party_after lib ms (ex_party e0)"

lemma played_nil: "played clock lib e [] e [] [] [] []"
  by (simp add: played_def asked_def party_after_def accepted_def)

lemma played_frame: "played clock lib e0 fs e cs rs gs ms \<Longrightarrow> inner e' = inner e \<Longrightarrow> played clock lib e0 fs e' cs rs gs ms"
  by (simp add: played_def inner_def)

lemma played_skip: "played clock lib e0 fs e cs rs gs ms \<Longrightarrow> inner e' = inner e \<Longrightarrow> played clock lib e0 (fs @ [f]) e' cs rs gs ms"
  by (auto simp: played_def inner_def asked_def)

lemma carries_cong:
  assumes "identity e = identity e0" "dd_maxFrameSize (ex_deduper e) = dd_maxFrameSize (ex_deduper e0)"
  shows "carries lib e f m = carries lib e0 f m"
  using assms by (simp add: carries_def admissible_def identity_def)

lemma played_play:
  assumes "played clock lib e0 fs e cs rs gs ms" "plays clock iter lib f e e'"
  shows "\<exists>cs rs gs ms. played clock lib e0 (fs @ [f]) e' cs rs gs ms"
proof -
  note h = assms(1) [unfolded played_def]
  obtain now r where n: "now \<in> clock" "ShouldAccept iter now (ex_deduper e) f = (ex_deduper e', r)"
      and p: "ex_party e' = ex_party e \<or> r = Inr True \<and> (\<exists>m. carries lib e f m \<and> ex_party e' = fst (tl_Update lib (ex_party e) m))"
      and i: "identity e' = identity e"
    using assms(2) by (auto simp: plays_def)
  let ?cs = "cs @ [(iter, now, f)]" and ?rs = "rs @ [r]"
  have d: "dedup_run (ex_deduper e0) ?cs = (ex_deduper e', ?rs)" using h n(2) by (simp add: dedup_run_snoc)
  have a: "asked clock (fs @ [f]) ?cs" using h n(1) by (auto simp: asked_def intro: list_emb_append_mono)
  have k: "accepted ?cs ?rs = accepted cs rs @ (if r = Inr True then [frameDedupKey f] else [])"
    using h dedup_run_length by (intro accepted_snoc) blast
  from p show ?thesis
  proof
    assume "ex_party e' = ex_party e"
    then have "played clock lib e0 (fs @ [f]) e' ?cs ?rs gs ms" using h d a i by (auto simp: played_def k)
    then show ?thesis by blast
  next
    assume "r = Inr True \<and> (\<exists>m. carries lib e f m \<and> ex_party e' = fst (tl_Update lib (ex_party e) m))"
    then obtain m where m: "r = Inr True" "carries lib e f m" "ex_party e' = fst (tl_Update lib (ex_party e) m)" by blast
    have "carries lib e0 f m" using m(2) carries_cong dedup_run_size h by metis
    moreover have "subseq (map frameDedupKey (gs @ [f])) (accepted ?cs ?rs)" "subseq (gs @ [f]) (fs @ [f])"
      unfolding k using h m(1) by (simp_all add: list_emb_append_mono)
    ultimately have "played clock lib e0 (fs @ [f]) e' ?cs ?rs (gs @ [f]) (ms @ [m])"
      unfolding played_def using h d a i m(3) by (simp add: party_after_def list_all2_appendI)
    then show ?thesis by blast
  qed
qed

lemma readings_sessionEnv: "readings (sessionEnv env) \<subseteq> readings env"
  by (auto simp: readings_def sessionEnv_def split: prod.splits) (metis rangeI snd_conv)

lemma plays_mono: "plays A iter lib f e e' \<Longrightarrow> A \<subseteq> B \<Longrightarrow> plays B iter lib f e e'"
  by (auto simp: plays_def)

lemma played_event:
  assumes "played (readings env) lib e0 fs (exec_of s) cs rs gs ms"
  shows "\<exists>cs rs gs ms. played (readings env) lib e0 (fs @ framesTaken [MainTook ev]) (exec_of (mainEvent env (ShouldAccept iter) lib ev s)) cs rs gs ms"
proof -
  obtain e t where st: "pu_state (se_pump s) = (e, t)" by (metis prod.exhaust)
  obtain e' t' r where h: "handleEvent (sessionEnv env) (ShouldAccept iter) lib (se_parentErr s) ev (e, t) = ((e', t'), r)"
    by (metis prod.exhaust)
  have x: "exec_of s = e" "exec_of (mainEvent env (ShouldAccept iter) lib ev s) = e'"
    using st h by (auto simp: exec_of_def [of s] mainEvent_def split: option.splits)
  show ?thesis
  proof (cases ev)
    case (eventInboundFrame f)
    have hs: "played (readings env) lib e0 fs e cs rs gs ms" using assms x(1) by simp
    have "\<exists>cs rs gs ms. played (readings env) lib e0 (fs @ [f]) e' cs rs gs ms"
      using handleEvent_plays [OF h [unfolded eventInboundFrame]]
    proof
      assume "inner e' = inner e"
      then show ?thesis using played_skip [OF hs] by blast
    next
      assume "plays (readings (sessionEnv env)) iter lib f e e'"
      then show ?thesis using played_play [OF hs] plays_mono readings_sessionEnv by metis
    qed
    then show ?thesis using x(2) eventInboundFrame by (simp add: framesTaken_def)
  next
    case (eventRecvError er)
    then show ?thesis using played_frame [OF assms] handleEvent_other [OF h] x by (simp add: framesTaken_def) blast
  next
    case (eventProtocolDone result)
    then show ?thesis using played_frame [OF assms] handleEvent_other [OF h] x by (simp add: framesTaken_def) blast
  qed
qed

lemma inner_step:
  assumes "session_step env accept lib grp kind s Internal t" shows "inner (exec_of t) = inner (exec_of s)"
proof (cases "se_main t = se_main s")
  case True
  then show ?thesis using core_step [OF assms] core_inner by blast
next
  case False
  from assms show ?thesis
  proof cases
    case (main_stopped tm groupErr)
    then show ?thesis
      by (auto simp: mainFinish_def finishTerminalEvent_def inner_def identity_def Let_def split: terminal.splits prod.splits if_splits)
  qed (use False watchdogStep_keeps(3) in auto)
qed

lemma played_executes:
  assumes "executes (session_step env (ShouldAccept iter) lib grp kind) s ls t"
  shows "\<exists>cs rs gs ms. played (readings env) lib (exec_of s) (framesTaken ls) (exec_of t) cs rs gs ms"
  using assms
proof (induction rule: executes.induct)
  case (executes_nil s)
  show ?case using played_nil by (force simp: framesTaken_def)
next
  case (executes_snoc s ls t l u)
  then obtain cs rs gs ms where h: "played (readings env) lib (exec_of s) (framesTaken ls) (exec_of t) cs rs gs ms" by blast
  have f: "framesTaken (ls @ [l]) = framesTaken ls @ framesTaken [l]" by (simp add: framesTaken_def)
  show ?case
  proof (cases l)
    case Internal
    have "inner (exec_of u) = inner (exec_of t)" using inner_step executes_snoc.hyps(2) Internal by blast
    from played_frame [OF h this] have "played (readings env) lib (exec_of s) (framesTaken (ls @ [l])) (exec_of u) cs rs gs ms"
      using Internal f by (simp add: framesTaken_def)
    then show ?thesis by blast
  next
    case (MainTook ev)
    then obtain evs where "u = mainEvent env (ShouldAccept iter) lib ev (upd_rt (\<lambda>rt. rt\<lparr>rt_Events := evs\<rparr>) t)"
      using executes_snoc.hyps(2) by (auto elim: session_step.cases)
    moreover have "played (readings env) lib (exec_of s) (framesTaken ls) (exec_of (upd_rt (\<lambda>rt. rt\<lparr>rt_Events := evs\<rparr>) t)) cs rs gs ms"
      using h by simp
    ultimately show ?thesis using played_event f MainTook by metis
  qed
qed

section \<open>From the worker to the main loop\<close>

lemma emitted_append: "emitted (a @ b) = emitted a @ emitted b"
  by (simp add: emitted_def)

definition on_the_way :: "sessionLabel list \<Rightarrow> ('d, 'p, 'w) session \<Rightarrow> bool" where
  "on_the_way ls s \<longleftrightarrow> emitted (rs_events (se_recv s)) = framesTaken ls @ emitted (rt_Events (rt_of s))"

lemma mainEvent_queue:
  "rt_Events (rt_of (mainEvent env accept lib ev s)) = rt_Events (rt_of s)" "se_recv (mainEvent env accept lib ev s) = se_recv s"
proof -
  obtain st r where h: "handleEvent (sessionEnv env) accept lib (se_parentErr s) ev (pu_state (se_pump s)) = (st, r)" by fastforce
  have "snd (snd st) = rt_of s" using handleEvent_rt [OF h] by (simp add: rt_of_def)
  then show "rt_Events (rt_of (mainEvent env accept lib ev s)) = rt_Events (rt_of s)"
    by (auto simp: mainEvent_def h Stop_def rt_of_def [of "s\<lparr>se_main := m\<rparr>" for s m] split: option.splits)
  show "se_recv (mainEvent env accept lib ev s) = se_recv s"
    by (auto simp: mainEvent_def h split: option.splits)
qed

lemma on_the_way_step:
  assumes "on_the_way ls s" "session_step env accept lib grp kind s l t"
  shows "on_the_way (ls @ [l]) t"
  using assms(2)
proof cases
  case (main_event ev evs)
  then show ?thesis using assms(1)
    by (auto simp: on_the_way_def mainEvent_queue framesTaken_def emitted_def split: protocolEvent.splits)
next
  case (recv_emits ev r rt)
  then have "rs_events r = rs_events (se_recv s) @ [ev]" by (auto elim: recv_stepE)
  with assms(1) recv_emits Emit_True [OF recv_emits(4)] show ?thesis
    by (simp add: on_the_way_def framesTaken_def emitted_append)
next
  case (pump_emits p r rt)
  with assms(1) Emit_True [OF pump_emits(6)] show ?thesis
    by (simp add: on_the_way_def framesTaken_def emitted_def)
next
  case (pump_silent p)
  with assms(1) show ?thesis by (simp add: on_the_way_def framesTaken_def rt_of_def)
next
  case watch_tick
  with assms(1) show ?thesis by (simp add: on_the_way_def framesTaken_def watchdogStep_keeps(2,6))
qed (use assms(1) in \<open>auto simp: on_the_way_def framesTaken_def rt_of_def groupReturn_def startWorkerWait_def Stop_def mainFinish_def Let_def
       split: terminal.splits prod.splits\<close>)

lemma on_the_way_executes:
  "executes (session_step env accept lib grp kind) s ls t \<Longrightarrow> on_the_way [] s \<Longrightarrow> on_the_way ls t"
  by (induction rule: executes.induct) (auto intro: on_the_way_step)

section \<open>Properties\<close>

lemma distinct_subseq:
  assumes "subseq xs ys" "distinct ys" shows "distinct xs"
  using assms by (auto simp: subseq_conv_nths)

lemma played_once:
  assumes "played clock lib e0 fs e cs rs gs ms" "clock \<subseteq> {t0 .. t0 + dd_ttlNanos (ex_deduper e0)}"
    "dd_seen (ex_deduper e0) = []" "int (length fs) < dd_maxEntries (ex_deduper e0)"
  shows "distinct (map frameDedupKey gs)"
proof -
  note h = assms(1) [unfolded played_def]
  have "length cs \<le> length fs" using h list_emb_length unfolding asked_def by fastforce
  moreover have "length (accepted cs rs) \<le> length cs" using list_emb_length [OF accepted_calls [of cs rs]] by simp
  ultimately have "int (length (accepted cs rs)) < dd_maxEntries (ex_deduper e0)" using assms(4) by linarith
  moreover have "in_window t0 (ex_deduper e0) cs" using h assms(2) by (force simp: in_window_def asked_def)
  ultimately have "distinct (accepted cs rs)"
    using dedup_run_window [of "ex_deduper e0" cs "ex_deduper e" rs t0] h assms(3) by (simp add: since_def)
  then show ?thesis using distinct_subseq h by blast
qed

lemma carries_inner:
  assumes "inner e = inner e0" shows "carries lib e = carries lib e0"
  using assms by (intro ext carries_cong) (simp_all add: inner_def)


text \<open>In the sample session the party was updated once, hence by the message of the one frame.\<close>

lemma sample_party: "party_after sample_lib ms p = p + length ms"
  by (induction ms arbitrary: p) (simp_all add: party_after_def sample_lib_def)


end
