(* ===== verification/Share_Codec.thy ===== *)
theory Share_Codec
  imports Derivation_Keys
begin

text \<open>
  Durable key material (\<^verbatim>\<open>internal/shares/codec.go\<close>, \<^verbatim>\<open>inspector.go\<close>, \<^verbatim>\<open>types.go\<close> and
  \<^verbatim>\<open>internal/tss/runtime/share_runtime.go\<close>).  The gob stream format over tss-lib's share type is a
  parameter \<open>gob\<close> of the codec: encode one value, decode the first value of a stream (which may
  fail or panic on hostile input), and what a further decode of the rest returns.  \<open>wf_gob\<close> is the
  documented behaviour: an encoded value decodes to itself and leaves nothing, and decoding an
  exhausted stream is \<^verbatim>\<open>io.EOF\<close>.  The application's share writer is a parameter too, a function on
  its own state.

  Shown: marshalling and unmarshalling round-trip, blobs obey the one-MiB bound on both sides,
  whatever the decoder accepts satisfies the codec-v2 metadata contract, and inspection never
  lets a panic escape and reports the compressed account key and the chain-code hash.
\<close>

section \<open>Data\<close>

definition codecVersion :: u32 where
  "codecVersion = 2"

abbreviation "codecPublicKeyFormat \<equiv> ''uncompressed_hex''"
abbreviation "codecDerivationScheme \<equiv> ''bip32_secp256k1''"

definition maxKeyMaterialBlobBytes :: nat where
  "maxKeyMaterialBlobBytes = 2 ^ 20"

record ECDSAKeyMaterial =
  km_Share :: LocalPartySaveData
  km_ChainCode :: bytes
  km_PublicKeyFormat :: string
  km_DerivationScheme :: string

record KeyMaterialMeta =
  mt_ChainCode :: bytes
  mt_PublicKeyFormat :: string
  mt_DerivationScheme :: string

record shareEnvelope =
  env_Version :: u32
  env_Share :: LocalPartySaveData
  env_Meta :: KeyMaterialMeta

record gob =
  gob_Encode :: "shareEnvelope \<Rightarrow> bytes result"
  gob_Decode :: "bytes \<Rightarrow> (shareEnvelope \<times> bytes) result"
  gob_DecodeNext :: "bytes \<Rightarrow> error option"

definition wf_gob :: "gob \<Rightarrow> bool" where
  "wf_gob g \<longleftrightarrow>
     (\<forall>e b. gob_Encode g e = Inr b \<longrightarrow> gob_Decode g b = Inr (e, []))
     \<and> gob_DecodeNext g [] = Some (Sentinel IoEOF)"

record StoredShare =
  ss_Blob :: bytes

record SaveShareInput =
  si_SessionID :: string
  si_KeyID :: string
  si_LocalPartyID :: string
  si_OpaqueDescriptorFingerprint :: bytes
  si_CodecBlob :: bytes

section \<open>The code\<close>

definition clearBytes :: "bytes \<Rightarrow> bytes" where
  "clearBytes buffer = map (\<lambda>_. CHR 0x00) buffer"

text \<open>The copy, and what is left in the source buffer.\<close>

definition copyAndClearBytes :: "bytes \<Rightarrow> bytes \<times> bytes" where
  "copyAndClearBytes source = ([] @ source, clearBytes source)"

definition validateKeyMaterialMeta :: "KeyMaterialMeta \<Rightarrow> unit result" where
  "validateKeyMaterialMeta meta =
     (if length (mt_ChainCode meta) \<noteq> 32 \<or> mt_PublicKeyFormat meta \<noteq> codecPublicKeyFormat
         \<or> mt_DerivationScheme meta \<noteq> codecDerivationScheme
      then Inl (errorf ErrInvalidSharePayload ''unsupported key material metadata'')
      else Inr ())"

definition MarshalKeyMaterial :: "gob \<Rightarrow> ECDSAKeyMaterial \<Rightarrow> bytes result" where
  "MarshalKeyMaterial g material =
     (let meta = \<lparr>mt_ChainCode = [] @ km_ChainCode material,
                  mt_PublicKeyFormat = km_PublicKeyFormat material,
                  mt_DerivationScheme = km_DerivationScheme material\<rparr>
      in case validateKeyMaterialMeta meta of
           Inl err \<Rightarrow> Inl err
         | Inr _ \<Rightarrow>
             (case gob_Encode g \<lparr>env_Version = codecVersion, env_Share = km_Share material, env_Meta = meta\<rparr> of
                Inl err \<Rightarrow> Inl (errorf ErrInvalidSharePayload ''encode'')
              | Inr buf \<Rightarrow>
                  if length buf > maxKeyMaterialBlobBytes
                  then Inl (errorf ErrInvalidSharePayload ''blob exceeds bytes'')
                  else Inr buf))"

definition UnmarshalKeyMaterial :: "gob \<Rightarrow> bytes \<Rightarrow> ECDSAKeyMaterial result" where
  "UnmarshalKeyMaterial g blob =
     (if length blob > maxKeyMaterialBlobBytes
      then Inl (errorf ErrInvalidSharePayload ''blob exceeds bytes'')
      else (case gob_Decode g blob of
              Inl err \<Rightarrow> if is_panic err then Inl err else Inl (errorf ErrInvalidSharePayload ''decode'')
            | Inr (env, rest) \<Rightarrow>
                if gob_DecodeNext g rest \<noteq> Some (Sentinel IoEOF)
                then Inl (errorf ErrInvalidSharePayload ''trailing data'')
                else if env_Version env \<noteq> codecVersion
                then Inl (errorf ErrUnsupportedVersion ''got expected'')
                else (case validateKeyMaterialMeta (env_Meta env) of
                        Inl err \<Rightarrow> Inl err
                      | Inr _ \<Rightarrow>
                          Inr \<lparr>km_Share = env_Share env,
                               km_ChainCode = fst (copyAndClearBytes (mt_ChainCode (env_Meta env))),
                               km_PublicKeyFormat = mt_PublicKeyFormat (env_Meta env),
                               km_DerivationScheme = mt_DerivationScheme (env_Meta env)\<rparr>)))"

subsection \<open>Inspection\<close>

record ECDSAKeyMaterialEvidence =
  ev_CodecVersion :: u32
  ev_AccountPublicKey :: bytes
  ev_ChainCodeHash :: bytes

definition compressedSecp256k1PublicKeyLength :: nat where
  "compressedSecp256k1PublicKeyLength = 33"

text \<open>\<^verbatim>\<open>big.Int.Bytes\<close>: the minimal big-endian octets of the absolute value.\<close>

fun big_Bytes :: "nat \<Rightarrow> bytes" where
  "big_Bytes x = (if x = 0 then [] else big_Bytes (x div 256) @ [byte_of (x mod 256)])"

declare big_Bytes.simps [simp del]

definition encodeCompressedSecp256k1Point :: "int \<Rightarrow> int \<Rightarrow> bytes result" where
  "encodeCompressedSecp256k1Point x y =
     (let encoded = (byte_of (2 + nat (y mod 2))) # replicate (compressedSecp256k1PublicKeyLength - 1) CHR 0x00;
          xBytes = big_Bytes (nat \<bar>x\<bar>)
      in if length xBytes > length encoded then Inl (go_panic ''slice bounds out of range'')
         else Inr (take (length encoded - length xBytes) encoded @ xBytes))"

definition compressedSecp256k1PublicKey :: "curve \<Rightarrow> ECPoint option \<Rightarrow> bytes result" where
  "compressedSecp256k1PublicKey c point =
     (case point of
        None \<Rightarrow> Inl (errorf ErrInvalidSharePayload ''ECDSA public key missing'')
      | Some p \<Rightarrow>
          (case (pt_X p, pt_Y p) of
             (Some x, Some y) \<Rightarrow>
               if (sgn x = 0 \<and> sgn y = 0) \<or> \<not> cv_IsOnCurve c x y
               then Inl (errorf ErrInvalidSharePayload ''ECDSA public key invalid'')
               else encodeCompressedSecp256k1Point x y
           | _ \<Rightarrow> Inl (errorf ErrInvalidSharePayload ''ECDSA public key invalid'')))"

definition inspectBody :: "curve \<Rightarrow> gob \<Rightarrow> bytes \<Rightarrow> ECDSAKeyMaterialEvidence result" where
  "inspectBody c g blob =
     (case UnmarshalKeyMaterial g blob of
        Inl err \<Rightarrow> Inl err
      | Inr material \<Rightarrow>
          if length (km_ChainCode material) \<noteq> 32
          then Inl (errorf ErrInvalidSharePayload ''chain code length'')
          else (case compressedSecp256k1PublicKey c (sp_ECDSAPub (km_Share material)) of
                  Inl err \<Rightarrow> Inl err
                | Inr publicKey \<Rightarrow>
                    Inr \<lparr>ev_CodecVersion = codecVersion, ev_AccountPublicKey = publicKey,
                         ev_ChainCodeHash = Sum256 (km_ChainCode material)\<rparr>))"

text \<open>The deferred \<^verbatim>\<open>recover\<close> turns a panic of the body into an error.\<close>

definition InspectEncodedECDSAKeyMaterial :: "curve \<Rightarrow> gob \<Rightarrow> bytes \<Rightarrow> ECDSAKeyMaterialEvidence result" where
  "InspectEncodedECDSAKeyMaterial c g blob =
     (case inspectBody c g blob of
        Inl err \<Rightarrow>
          if is_panic err then Inl (errorf ErrInvalidSharePayload ''ECDSA material inspection failed'')
          else Inl err
      | Inr evidence \<Rightarrow> Inr evidence)"

subsection \<open>Persisting after DKG\<close>

record DKGPersistInput =
  pi_SessionID :: string
  pi_KeyID :: string
  pi_LocalPartyID :: string
  pi_OpaqueDescriptorFingerprint :: bytes
  pi_ChainCode :: bytes
  pi_PublicKeyFormat :: string
  pi_DerivationScheme :: string

type_synonym 's share_writer = "'s \<Rightarrow> SaveShareInput \<Rightarrow> 's \<times> error option"

definition PersistKeyMaterialAfterDKG ::
  "gob \<Rightarrow> 's share_writer \<Rightarrow> LocalPartySaveData \<Rightarrow> DKGPersistInput \<Rightarrow> 's \<Rightarrow> 's \<times> error option" where
  "PersistKeyMaterialAfterDKG g save share inp st =
     (case MarshalKeyMaterial g
             \<lparr>km_Share = share, km_ChainCode = [] @ pi_ChainCode inp,
              km_PublicKeyFormat = pi_PublicKeyFormat inp, km_DerivationScheme = pi_DerivationScheme inp\<rparr> of
        Inl err \<Rightarrow> (st, Some err)
      | Inr blob \<Rightarrow>
          save st \<lparr>si_SessionID = pi_SessionID inp, si_KeyID = pi_KeyID inp,
                   si_LocalPartyID = pi_LocalPartyID inp,
                   si_OpaqueDescriptorFingerprint = [] @ pi_OpaqueDescriptorFingerprint inp,
                   si_CodecBlob = blob\<rparr>)"

section \<open>The codec contract\<close>

definition valid_material :: "ECDSAKeyMaterial \<Rightarrow> bool" where
  "valid_material m \<longleftrightarrow> length (km_ChainCode m) = 32 \<and> km_PublicKeyFormat m = codecPublicKeyFormat
     \<and> km_DerivationScheme m = codecDerivationScheme"

lemma Marshal_Inr:
  assumes "MarshalKeyMaterial g m = Inr b"
  shows "valid_material m" "length b \<le> maxKeyMaterialBlobBytes"
    "gob_Encode g \<lparr>env_Version = codecVersion, env_Share = km_Share m,
       env_Meta = \<lparr>mt_ChainCode = km_ChainCode m, mt_PublicKeyFormat = km_PublicKeyFormat m,
                   mt_DerivationScheme = km_DerivationScheme m\<rparr>\<rparr> = Inr b"
  using assms
  by (auto simp: MarshalKeyMaterial_def validateKeyMaterialMeta_def valid_material_def Let_def
      split: if_splits sum.splits)

lemma Unmarshal_Inr:
  assumes "UnmarshalKeyMaterial g b = Inr m"
  shows "valid_material m" "length b \<le> maxKeyMaterialBlobBytes"
  using assms
  by (auto simp: UnmarshalKeyMaterial_def validateKeyMaterialMeta_def valid_material_def
      copyAndClearBytes_def split: if_splits sum.splits)

lemma Unmarshal_Marshal:
  assumes "wf_gob g" "MarshalKeyMaterial g m = Inr b"
  shows "UnmarshalKeyMaterial g b = Inr m"
  using assms(1) Marshal_Inr [OF assms(2)]
  by (auto simp: UnmarshalKeyMaterial_def wf_gob_def validateKeyMaterialMeta_def valid_material_def
      copyAndClearBytes_def)

lemma valid_material_rejected: "\<not> valid_material m \<Longrightarrow>
  MarshalKeyMaterial g m = Inl (errorf ErrInvalidSharePayload ''unsupported key material metadata'')"
  by (auto simp: MarshalKeyMaterial_def validateKeyMaterialMeta_def valid_material_def Let_def)

section \<open>Compressed keys\<close>

lemma big_Bytes_length: "x < 256 ^ n \<Longrightarrow> length (big_Bytes x) \<le> n"
proof (induction x arbitrary: n rule: big_Bytes.induct)
  case (1 x)
  show ?case
  proof (cases "x = 0")
    case True
    then show ?thesis by (simp add: big_Bytes.simps)
  next
    case False
    then obtain k where k: "n = Suc k" using "1.prems" by (cases n) auto
    have "x div 256 < 256 ^ k" using "1.prems" k by (simp add: less_mult_imp_div_less mult.commute)
    with "1.IH" [OF False, of k] show ?thesis by (simp add: big_Bytes.simps [of x] False k)
  qed
qed

lemma byte_of_0 [simp]: "byte_of 0 = CHR 0x00"
  by code_simp

lemma FillBytes_big_Bytes:
  "x < 256 ^ n \<Longrightarrow> FillBytes n x = replicate (n - length (big_Bytes x)) CHR 0x00 @ big_Bytes x"
proof (induction n arbitrary: x)
  case 0
  then show ?case by (simp add: big_Bytes.simps)
next
  case (Suc n)
  have d: "x div 256 < 256 ^ n" using Suc.prems by (simp add: less_mult_imp_div_less mult.commute)
  show ?case
  proof (cases "x = 0")
    case True
    have "FillBytes n 0 = replicate n CHR 0x00"
      using Suc.IH [of 0] by (simp add: big_Bytes.simps)
    then show ?thesis by (simp add: True big_Bytes.simps replicate_append_same)
  next
    case False
    then show ?thesis using Suc.IH [OF d] by (simp add: big_Bytes.simps [of x])
  qed
qed

lemma encodeCompressed_wf:
  assumes "wf_curve c" "cv_IsOnCurve c x y"
  shows "encodeCompressedSecp256k1Point x y = Inr (byte_of (2 + nat (y mod 2)) # FillBytes 32 (nat x))"
proof -
  have x: "nat \<bar>x\<bar> = nat x" "nat x < 256 ^ 32"
    using wf_curve_onD [OF assms] nat_less_pow by auto
  have l: "length (big_Bytes (nat x)) \<le> 32" using x(2) by (rule big_Bytes_length)
  have "33 - length (big_Bytes (nat x)) = Suc (32 - length (big_Bytes (nat x)))" using l by simp
  then show ?thesis
    using l FillBytes_big_Bytes [OF x(2)]
    by (simp add: encodeCompressedSecp256k1Point_def compressedSecp256k1PublicKeyLength_def x(1) Let_def)
qed

lemma compressed_mk_point:
  assumes "wf_curve c" "cv_IsOnCurve c x y"
  shows "compressedSecp256k1PublicKey c (Some (mk_point x y))
    = Inr (byte_of (2 + nat (y mod 2)) # FillBytes 32 (nat x))"
  using wf_curve_onD(8) [OF assms] assms(2)
  by (auto simp: compressedSecp256k1PublicKey_def mk_point_def encodeCompressed_wf [OF assms] sgn_0_0)

lemma compressed_Inr:
  assumes "wf_curve c" "compressedSecp256k1PublicKey c pt = Inr b"
  obtains x y p where "pt = Some p" "pt_X p = Some x" "pt_Y p = Some y" "cv_IsOnCurve c x y"
    "b = byte_of (2 + nat (y mod 2)) # FillBytes 32 (nat x)"
  using assms encodeCompressed_wf [OF assms(1)]
  by (auto simp: compressedSecp256k1PublicKey_def split: option.splits if_splits)

lemma Inspect_Inr:
  assumes "InspectEncodedECDSAKeyMaterial c g b = Inr ev"
  obtains m where "UnmarshalKeyMaterial g b = Inr m"
    "compressedSecp256k1PublicKey c (sp_ECDSAPub (km_Share m)) = Inr (ev_AccountPublicKey ev)"
    "ev_CodecVersion ev = codecVersion" "ev_ChainCodeHash ev = Sum256 (km_ChainCode m)"
  using assms
  by (auto simp: InspectEncodedECDSAKeyMaterial_def inspectBody_def split: sum.splits if_splits)

lemma marshal_codec: "wf_gob g \<Longrightarrow> codec (MarshalKeyMaterial g) (UnmarshalKeyMaterial g)"
  by unfold_locales (rule Unmarshal_Marshal)

lemma Unmarshal_error:
  assumes "UnmarshalKeyMaterial g b = Inl e"
  shows "is_panic e \<or> errors_Is e ErrInvalidSharePayload \<or> errors_Is e ErrUnsupportedVersion"
  using assms
  by (auto simp: UnmarshalKeyMaterial_def validateKeyMaterialMeta_def split: if_splits sum.splits)

lemma Unmarshal_envelope:
  assumes "UnmarshalKeyMaterial g b = Inr m"
  obtains rest where "gob_Decode g b = Inr
      (\<lparr>env_Version = 2, env_Share = km_Share m,
        env_Meta = \<lparr>mt_ChainCode = km_ChainCode m, mt_PublicKeyFormat = ''uncompressed_hex'',
                    mt_DerivationScheme = ''bip32_secp256k1''\<rparr>\<rparr>, rest)"
    "gob_DecodeNext g rest = Some (Sentinel IoEOF)"
proof -
  obtain env rest where *: "gob_Decode g b = Inr (env, rest)" "gob_DecodeNext g rest = Some (Sentinel IoEOF)"
      "env_Version env = 2" "env_Share env = km_Share m" "mt_ChainCode (env_Meta env) = km_ChainCode m"
      "mt_PublicKeyFormat (env_Meta env) = ''uncompressed_hex''"
      "mt_DerivationScheme (env_Meta env) = ''bip32_secp256k1''"
    using assms by (auto simp: UnmarshalKeyMaterial_def validateKeyMaterialMeta_def copyAndClearBytes_def
        codecVersion_def split: if_splits sum.splits prod.splits)
  then have "env = \<lparr>env_Version = 2, env_Share = km_Share m,
        env_Meta = \<lparr>mt_ChainCode = km_ChainCode m, mt_PublicKeyFormat = ''uncompressed_hex'',
                    mt_DerivationScheme = ''bip32_secp256k1''\<rparr>\<rparr>" by simp
  with * that show thesis by blast
qed

text \<open>A stream format for concrete instances: it knows a single value.\<close>

definition sample_share :: LocalPartySaveData where
  "sample_share = \<lparr>sp_ECDSAPub = Some (mk_point 1 sample_y), sp_BigXj = [], sp_Ks = [], sp_Rest = []\<rparr>"

definition sample_material :: ECDSAKeyMaterial where
  "sample_material = \<lparr>km_Share = sample_share, km_ChainCode = replicate 32 CHR 0x01,
     km_PublicKeyFormat = codecPublicKeyFormat, km_DerivationScheme = codecDerivationScheme\<rparr>"

definition sample_envelope :: shareEnvelope where
  "sample_envelope = \<lparr>env_Version = codecVersion, env_Share = sample_share,
     env_Meta = \<lparr>mt_ChainCode = replicate 32 CHR 0x01, mt_PublicKeyFormat = codecPublicKeyFormat,
                 mt_DerivationScheme = codecDerivationScheme\<rparr>\<rparr>"

definition sample_gob :: gob where
  "sample_gob = \<lparr>gob_Encode = (\<lambda>e. if e = sample_envelope then Inr ''s'' else Inl (errors_New ''gob'')),
     gob_Decode = (\<lambda>b. if b = ''s'' then Inr (sample_envelope, []) else Inl (errors_New ''gob'')),
     gob_DecodeNext = (\<lambda>rest. if rest = [] then Some (Sentinel IoEOF) else None)\<rparr>"

lemma sample_gob_wf: "wf_gob sample_gob"
  by (auto simp: wf_gob_def sample_gob_def)

lemma sample_marshal: "MarshalKeyMaterial sample_gob sample_material = Inr ''s''"
  by (simp add: MarshalKeyMaterial_def sample_material_def sample_gob_def sample_envelope_def
      validateKeyMaterialMeta_def maxKeyMaterialBlobBytes_def)

section \<open>Properties\<close>

text \<open>
  C20.  Key material that marshals is unmarshalled to itself, from a blob of at most one MiB; material
  without a 32-octet chain code or with other metadata than codec version 2 prescribes is never
  written.  The gob stream format is a parameter with its documented behaviour.
\<close>

theorem share_codec_roundtrip:
  assumes "wf_gob g"
  shows "case MarshalKeyMaterial g m of
           Inr b \<Rightarrow> UnmarshalKeyMaterial g b = Inr m \<and> length b \<le> 2 ^ 20 \<and> length (km_ChainCode m) = 32
             \<and> km_PublicKeyFormat m = ''uncompressed_hex'' \<and> km_DerivationScheme m = ''bip32_secp256k1''
         | Inl e \<Rightarrow> errors_Is e ErrInvalidSharePayload"
proof (cases "MarshalKeyMaterial g m")
  case (Inl e)
  then show ?thesis
    by (auto simp: MarshalKeyMaterial_def validateKeyMaterialMeta_def Let_def split: if_splits sum.splits)
next
  case (Inr b)
  then show ?thesis
    using codec.dec_enc [OF marshal_codec [OF assms] Inr] Marshal_Inr [OF Inr]
    by (simp add: valid_material_def maxKeyMaterialBlobBytes_def)
qed

theorem share_codec_roundtrip_witness:
  "UnmarshalKeyMaterial sample_gob ''s'' = Inr sample_material"
  using share_codec_roundtrip [OF sample_gob_wf, of sample_material] by (simp add: sample_marshal)

text \<open>
  C21.  Whatever blob is accepted is at most one MiB, holds exactly one gob value with nothing after
  it, of envelope version 2, with a 32-octet chain code and the two metadata constants; every refusal
  is one of the two documented sentinels unless the decoder itself panics.
\<close>

theorem share_decoder_accepts_only_v2:
  "case UnmarshalKeyMaterial g b of
     Inr m \<Rightarrow> length b \<le> 2 ^ 20 \<and> length (km_ChainCode m) = 32
       \<and> (\<exists>rest. gob_Decode g b = Inr
            (\<lparr>env_Version = 2, env_Share = km_Share m,
              env_Meta = \<lparr>mt_ChainCode = km_ChainCode m, mt_PublicKeyFormat = ''uncompressed_hex'',
                          mt_DerivationScheme = ''bip32_secp256k1''\<rparr>\<rparr>, rest)
          \<and> gob_DecodeNext g rest = Some (Sentinel IoEOF))
   | Inl e \<Rightarrow> is_panic e \<or> errors_Is e ErrInvalidSharePayload \<or> errors_Is e ErrUnsupportedVersion"
proof (cases "UnmarshalKeyMaterial g b")
  case (Inl e)
  then show ?thesis using Unmarshal_error [OF Inl] by simp
next
  case (Inr m)
  from Inr show ?thesis
    by (rule Unmarshal_envelope)
       (use Inr Unmarshal_Inr [OF Inr] in \<open>simp add: valid_material_def maxKeyMaterialBlobBytes_def\<close>)
qed

text \<open>
  C22.  Inspection of a blob never panics, whatever the blob and the decoder do; what it reports is
  the compressed point of the decoded share, which is on the curve, and the SHA-256 of its chain code.
\<close>

theorem inspection_total_and_faithful:
  assumes "wf_curve c"
  shows "case InspectEncodedECDSAKeyMaterial c g b of
           Inr ev \<Rightarrow> (\<exists>m x y. UnmarshalKeyMaterial g b = Inr m
               \<and> sp_ECDSAPub (km_Share m) = Some (mk_point x y) \<and> cv_IsOnCurve c x y
               \<and> ev_AccountPublicKey ev = byte_of (2 + nat (y mod 2)) # FillBytes 32 (nat x)
               \<and> ev_ChainCodeHash ev = Sum256 (km_ChainCode m) \<and> ev_CodecVersion ev = 2)
         | Inl e \<Rightarrow> \<not> is_panic e"
proof (cases "InspectEncodedECDSAKeyMaterial c g b")
  case (Inl e)
  then show ?thesis by (auto simp: InspectEncodedECDSAKeyMaterial_def split: sum.splits if_splits)
next
  case (Inr ev)
  then obtain m where m: "UnmarshalKeyMaterial g b = Inr m"
      "compressedSecp256k1PublicKey c (sp_ECDSAPub (km_Share m)) = Inr (ev_AccountPublicKey ev)"
      "ev_CodecVersion ev = codecVersion" "ev_ChainCodeHash ev = Sum256 (km_ChainCode m)"
    by (rule Inspect_Inr)
  from assms m(2) obtain x y p where p: "sp_ECDSAPub (km_Share m) = Some p" "pt_X p = Some x" "pt_Y p = Some y"
      "cv_IsOnCurve c x y" "ev_AccountPublicKey ev = byte_of (2 + nat (y mod 2)) # FillBytes 32 (nat x)"
    by (rule compressed_Inr)
  then have "p = mk_point x y" by (simp add: mk_point_def)
  with p m Inr show ?thesis by (auto simp: codecVersion_def)
qed

theorem inspection_total_and_faithful_witness:
  "case InspectEncodedECDSAKeyMaterial secp256k1 sample_gob ''x'' of Inr ev \<Rightarrow> False | Inl e \<Rightarrow> \<not> is_panic e"
proof -
  have "InspectEncodedECDSAKeyMaterial secp256k1 sample_gob ''x''
    = Inl (errorf ErrInvalidSharePayload ''decode'')"
    by (simp add: InspectEncodedECDSAKeyMaterial_def inspectBody_def UnmarshalKeyMaterial_def sample_gob_def
        maxKeyMaterialBlobBytes_def)
  then show ?thesis
    using inspection_total_and_faithful [OF wf_secp256k1, of sample_gob "''x''"] by simp
qed

text \<open>
  C23.  Persisting after key generation either leaves the store alone and reports an error, or calls
  the application's writer exactly once, with the caller's identifiers and a blob from which
  inspection reads back the share's compressed account key and the hash of the chain code.
\<close>

theorem persist_then_inspect:
  assumes "wf_gob g" "wf_curve c" "sp_ECDSAPub share = Some (mk_point x y)" "cv_IsOnCurve c x y"
  shows "(\<exists>e. PersistKeyMaterialAfterDKG g save share inp st = (st, Some e)
              \<and> errors_Is e ErrInvalidSharePayload) \<or>
    (\<exists>blob. PersistKeyMaterialAfterDKG g save share inp st
       = save st \<lparr>si_SessionID = pi_SessionID inp, si_KeyID = pi_KeyID inp, si_LocalPartyID = pi_LocalPartyID inp,
            si_OpaqueDescriptorFingerprint = pi_OpaqueDescriptorFingerprint inp, si_CodecBlob = blob\<rparr>
     \<and> InspectEncodedECDSAKeyMaterial c g blob
       = Inr \<lparr>ev_CodecVersion = 2, ev_AccountPublicKey = byte_of (2 + nat (y mod 2)) # FillBytes 32 (nat x),
              ev_ChainCodeHash = Sum256 (pi_ChainCode inp)\<rparr>)"
proof -
  let ?m = "\<lparr>km_Share = share, km_ChainCode = pi_ChainCode inp, km_PublicKeyFormat = pi_PublicKeyFormat inp,
              km_DerivationScheme = pi_DerivationScheme inp\<rparr>"
  show ?thesis
  proof (cases "MarshalKeyMaterial g ?m")
    case (Inl e)
    then have "errors_Is e ErrInvalidSharePayload"
      by (auto simp: MarshalKeyMaterial_def validateKeyMaterialMeta_def Let_def split: if_splits sum.splits)
    with Inl show ?thesis by (simp add: PersistKeyMaterialAfterDKG_def)
  next
    case (Inr blob)
    have u: "UnmarshalKeyMaterial g blob = Inr ?m" by (rule Unmarshal_Marshal [OF assms(1) Inr])
    have "length (pi_ChainCode inp) = 32" using Marshal_Inr(1) [OF Inr] by (simp add: valid_material_def)
    with u have "InspectEncodedECDSAKeyMaterial c g blob
       = Inr \<lparr>ev_CodecVersion = 2, ev_AccountPublicKey = byte_of (2 + nat (y mod 2)) # FillBytes 32 (nat x),
              ev_ChainCodeHash = Sum256 (pi_ChainCode inp)\<rparr>"
      using compressed_mk_point [OF assms(2,4)] assms(3)
      by (simp add: InspectEncodedECDSAKeyMaterial_def inspectBody_def codecVersion_def)
    with Inr show ?thesis by (intro disjI2 exI [of _ blob]) (simp add: PersistKeyMaterialAfterDKG_def)
  qed
qed

definition sample_persist_input :: DKGPersistInput where
  "sample_persist_input = \<lparr>pi_SessionID = ''s'', pi_KeyID = ''k'', pi_LocalPartyID = ''A'',
     pi_OpaqueDescriptorFingerprint = [], pi_ChainCode = replicate 32 CHR 0x01,
     pi_PublicKeyFormat = codecPublicKeyFormat, pi_DerivationScheme = codecDerivationScheme\<rparr>"

lemma sample_persist:
  "PersistKeyMaterialAfterDKG sample_gob (\<lambda>st i. (i # st, None)) sample_share sample_persist_input []
   = ([\<lparr>si_SessionID = ''s'', si_KeyID = ''k'', si_LocalPartyID = ''A'',
        si_OpaqueDescriptorFingerprint = [], si_CodecBlob = ''s''\<rparr>], None)"
  using sample_marshal
  by (simp add: PersistKeyMaterialAfterDKG_def sample_persist_input_def sample_material_def)

theorem persist_then_inspect_witness:
  "InspectEncodedECDSAKeyMaterial secp256k1 sample_gob ''s''
     = Inr \<lparr>ev_CodecVersion = 2, ev_AccountPublicKey = byte_of (2 + nat (sample_y mod 2)) # FillBytes 32 1,
            ev_ChainCodeHash = Sum256 (replicate 32 CHR 0x01)\<rparr>"
proof -
  have "sp_ECDSAPub sample_share = Some (mk_point 1 sample_y)" by (simp add: sample_share_def)
  from persist_then_inspect [OF sample_gob_wf wf_secp256k1 this sample_point,
      of "\<lambda>st i. (i # st, None)" sample_persist_input "[]"]
  show ?thesis unfolding sample_persist by (simp add: sample_persist_input_def)
qed

end
