(* ===== verification/Build_Params.thy ===== *)
theory Build_Params
  imports Execution "HOL-Library.List_Lexorder" "HOL-Library.Char_ord"
    "HOL-Library.Multiset"
begin

text \<open>
  Session parameters for tss-lib (\<^verbatim>\<open>internal/tssbnb/utils/build_params.go\<close>) and the classification
  of session errors (\<^verbatim>\<open>classify.go\<close>).  Go sorts strings by octets, which is the lexicographic order
  of \<^typ>\<open>char list\<close> here.  \<^verbatim>\<open>tsslib.SortPartyIDs\<close>, which orders party identifiers by key, is the
  argument \<open>sortIDs\<close>; \<^verbatim>\<open>NewPartyID\<close>, \<^verbatim>\<open>NewPeerContext\<close> and \<^verbatim>\<open>NewParameters\<close> only store their
  arguments and are the records \<open>PartyID\<close> and \<open>Parameters\<close>.

  Shown: the threshold handed to tss-lib is one less than the required number of signers, which lies
  between two and the number of parties, the local party is one of the parties, and the parameters do
  not depend on the order in which the caller lists the parties.
\<close>

section \<open>The code\<close>

datatype tss_curve = S256 | Edwards

record Parameters =
  tp_Curve :: tss_curve
  tp_Parties :: "PartyID list"
  tp_Local :: PartyID
  tp_PartyCount :: nat
  tp_Threshold :: int

definition toTSSLibThreshold :: "int \<Rightarrow> int \<Rightarrow> int result" where
  "toTSSLibThreshold requiredSignerCount partyCount =
     (if requiredSignerCount < 2 \<or> requiredSignerCount > partyCount
      then Inl (errors_New ''invalid required signer count'')
      else Inr (requiredSignerCount - 1))"

definition stablePartyKey :: "string \<Rightarrow> nat" where
  "stablePartyKey partyID = (let key = SetBytes (Sum256 partyID) in if key = 0 then 1 else key)"

definition newPartyID :: "string \<Rightarrow> PartyID" where
  "newPartyID partyID = \<lparr>pid_Id = partyID, pid_Moniker = partyID, pid_Key = stablePartyKey partyID\<rparr>"

definition pickLocalPartyID :: "string list \<Rightarrow> (string \<Rightarrow> PartyID option) \<Rightarrow> string \<Rightarrow> PartyID option" where
  "pickLocalPartyID sortedParties partyMap requested =
     (if requested \<noteq> [] then partyMap requested
      else if sortedParties = [] then None
      else partyMap (sortedParties ! 0))"

text \<open>
  \<^verbatim>\<open>strings.EqualFold\<close> against a text whose letters have no case variants outside ASCII (as in
  \<open>ed25519\<close>) compares the ASCII lower-case forms.
\<close>

definition EqualFold :: "string \<Rightarrow> string \<Rightarrow> bool" where
  "EqualFold s t = (map ascii_lower s = map ascii_lower t)"

definition selectCurve :: "string \<Rightarrow> string \<Rightarrow> tss_curve result" where
  "selectCurve curve algorithm =
     (let alg = ToLower (TrimSpace algorithm) in
      if alg = [] \<or> alg = ''ecdsa'' then
        (if curve = [] then Inr S256
         else if ToLower (TrimSpace curve) = ''secp256k1'' then Inr S256
         else Inl (errors_New ''unsupported ecdsa curve''))
      else if alg = ''eddsa'' then
        (if curve = [] \<or> EqualFold curve ''ed25519'' then Inr Edwards
         else Inl (errors_New ''unsupported eddsa curve''))
      else Inl (errors_New ''unsupported algorithm''))"

definition BuildParams ::
  "(PartyID list \<Rightarrow> PartyID list) \<Rightarrow> string list \<Rightarrow> string \<Rightarrow> int \<Rightarrow> string \<Rightarrow> string
   \<Rightarrow> (Parameters \<times> (string \<Rightarrow> PartyID option) \<times> PartyID) result" where
  "BuildParams sortIDs parties localPartyID requiredSignerCount curve algorithm =
     (if length parties < 2 then Inl (errors_New ''tss requires at least 2 parties'')
      else (case toTSSLibThreshold requiredSignerCount (int (length parties)) of
              Inl err \<Rightarrow> Inl err
            | Inr tssThreshold \<Rightarrow>
                let sortedParties = sort parties;
                    partyIDs = map newPartyID sortedParties;
                    partyMap = foldl (\<lambda>m p. m(p \<mapsto> newPartyID p)) Map.empty sortedParties
                in case pickLocalPartyID sortedParties partyMap localPartyID of
                     None \<Rightarrow> Inl (errors_New ''unknown local party id'')
                   | Some local \<Rightarrow>
                       let sortedIDs = sortIDs partyIDs in
                       (case selectCurve curve algorithm of
                          Inl err \<Rightarrow> Inl err
                        | Inr selectedCurve \<Rightarrow>
                            Inr (\<lparr>tp_Curve = selectedCurve, tp_Parties = sortedIDs, tp_Local = local,
                                  tp_PartyCount = length sortedIDs, tp_Threshold = tssThreshold\<rparr>,
                                 partyMap, local))))"

datatype slog_level = LevelDebug | LevelInfo | LevelWarn | LevelError

definition ClassifyErr :: "error option \<Rightarrow> string \<times> slog_level \<times> bool" where
  "ClassifyErr err =
     (case err of
        None \<Rightarrow> (''success'', LevelInfo, False)
      | Some e \<Rightarrow>
          if errors_Is e ContextCanceled then (''canceled'', LevelDebug, False)
          else if errors_Is e ContextDeadlineExceeded then (''timeout'', LevelWarn, True)
          else (''error'', LevelError, True))"

section \<open>Facts\<close>

lemma partyMap_fold:
  "foldl (\<lambda>m p. m(p \<mapsto> f p)) m0 ps = (\<lambda>p. if p \<in> set ps then Some (f p) else m0 p)"
  by (induction ps arbitrary: m0) (auto simp: fun_eq_iff)

lemma stablePartyKey_pos: "0 < stablePartyKey p"
  by (simp add: stablePartyKey_def Let_def)

lemma stablePartyKey_bound: "stablePartyKey p < 2 ^ 256"
  using SetBytes_bound [of "Sum256 p"] by (simp add: stablePartyKey_def Let_def)

lemma BuildParams_Inr:
  assumes "BuildParams sortIDs parties l n curve alg = Inr (params, m, local)"
  shows "2 \<le> n" "n \<le> int (length parties)" "tp_Threshold params = n - 1"
    "m = (\<lambda>p. if p \<in> set parties then Some (newPartyID p) else None)"
    "tp_Local params = local" "\<exists>p\<in>set parties. local = newPartyID p \<and> (l \<noteq> [] \<longrightarrow> p = l)"
    "tp_Parties params = sortIDs (map newPartyID (sort parties))"
    "selectCurve curve alg = Inr (tp_Curve params)"
proof -
  let ?m = "\<lambda>p. if p \<in> set parties then Some (newPartyID p) else None"
  have pm: "foldl (\<lambda>m p. m(p \<mapsto> newPartyID p)) Map.empty (sort parties) = ?m"
    by (simp add: partyMap_fold fun_eq_iff)
  have len: "sort parties \<noteq> []" if "\<not> length parties < 2"
    using that by (metis length_0_conv length_sort less_numeral_extra(1) numeral_2_eq_2 zero_less_Suc)
  note d = BuildParams_def pm toTSSLibThreshold_def Let_def
  show "2 \<le> n" "n \<le> int (length parties)" "tp_Threshold params = n - 1" "m = ?m" "tp_Local params = local"
    "tp_Parties params = sortIDs (map newPartyID (sort parties))" "selectCurve curve alg = Inr (tp_Curve params)"
    using assms by (auto simp: d split: if_splits option.splits sum.splits)
  have pick: "pickLocalPartyID (sort parties) ?m l = Some local"
    using assms by (auto simp: d split: if_splits option.splits sum.splits)
  have "sort parties ! 0 \<in> set parties" if "sort parties \<noteq> []"
    using that by (metis length_greater_0_conv nth_mem set_sort)
  with pick show "\<exists>p\<in>set parties. local = newPartyID p \<and> (l \<noteq> [] \<longrightarrow> p = l)"
    by (auto simp: pickLocalPartyID_def split: if_splits)
qed

section \<open>Properties\<close>


lemma sample_build:
  "\<exists>params m local. BuildParams (\<lambda>ids. ids) [''B'', ''A''] ''B'' 2 [] [] = Inr (params, m, local)"
proof -
  have "ToLower (TrimSpace []) = []" by code_simp
  moreover have "set (sort [''B'', ''A'']) = {''B'', ''A''}" by auto
  ultimately show ?thesis
    by (simp add: BuildParams_def toTSSLibThreshold_def pickLocalPartyID_def partyMap_fold selectCurve_def
        del: sort_key_simps)
qed


text \<open>
  All participants agree: the parameters, the party map and the local identity depend on the
  parties only as a multiset, not on the order in which a participant happens to list them.
\<close>

theorem parameters_order_independent:
  assumes "mset parties = mset parties'"
  shows "BuildParams sortIDs parties l n curve alg = BuildParams sortIDs parties' l n curve alg"
proof -
  have "sort parties = sort parties'" 
    using assms properties_for_sort [of "sort parties'" parties] by simp
  moreover have "length parties = length parties'" using assms by (metis size_mset)
  ultimately show ?thesis unfolding BuildParams_def by (simp only:)
qed

theorem parameters_order_independent_witness:
  "BuildParams (\<lambda>ids. ids) [''B'', ''A''] ''B'' 2 [] [] = BuildParams (\<lambda>ids. ids) [''A'', ''B''] ''B'' 2 [] []"
  by (rule parameters_order_independent) simp

end
