(* ===== verification/Session_Flow.thy ===== *)
theory Session_Flow
  imports Build_Params
begin

text \<open>
  One key generation or signing run (\<^verbatim>\<open>internal/tssbnb/flow/dkg.go\<close> and \<^verbatim>\<open>sign.go\<close>) and the runner that
  keeps their results (\<^verbatim>\<open>internal/tssbnb/runner\<close>).  The tss-lib party constructors, the party order and
  the message codec are the fields of \<open>machine\<close>, pre-parameters are an opaque type \<open>'pre\<close>.  A run is
  given the state of its environment and what its main loop meets; it yields \<open>None\<close> while the main loop
  is still waiting.  Calls to the metrics interface are returned in order; logging is left out.  The
  runner's two maps are functions to options, and each method that touches them is one critical section.

  Shown: a failed run leaves the runner's maps alone, a successful key generation exports exactly the
  share of the protocol-done event, and no signature is ever stored whose message is not the digest.
\<close>

section \<open>Key generation\<close>

record ('t, 'p, 'm, 'pre) machine =
  mc_env :: "'t env"
  mc_iter :: iter_order
  mc_lib :: "('p, 'm) tsslib"
  mc_sortIDs :: "PartyID list \<Rightarrow> PartyID list"
  mc_ECDSAKeygen :: "Parameters \<Rightarrow> 'pre option \<Rightarrow> 'p"
  mc_EdDSAKeygen :: "Parameters \<Rightarrow> 'p"
  mc_ECDSASigning :: "nat \<Rightarrow> Parameters \<Rightarrow> LocalPartySaveData \<Rightarrow> int \<Rightarrow> 'p"

record 'pre DKGJob =
  dj_SessionID :: string
  dj_LocalPartyID :: string
  dj_OrgID :: string
  dj_Parties :: "string list"
  dj_Threshold :: u32
  dj_Curve :: string
  dj_Algorithm :: string
  dj_ECDSAPreParams :: "'pre option"

definition BuildDKG :: "('t, 'p, 'm, 'pre) machine \<Rightarrow> Parameters \<Rightarrow> string \<Rightarrow> 'pre option \<Rightarrow> 'p result" where
  "BuildDKG mc params algorithm preParams =
     (let alg = ToLower (TrimSpace algorithm) in
      if alg = [] \<or> alg = ''ecdsa'' then Inr (mc_ECDSAKeygen mc params preParams)
      else if alg = ''eddsa'' then Inr (mc_EdDSAKeygen mc params)
      else Inl (errors_New ''unsupported algorithm''))"

definition newDKGExecution ::
  "('t, 'p, 'm, 'pre) machine \<Rightarrow> RunnerConfig \<Rightarrow> string \<Rightarrow> 'pre DKGJob \<Rightarrow> (ttlFrameDeduper, 'p) exec result" where
  "newDKGExecution mc cfg correlationID job =
     (case BuildParams (mc_sortIDs mc) (dj_Parties job) (dj_LocalPartyID job) (uint (dj_Threshold job))
             (dj_Curve job) (dj_Algorithm job) of
        Inl err \<Rightarrow> Inl err
      | Inr (params, partyIDs, _) \<Rightarrow>
          (case BuildDKG mc params (dj_Algorithm job) (dj_ECDSAPreParams job) of
             Inl err \<Rightarrow> Inl err
           | Inr party \<Rightarrow>
               Inr (New \<lparr>pa_SessionID = dj_SessionID job, pa_LocalPartyID = dj_LocalPartyID job,
                         pa_CorrelationID = correlationID, pa_Stage = ''dkg'',
                         pa_Algorithm = NormalizeAlgorithm (dj_Algorithm job),
                         pa_DerivationContextHash = [], pa_Party = party, pa_PartyIDs = partyIDs,
                         pa_Config = cfg\<rparr>)))"

text \<open>How a failed run is counted.\<close>

definition failureMetrics :: "string \<Rightarrow> error \<Rightarrow> metric list" where
  "failureMetrics stage err =
     (case ClassifyErr (Some err) of
        (kind, _, _) \<Rightarrow> (if kind = ''timeout'' then [Timeouts stage] else []) @ [SessionsFailed stage kind])"

text \<open>The metrics of the run, the key share handed to the callback, and the error.\<close>

definition flow_RunDKG ::
  "('t, 'p, 'm, 'pre) machine \<Rightarrow> RunnerConfig \<Rightarrow> 't \<Rightarrow> occurrence list \<Rightarrow> 'pre DKGJob
   \<Rightarrow> (metric list \<times> LocalPartySaveData option \<times> error option) option" where
  "flow_RunDKG mc cfg t occ job =
     (case en_Rand (mc_env mc) t of (t1, b) \<Rightarrow>
        case newDKGExecution mc cfg (idgen_New ''corr'' b) job of
          Inl err \<Rightarrow> Some ([SessionsStarted ''dkg''], None, Some err)
        | Inr e \<Rightarrow>
            (case Run (mc_env mc) (ShouldAccept (mc_iter mc)) (mc_lib mc) (e, t1) occ of
               None \<Rightarrow> None
             | Some (e', st, Some err) \<Rightarrow>
                 Some ([SessionsStarted ''dkg''] @ ex_metrics e' @ failureMetrics ''dkg'' err, None, Some err)
             | Some (e', st, None) \<Rightarrow>
                 Some ([SessionsStarted ''dkg''] @ ex_metrics e'
                         @ [SessionsSucceeded ''dkg'', SessionDuration ''dkg''],
                       ex_ecdsaKeyShare e', None)))"

section \<open>Signing\<close>

record SignJob =
  sj_SessionID :: string
  sj_LocalPartyID :: string
  sj_OrgID :: string
  sj_KeyID :: string
  sj_Parties :: "string list"
  sj_Digest :: bytes
  sj_Algorithm :: string
  sj_Chain :: string
  sj_KeyShare :: LocalPartySaveData
  sj_KeyDerivationDelta :: "int option"
  sj_DerivationContextHash :: string

definition BuildSign ::
  "('t, 'p, 'm, 'pre) machine \<Rightarrow> bytes \<Rightarrow> Parameters \<Rightarrow> LocalPartySaveData \<Rightarrow> int option \<Rightarrow> 'p result" where
  "BuildSign mc digest params keyShare keyDerivationDelta =
     (case keyDerivationDelta of
        None \<Rightarrow> Inl (Sentinel ErrKeyDerivationDeltaRequired)
      | Some delta \<Rightarrow> Inr (mc_ECDSASigning mc (SetBytes digest) params keyShare delta))"

definition newSignExecution ::
  "('t, 'p, 'm, 'pre) machine \<Rightarrow> RunnerConfig \<Rightarrow> string \<Rightarrow> SignJob \<Rightarrow> (ttlFrameDeduper, 'p) exec result" where
  "newSignExecution mc cfg correlationID job =
     (case BuildParams (mc_sortIDs mc) (sj_Parties job) (sj_LocalPartyID job) (int (length (sj_Parties job)))
             [] ''ecdsa'' of
        Inl err \<Rightarrow> Inl err
      | Inr (params, partyIDs, _) \<Rightarrow>
          (case BuildSign mc (sj_Digest job) params (sj_KeyShare job) (sj_KeyDerivationDelta job) of
             Inl err \<Rightarrow> Inl err
           | Inr party \<Rightarrow>
               Inr (New \<lparr>pa_SessionID = sj_SessionID job, pa_LocalPartyID = sj_LocalPartyID job,
                         pa_CorrelationID = correlationID, pa_Stage = ''sign'', pa_Algorithm = ''ecdsa'',
                         pa_DerivationContextHash = sj_DerivationContextHash job, pa_Party = party,
                         pa_PartyIDs = partyIDs, pa_Config = cfg\<rparr>)))"

definition cloneSignatureFields :: "bytes \<Rightarrow> bytes \<Rightarrow> bytes \<Rightarrow> bytes \<Rightarrow> bytes \<Rightarrow> SignatureData" where
  "cloneSignatureFields signature recovery r s m =
     \<lparr>sd_Signature = signature, sd_SignatureRecovery = recovery, sd_R = r, sd_S = s, sd_M = m\<rparr>"

text \<open>What is handed to the callback, or the mismatch.\<close>

definition deliverSignature :: "SignatureData \<Rightarrow> bytes \<Rightarrow> SignatureData result" where
  "deliverSignature signature digest =
     (if SetBytes (sd_M signature) \<noteq> SetBytes digest then Inl (Sentinel FlowErrSignDigestMismatch)
      else Inr (cloneSignatureFields (sd_Signature signature) (sd_SignatureRecovery signature)
                  (sd_R signature) (sd_S signature) digest))"

definition flow_RunSign ::
  "('t, 'p, 'm, 'pre) machine \<Rightarrow> RunnerConfig \<Rightarrow> 't \<Rightarrow> occurrence list \<Rightarrow> SignJob
   \<Rightarrow> (metric list \<times> SignatureData option \<times> error option) option" where
  "flow_RunSign mc cfg t occ job =
     (if sj_Digest job = [] then Some ([SessionsStarted ''sign''], None, Some (Sentinel FlowErrSignDigestRequired))
      else if ToLower (TrimSpace (sj_Algorithm job)) \<noteq> [] \<and> ToLower (TrimSpace (sj_Algorithm job)) \<noteq> ''ecdsa''
      then Some ([SessionsStarted ''sign''], None, Some (errorf FlowErrSignAlgorithmUnsupported []))
      else
        (case en_Rand (mc_env mc) t of (t1, b) \<Rightarrow>
           case newSignExecution mc cfg (idgen_New ''corr'' b) job of
             Inl err \<Rightarrow> Some ([SessionsStarted ''sign''], None, Some err)
           | Inr e \<Rightarrow>
               (case Run (mc_env mc) (ShouldAccept (mc_iter mc)) (mc_lib mc) (e, t1) occ of
                  None \<Rightarrow> None
                | Some (e', st, runErr) \<Rightarrow>
                    (case (case runErr of
                             Some err \<Rightarrow> Inl err
                           | None \<Rightarrow>
                               (case ex_signature e' of
                                  None \<Rightarrow> Inr None
                                | Some sig \<Rightarrow> map_sum id Some (deliverSignature sig (sj_Digest job)))) of
                       Inl err \<Rightarrow>
                         Some ([SessionsStarted ''sign''] @ ex_metrics e' @ failureMetrics ''sign'' err,
                               None, Some err)
                     | Inr delivered \<Rightarrow>
                         Some ([SessionsStarted ''sign''] @ ex_metrics e'
                                 @ [SessionsSucceeded ''sign'', SessionDuration ''sign''],
                               delivered, None)))))"

section \<open>The runner\<close>

type_synonym DKGRunKey = "string \<times> string"

record BnbRunner =
  rn_temporaryECDSADKGShares :: "DKGRunKey \<Rightarrow> LocalPartySaveData option"
  rn_ecdsaSigs :: "string \<Rightarrow> SignatureData option"
  rn_cfg :: RunnerConfig
  rn_metrics :: "metric list"

definition NewBnbRunner :: "RunnerConfig \<Rightarrow> BnbRunner" where
  "NewBnbRunner cfg =
     \<lparr>rn_temporaryECDSADKGShares = Map.empty, rn_ecdsaSigs = Map.empty, rn_cfg = cfg, rn_metrics = []\<rparr>"

definition setTemporaryECDSADKGShare :: "DKGRunKey \<Rightarrow> LocalPartySaveData \<Rightarrow> BnbRunner \<Rightarrow> BnbRunner" where
  "setTemporaryECDSADKGShare key data r =
     (if fst key = [] \<or> snd key = [] then r
      else r\<lparr>rn_temporaryECDSADKGShares := (rn_temporaryECDSADKGShares r)(key \<mapsto> data)\<rparr>)"

definition DeleteTemporaryECDSADKGShare :: "DKGRunKey \<Rightarrow> BnbRunner \<Rightarrow> BnbRunner" where
  "DeleteTemporaryECDSADKGShare key r =
     (if fst key = [] \<or> snd key = [] then r
      else r\<lparr>rn_temporaryECDSADKGShares := (rn_temporaryECDSADKGShares r)(key := None)\<rparr>)"

definition ExportTemporaryECDSADKGShare :: "DKGRunKey \<Rightarrow> BnbRunner \<Rightarrow> LocalPartySaveData result" where
  "ExportTemporaryECDSADKGShare key r =
     (case rn_temporaryECDSADKGShares r key of
        None \<Rightarrow> Inl (errorf ErrKeyShareNotFound [])
      | Some data \<Rightarrow> Inr data)"

definition cloneECDSASignature :: "SignatureData \<Rightarrow> SignatureData" where
  "cloneECDSASignature s =
     \<lparr>sd_Signature = sd_Signature s, sd_SignatureRecovery = sd_SignatureRecovery s, sd_R = sd_R s,
      sd_S = sd_S s, sd_M = sd_M s\<rparr>"

definition setECDSASignature :: "string \<Rightarrow> SignatureData option \<Rightarrow> BnbRunner \<Rightarrow> BnbRunner" where
  "setECDSASignature key data r =
     (case data of
        None \<Rightarrow> r
      | Some s \<Rightarrow> if key = [] then r
                 else r\<lparr>rn_ecdsaSigs := (rn_ecdsaSigs r)(key \<mapsto> cloneECDSASignature s)\<rparr>)"

definition ExportECDSASignature :: "string \<Rightarrow> BnbRunner \<Rightarrow> SignatureData result" where
  "ExportECDSASignature key r =
     (case rn_ecdsaSigs r key of
        None \<Rightarrow> Inl (errors_New ''ecdsa signature not found'')
      | Some s \<Rightarrow> Inr (cloneECDSASignature s))"

definition isZeroECDSAShare :: "LocalPartySaveData \<Rightarrow> bool" where
  "isZeroECDSAShare share = (sp_ECDSAPub share = None \<and> length (sp_BigXj share) = 0 \<and> length (sp_Ks share) = 0)"

definition RunDKG ::
  "('t, 'p, 'm, 'pre) machine \<Rightarrow> 't \<Rightarrow> occurrence list \<Rightarrow> 'pre DKGJob \<Rightarrow> BnbRunner
   \<Rightarrow> (BnbRunner \<times> error option) option" where
  "RunDKG mc t occ job r =
     (case flow_RunDKG mc (rn_cfg r) t occ job of
        None \<Rightarrow> None
      | Some (ms, keyShare, err) \<Rightarrow>
          let r = r\<lparr>rn_metrics := rn_metrics r @ ms\<rparr>;
              r = (case keyShare of
                     None \<Rightarrow> r
                   | Some data \<Rightarrow> setTemporaryECDSADKGShare (dj_SessionID job, dj_LocalPartyID job) data r)
          in Some (r, err))"

definition RunSign ::
  "('t, 'p, 'm, 'pre) machine \<Rightarrow> 't \<Rightarrow> occurrence list \<Rightarrow> SignJob \<Rightarrow> BnbRunner
   \<Rightarrow> (BnbRunner \<times> error option) option" where
  "RunSign mc t occ job r =
     (if isZeroECDSAShare (sj_KeyShare job)
      then Some (r, Some (errorf ErrKeyShareNotFound ''adjusted key share required''))
      else
        (case flow_RunSign mc (rn_cfg r) t occ job of
           None \<Rightarrow> None
         | Some (ms, delivered, err) \<Rightarrow>
             let r = r\<lparr>rn_metrics := rn_metrics r @ ms\<rparr>;
                 r = (case delivered of
                        None \<Rightarrow> r
                      | Some sig \<Rightarrow>
                          let r1 = setECDSASignature (sj_SessionID job) (Some sig) r
                          in if sj_KeyID job \<noteq> [] then setECDSASignature (sj_KeyID job) (Some sig) r1 else r1);
                 err = (case err of
                          None \<Rightarrow> None
                        | Some er \<Rightarrow>
                            if errors_Is er FlowErrSignDigestRequired then Some (Sentinel ErrSignDigestRequired)
                            else if errors_Is er FlowErrSignDigestMismatch then Some (Sentinel ErrSignDigestMismatch)
                            else if errors_Is er FlowErrSignAlgorithmUnsupported
                            then Some (Sentinel ErrSignAlgorithmUnsupported)
                            else Some er)
             in Some (r, err)))"

section \<open>The runner's maps as keyed stores\<close>

text \<open>What the clients of a keyed store rely on; keys that are not \<open>valid\<close> are never written.\<close>

locale keyed_store =
  fixes valid :: "'k \<Rightarrow> bool" and get :: "'k \<Rightarrow> 's \<Rightarrow> 'v option" and put :: "'k \<Rightarrow> 'v \<Rightarrow> 's \<Rightarrow> 's"
  assumes get_put: "valid k \<Longrightarrow> get k (put k v s) = Some v"
    and get_put_other: "k' \<noteq> k \<Longrightarrow> get k' (put k v s) = get k' s"
    and put_invalid: "\<not> valid k \<Longrightarrow> put k v s = s"
begin

lemma get_put_iff: "get k' (put k v s) = (if k' = k \<and> valid k then Some v else get k' s)"
  using get_put get_put_other put_invalid by (cases "valid k") auto

lemma put_put: "get k' (put k v (put k w s)) = get k' (put k v s)"
  by (simp add: get_put_iff)

end

locale deletable_store = keyed_store +
  fixes del :: "'k \<Rightarrow> 's \<Rightarrow> 's"
  assumes get_del: "valid k \<Longrightarrow> get k (del k s) = None"
    and get_del_other: "k' \<noteq> k \<Longrightarrow> get k' (del k s) = get k' s"
begin

lemma del_put: "valid k \<Longrightarrow> get k' (del k (put k v s)) = get k' (del k s)"
  by (cases "k' = k") (simp_all add: get_del get_del_other get_put_other)

end

interpretation temporary_shares: deletable_store
  "\<lambda>k. fst k \<noteq> [] \<and> snd k \<noteq> []" "\<lambda>k r. rn_temporaryECDSADKGShares r k" setTemporaryECDSADKGShare
  DeleteTemporaryECDSADKGShare
  by unfold_locales (auto simp: setTemporaryECDSADKGShare_def DeleteTemporaryECDSADKGShare_def)

lemma cloneECDSASignature_id [simp]: "cloneECDSASignature s = s"
  by (simp add: cloneECDSASignature_def)

interpretation signatures: keyed_store
  "\<lambda>k. k \<noteq> []" "\<lambda>k r. rn_ecdsaSigs r k" "\<lambda>k s. setECDSASignature k (Some s)"
  by unfold_locales (auto simp: setECDSASignature_def)

lemma set_frames [simp]:
  "rn_ecdsaSigs (setTemporaryECDSADKGShare k d r) = rn_ecdsaSigs r"
  "rn_temporaryECDSADKGShares (setECDSASignature key s r) = rn_temporaryECDSADKGShares r"
  "rn_metrics (setTemporaryECDSADKGShare k d r) = rn_metrics r"
  "rn_metrics (setECDSASignature key s r) = rn_metrics r"
  by (auto simp: setTemporaryECDSADKGShare_def setECDSASignature_def split: option.splits)

section \<open>Runs\<close>

lemma New_fresh: "outcome (New p) = (False, None, None)" "ex_metrics (New p) = []"
  by (simp_all add: outcome_def New_def)

lemma Run_New_result:
  assumes "Run env accept lib (New p, t) occ = Some (e', st, err)"
  shows "if err = None
    then (\<exists>result. OccEvent (eventProtocolDone result) None None \<in> set occ
           \<and> ex_ecdsaKeyShare e' = pr_ecdsaKeyShare result \<and> ex_signature e' = pr_signature result)
    else ex_ecdsaKeyShare e' = None \<and> ex_signature e' = None"
proof -
  have "outcome (fst (markProgress env ''start'' 0 (New p, t))) = (False, None, None)"
    unfolding markProgress_keeps(1) by (simp add: New_fresh)
  from runLoop_result [OF assms [unfolded Run_def] this] show ?thesis
    by (auto simp: outcome_def completes_def split: if_splits)
qed

lemma newDKGExecution_New: "newDKGExecution mc cfg c job = Inr e \<Longrightarrow> \<exists>p. e = New p"
  by (auto simp: newDKGExecution_def split: sum.splits prod.splits)

lemma newSignExecution_New: "newSignExecution mc cfg c job = Inr e \<Longrightarrow> \<exists>p. e = New p"
  by (auto simp: newSignExecution_def split: sum.splits prod.splits)

lemma flow_RunDKG_result:
  assumes "flow_RunDKG mc cfg t occ job = Some (ms, ks, err)"
  shows "if err = None
    then (\<exists>result. OccEvent (eventProtocolDone result) None None \<in> set occ \<and> ks = pr_ecdsaKeyShare result)
    else ks = None"
proof -
  obtain t1 b where r: "en_Rand (mc_env mc) t = (t1, b)" by fastforce
  show ?thesis
  proof (cases "newDKGExecution mc cfg (idgen_New ''corr'' b) job")
    case (Inl er)
    then show ?thesis using assms by (auto simp: flow_RunDKG_def r)
  next
    case (Inr e)
    then obtain p where e: "e = New p" using newDKGExecution_New by blast
    obtain e' st er where run: "Run (mc_env mc) (ShouldAccept (mc_iter mc)) (mc_lib mc) (New p, t1) occ = Some (e', st, er)"
      using assms Inr e by (auto simp: flow_RunDKG_def r split: option.splits prod.splits)
    from Run_New_result [OF run] run assms Inr e show ?thesis
      by (auto simp: flow_RunDKG_def r split: option.splits)
  qed
qed

lemma deliverSignature_Inr:
  "deliverSignature sig digest = Inr s \<Longrightarrow> SetBytes (sd_M sig) = SetBytes digest
     \<and> s = sig\<lparr>sd_M := digest\<rparr>"
  by (auto simp: deliverSignature_def cloneSignatureFields_def split: if_splits)

lemma flow_RunSign_result:
  assumes "flow_RunSign mc cfg t occ job = Some (ms, sg, err)"
  shows "if err = None
    then sj_Digest job \<noteq> [] \<and> (\<exists>result. OccEvent (eventProtocolDone result) None None \<in> set occ \<and>
           (case sg of None \<Rightarrow> pr_signature result = None
            | Some s \<Rightarrow> \<exists>sig. pr_signature result = Some sig \<and> SetBytes (sd_M sig) = SetBytes (sj_Digest job)
                            \<and> s = sig\<lparr>sd_M := sj_Digest job\<rparr>))
    else sg = None"
proof (cases "sj_Digest job = [] \<or> (ToLower (TrimSpace (sj_Algorithm job)) \<noteq> []
    \<and> ToLower (TrimSpace (sj_Algorithm job)) \<noteq> ''ecdsa'')")
  case True
  then show ?thesis using assms by (auto simp: flow_RunSign_def split: if_splits)
next
  case False
  obtain t1 b where r: "en_Rand (mc_env mc) t = (t1, b)" by fastforce
  show ?thesis
  proof (cases "newSignExecution mc cfg (idgen_New ''corr'' b) job")
    case (Inl er)
    then show ?thesis using assms False by (auto simp: flow_RunSign_def r split: if_splits)
  next
    case (Inr e)
    then obtain p where e: "e = New p" using newSignExecution_New by blast
    obtain e' st er where run: "Run (mc_env mc) (ShouldAccept (mc_iter mc)) (mc_lib mc) (New p, t1) occ = Some (e', st, er)"
      using assms False Inr e by (auto simp: flow_RunSign_def r split: option.splits prod.splits if_splits)
    note res = Run_New_result [OF run]
    show ?thesis
    proof (cases er)
      case (Some er')
      then show ?thesis using assms False Inr e run by (auto simp: flow_RunSign_def r split: if_splits)
    next
      case None
      with res obtain result where d: "OccEvent (eventProtocolDone result) None None \<in> set occ"
        "ex_signature e' = pr_signature result" by auto
      show ?thesis
      proof (cases "pr_signature result")
        case None': None
        then show ?thesis using assms False Inr e run None d by (auto simp: flow_RunSign_def r split: if_splits)
      next
        case (Some sig)
        then show ?thesis
          using assms False Inr e run None d deliverSignature_Inr [of sig "sj_Digest job"]
          by (cases "deliverSignature sig (sj_Digest job)") (auto simp: flow_RunSign_def r split: if_splits)
      qed
    qed
  qed
qed

text \<open>What a run leaves in the runner.\<close>

lemma RunDKG_effect:
  assumes "RunDKG mc t occ job r = Some (r', err)" "dj_SessionID job \<noteq> []" "dj_LocalPartyID job \<noteq> []"
  shows "rn_ecdsaSigs r' = rn_ecdsaSigs r \<and>
    (if err = None
     then (\<exists>result. OccEvent (eventProtocolDone result) None None \<in> set occ
        \<and> (\<forall>k. rn_temporaryECDSADKGShares r' k =
              (if k = (dj_SessionID job, dj_LocalPartyID job) \<and> pr_ecdsaKeyShare result \<noteq> None
               then pr_ecdsaKeyShare result else rn_temporaryECDSADKGShares r k))
        \<and> (\<forall>share. pr_ecdsaKeyShare result = Some share \<longrightarrow>
              ExportTemporaryECDSADKGShare (dj_SessionID job, dj_LocalPartyID job) r' = Inr share))
     else rn_temporaryECDSADKGShares r' = rn_temporaryECDSADKGShares r)"
proof -
  obtain ms ks er where f: "flow_RunDKG mc (rn_cfg r) t occ job = Some (ms, ks, er)"
    using assms(1) by (auto simp: RunDKG_def split: option.splits)
  let ?k = "(dj_SessionID job, dj_LocalPartyID job)"
  have r': "r' = (case ks of None \<Rightarrow> r\<lparr>rn_metrics := rn_metrics r @ ms\<rparr>
      | Some d \<Rightarrow> setTemporaryECDSADKGShare ?k d (r\<lparr>rn_metrics := rn_metrics r @ ms\<rparr>))" "err = er"
    using assms(1) f by (auto simp: RunDKG_def Let_def)
  have g: "rn_temporaryECDSADKGShares r' k = (if k = ?k \<and> ks \<noteq> None then ks else rn_temporaryECDSADKGShares r k)" for k
    using assms(2,3) by (cases ks) (auto simp: r'(1) temporary_shares.get_put_iff)
  have s: "rn_ecdsaSigs r' = rn_ecdsaSigs r" by (cases ks) (simp_all add: r'(1))
  show ?thesis
  proof (cases err)
    case None
    with flow_RunDKG_result [OF f] r'(2) obtain result
      where "OccEvent (eventProtocolDone result) None None \<in> set occ" "ks = pr_ecdsaKeyShare result" by auto
    with None s g show ?thesis by (auto simp: ExportTemporaryECDSADKGShare_def)
  next
    case (Some x)
    then have "ks = None" using flow_RunDKG_result [OF f] r'(2) by auto
    with Some s g show ?thesis by auto
  qed
qed

lemma RunSign_effect:
  assumes "RunSign mc t occ job r = Some (r', err)"
  shows "rn_temporaryECDSADKGShares r' = rn_temporaryECDSADKGShares r \<and>
    (if err = None
     then sj_Digest job \<noteq> [] \<and> \<not> isZeroECDSAShare (sj_KeyShare job) \<and>
       (\<exists>result. OccEvent (eventProtocolDone result) None None \<in> set occ \<and>
          (case pr_signature result of
             None \<Rightarrow> rn_ecdsaSigs r' = rn_ecdsaSigs r
           | Some sig \<Rightarrow> SetBytes (sd_M sig) = SetBytes (sj_Digest job)
               \<and> (\<forall>k. rn_ecdsaSigs r' k =
                     (if k \<in> {sj_SessionID job, sj_KeyID job} \<and> k \<noteq> []
                      then Some (sig\<lparr>sd_M := sj_Digest job\<rparr>) else rn_ecdsaSigs r k))))
     else rn_ecdsaSigs r' = rn_ecdsaSigs r)"
proof (cases "isZeroECDSAShare (sj_KeyShare job)")
  case True
  then show ?thesis using assms by (auto simp: RunSign_def)
next
  case False
  obtain ms sg er where f: "flow_RunSign mc (rn_cfg r) t occ job = Some (ms, sg, er)"
    using assms False by (auto simp: RunSign_def split: option.splits)
  have e: "err = None \<longleftrightarrow> er = None"
    using assms f False by (auto simp: RunSign_def Let_def split: option.splits if_splits)
  show ?thesis
  proof (cases sg)
    case None
    then have "r' = r\<lparr>rn_metrics := rn_metrics r @ ms\<rparr>" using assms f False by (simp add: RunSign_def)
    moreover have "\<exists>result. OccEvent (eventProtocolDone result) None None \<in> set occ \<and> pr_signature result = None"
      if "er = None" using flow_RunSign_result [OF f] None that by auto
    ultimately show ?thesis using e flow_RunSign_result [OF f] False by force
  next
    case (Some s)
    then have n: "er = None" "err = None" using flow_RunSign_result [OF f] e by auto
    with flow_RunSign_result [OF f] Some obtain result sig where d: "sj_Digest job \<noteq> []"
        "OccEvent (eventProtocolDone result) None None \<in> set occ" "pr_signature result = Some sig"
        "SetBytes (sd_M sig) = SetBytes (sj_Digest job)" "s = sig\<lparr>sd_M := sj_Digest job\<rparr>" by auto
    let ?r1 = "setECDSASignature (sj_SessionID job) (Some s) (r\<lparr>rn_metrics := rn_metrics r @ ms\<rparr>)"
    have r': "r' = (if sj_KeyID job \<noteq> [] then setECDSASignature (sj_KeyID job) (Some s) ?r1 else ?r1)"
      using assms f False Some n by (simp add: RunSign_def Let_def)
    have "rn_ecdsaSigs r' k = (if k \<in> {sj_SessionID job, sj_KeyID job} \<and> k \<noteq> [] then Some s else rn_ecdsaSigs r k)" for k
      by (auto simp: r' signatures.get_put_iff)
    moreover have "rn_temporaryECDSADKGShares r' = rn_temporaryECDSADKGShares r" by (simp add: r')
    ultimately show ?thesis using n d False by (auto intro!: exI [of _ result])
  qed
qed

section \<open>Properties\<close>

text \<open>
  Key generation through the runner.  A run that fails leaves both maps of the runner as they
  were; a run that succeeds stores under its session and party exactly the key share that the
  protocol-done event carried, touches no other key and no signature, and that share is what a
  following export returns.
\<close>

theorem dkg_run_result:
  assumes "RunDKG mc t occ job r = Some (r', err)" "dj_SessionID job \<noteq> []" "dj_LocalPartyID job \<noteq> []"
  shows "rn_ecdsaSigs r' = rn_ecdsaSigs r \<and>
    (if err = None
     then (\<exists>result. OccEvent (eventProtocolDone result) None None \<in> set occ
        \<and> (\<forall>k. rn_temporaryECDSADKGShares r' k =
              (if k = (dj_SessionID job, dj_LocalPartyID job) \<and> pr_ecdsaKeyShare result \<noteq> None
               then pr_ecdsaKeyShare result else rn_temporaryECDSADKGShares r k))
        \<and> (\<forall>share. pr_ecdsaKeyShare result = Some share \<longrightarrow>
              ExportTemporaryECDSADKGShare (dj_SessionID job, dj_LocalPartyID job) r' = Inr share))
     else rn_temporaryECDSADKGShares r' = rn_temporaryECDSADKGShares r)"
  by (rule RunDKG_effect [OF assms])

text \<open>A machine and a job on which a run can be evaluated.\<close>

definition sample_machine :: "(Frame list, nat, bytes, unit) machine" where
  "sample_machine = \<lparr>mc_env = sample_env, mc_iter = id, mc_lib = sample_lib, mc_sortIDs = id,
     mc_ECDSAKeygen = (\<lambda>p pre. 0), mc_EdDSAKeygen = (\<lambda>p. 0), mc_ECDSASigning = (\<lambda>m p k d. 0)\<rparr>"

lemma sample_machine_sel [simp]:
  "mc_env sample_machine = sample_env" "mc_iter sample_machine = id" "mc_lib sample_machine = sample_lib"
  "mc_sortIDs sample_machine = id"
  by (simp_all add: sample_machine_def)

lemma sample_Rand: "\<exists>b. en_Rand sample_env t = (t, b)"
  by (simp add: sample_env_def)

definition sample_dkg_job :: "unit DKGJob" where
  "sample_dkg_job = \<lparr>dj_SessionID = ''s'', dj_LocalPartyID = ''B'', dj_OrgID = ''o'', dj_Parties = [''A'', ''B''],
     dj_Threshold = 2, dj_Curve = [], dj_Algorithm = [], dj_ECDSAPreParams = None\<rparr>"

definition key_share :: LocalPartySaveData where
  "key_share = \<lparr>sp_ECDSAPub = None, sp_BigXj = [], sp_Ks = [1], sp_Rest = []\<rparr>"

definition done_with :: "LocalPartySaveData option \<Rightarrow> SignatureData option \<Rightarrow> occurrence" where
  "done_with k s = OccEvent (eventProtocolDone \<lparr>pr_ecdsaKeyShare = k, pr_signature = s\<rparr>) None None"

lemma lower_blank: "ToLower (TrimSpace []) = []"
  by code_simp

lemma sample_params_built:
  assumes "alg = [] \<or> alg = ''ecdsa''"
  shows "\<exists>params m local. BuildParams id [''A'', ''B''] ''B'' 2 [] alg = Inr (params, m, local)"
proof -
  have "ToLower (TrimSpace ''ecdsa'') = ''ecdsa''" using settled_constants(1) by (simp add: settled_def)
  with assms lower_blank have "selectCurve [] alg = Inr S256" by (auto simp: selectCurve_def)
  moreover have "set (sort [''A'', ''B'']) = {''A'', ''B''}" by auto
  ultimately show ?thesis
    by (simp add: BuildParams_def toTSSLibThreshold_def pickLocalPartyID_def partyMap_fold del: sort_key_simps)
qed

lemma Run_done:
  "Run sample_env accept lib (New p, t) [done_with k s]
   = Some (fst (markProgress sample_env ''start'' 0 (New p, t))
       \<lparr>ex_ecdsaKeyShare := k, ex_signature := s, ex_protocolDoneFlag := True\<rparr>, ''success'', None)"
  by (simp add: Run_def done_with_def markProgress_def handleEvent_def finishTerminalEvent_def sample_env_def)

lemma sample_RunDKG:
  assumes "dj_Parties job = [''A'', ''B'']" "dj_LocalPartyID job = ''B''" "dj_Threshold job = 2"
    "dj_Curve job = []" "dj_Algorithm job = []"
  shows "\<exists>r'. RunDKG sample_machine [] [done_with (Some share) None] job r = Some (r', None)"
proof -
  obtain rnd where rand: "en_Rand sample_env [] = ([], rnd)" using sample_Rand by blast
  obtain params m local where b: "BuildParams id [''A'', ''B''] ''B'' 2 [] [] = Inr (params, m, local)"
    using sample_params_built [of "[]"] by blast
  have "\<exists>e. newDKGExecution sample_machine cfg c job = Inr e" for cfg c
    using b lower_blank assms by (simp add: newDKGExecution_def BuildDKG_def)
  then obtain p where "newDKGExecution sample_machine (rn_cfg r) (idgen_New ''corr'' rnd) job = Inr (New p)"
    using newDKGExecution_New by metis
  then show ?thesis
    using Run_done [of "ShouldAccept id" sample_lib p "[]" "Some share" None] rand
    by (simp add: RunDKG_def flow_RunDKG_def)
qed

theorem dkg_run_result_witness:
  "\<exists>r'. RunDKG sample_machine [] [done_with (Some key_share) None] sample_dkg_job (NewBnbRunner sample_cfg) = Some (r', None)
     \<and> ExportTemporaryECDSADKGShare (''s'', ''B'') r' = Inr key_share"
proof -
  obtain r' where r: "RunDKG sample_machine [] [done_with (Some key_share) None] sample_dkg_job (NewBnbRunner sample_cfg)
     = Some (r', None)" using sample_RunDKG [of sample_dkg_job] by (auto simp: sample_dkg_job_def)
  from dkg_run_result [OF r] have "ExportTemporaryECDSADKGShare (''s'', ''B'') r' = Inr key_share"
    by (auto simp: sample_dkg_job_def done_with_def)
  with r show ?thesis by blast
qed

text \<open>
  C12.  Signatures are of the digest.  Whatever the protocol returns, a signing run that fails stores
  nothing.  A run that succeeds had a non-empty digest and a key share; when its protocol-done event
  carried a signature, the message of that signature is the digest as a number, and the signature,
  with the digest as its message, is stored under the session and the key identifier and nowhere else;
  when it carried none, nothing is stored.
\<close>

theorem signature_is_of_digest:
  assumes "RunSign mc t occ job r = Some (r', err)"
  shows "rn_temporaryECDSADKGShares r' = rn_temporaryECDSADKGShares r \<and>
    (if err = None
     then sj_Digest job \<noteq> [] \<and> \<not> isZeroECDSAShare (sj_KeyShare job) \<and>
       (\<exists>result. OccEvent (eventProtocolDone result) None None \<in> set occ \<and>
          (case pr_signature result of
             None \<Rightarrow> rn_ecdsaSigs r' = rn_ecdsaSigs r
           | Some sig \<Rightarrow> SetBytes (sd_M sig) = SetBytes (sj_Digest job)
               \<and> (\<forall>k. rn_ecdsaSigs r' k =
                     (if k \<in> {sj_SessionID job, sj_KeyID job} \<and> k \<noteq> []
                      then Some (sig\<lparr>sd_M := sj_Digest job\<rparr>) else rn_ecdsaSigs r k))))
     else rn_ecdsaSigs r' = rn_ecdsaSigs r)"
  by (rule RunSign_effect [OF assms])

definition sample_sign_job :: "bytes \<Rightarrow> SignJob" where
  "sample_sign_job digest = \<lparr>sj_SessionID = ''s'', sj_LocalPartyID = ''B'', sj_OrgID = ''o'', sj_KeyID = ''k'',
     sj_Parties = [''A'', ''B''], sj_Digest = digest, sj_Algorithm = [], sj_Chain = [], sj_KeyShare = key_share,
     sj_KeyDerivationDelta = Some 5, sj_DerivationContextHash = ''c''\<rparr>"

text \<open>A signing request without a digest is counted as started but never as failed.\<close>

lemma sign_early_return_uncounted:
  "RunSign sample_machine [] [] (sample_sign_job []) (NewBnbRunner sample_cfg)
   = Some ((NewBnbRunner sample_cfg)\<lparr>rn_metrics := [SessionsStarted ''sign'']\<rparr>, Some (Sentinel ErrSignDigestRequired))"
  by (simp add: RunSign_def flow_RunSign_def sample_sign_job_def key_share_def isZeroECDSAShare_def NewBnbRunner_def)

definition sample_signature :: "bytes \<Rightarrow> SignatureData" where
  "sample_signature m = \<lparr>sd_Signature = ''g'', sd_SignatureRecovery = [], sd_R = ''r'', sd_S = ''s'', sd_M = m\<rparr>"

lemma sample_RunSign:
  assumes "sj_Parties job = [''A'', ''B'']" "sj_LocalPartyID job = ''B''" "sj_Digest job = [CHR 0x00, CHR ''d'']"
    "sj_Algorithm job = []" "sj_KeyDerivationDelta job = Some delta" "\<not> isZeroECDSAShare (sj_KeyShare job)"
  shows "\<exists>r'. RunSign sample_machine [] [done_with None (Some (sample_signature ''d''))] job r = Some (r', None)"
proof -
  obtain rnd where rand: "en_Rand sample_env [] = ([], rnd)" using sample_Rand by blast
  obtain params m local where b: "BuildParams id [''A'', ''B''] ''B'' 2 [] ''ecdsa'' = Inr (params, m, local)"
    using sample_params_built [of "''ecdsa''"] by blast
  have "\<exists>e. newSignExecution sample_machine cfg c job = Inr e" for cfg c
    using b assms by (simp add: newSignExecution_def BuildSign_def)
  then obtain p where "newSignExecution sample_machine (rn_cfg r) (idgen_New ''corr'' rnd) job = Inr (New p)"
    using newSignExecution_New by metis
  moreover have "SetBytes ''d'' = SetBytes [CHR 0x00, CHR ''d'']" by code_simp
  ultimately show ?thesis
    using Run_done [of "ShouldAccept id" sample_lib p "[]" None "Some (sample_signature ''d'')"] lower_blank rand assms
    by (simp add: RunSign_def flow_RunSign_def deliverSignature_def sample_signature_def)
qed

theorem signature_is_of_digest_witness:
  "\<exists>r'. RunSign sample_machine [] [done_with None (Some (sample_signature ''d''))] (sample_sign_job [CHR 0x00, CHR ''d''])
     (NewBnbRunner sample_cfg) = Some (r', None)
     \<and> rn_ecdsaSigs r' ''k'' = Some ((sample_signature ''d'')\<lparr>sd_M := [CHR 0x00, CHR ''d'']\<rparr>)"
proof -
  let ?job = "sample_sign_job [CHR 0x00, CHR ''d'']"
  obtain r' where r: "RunSign sample_machine [] [done_with None (Some (sample_signature ''d''))]
     ?job (NewBnbRunner sample_cfg) = Some (r', None)"
    using sample_RunSign [of ?job] by (auto simp: sample_sign_job_def key_share_def isZeroECDSAShare_def)
  have j: "sj_Digest ?job = [CHR 0x00, CHR ''d'']" "sj_KeyID ?job = ''k''" by (simp_all add: sample_sign_job_def)
  from signature_is_of_digest [OF r] have "rn_ecdsaSigs r' ''k'' = Some ((sample_signature ''d'')\<lparr>sd_M := sj_Digest ?job\<rparr>)"
    unfolding if_P [OF refl] by (auto simp: done_with_def j)
  with r j(1) show ?thesis by auto
qed

end
