(* ===== verification/Preparams_Handle.thy ===== *)
theory Preparams_Handle
  imports Prelude
begin

text \<open>
  Single-use handles on DKG pre-parameters (\<^verbatim>\<open>internal/preparams/handle.go\<close>).  Handles and service
  bindings are Go pointers, so they live in a heap of two arrays indexed by addresses and a nil
  pointer is \<open>None\<close>; two handles may share a binding, and \<open>Consume\<close> compares binding addresses.  The
  pre-parameters themselves belong to tss-lib and are an opaque type \<open>'m\<close>.  \<open>Discard\<close> and \<open>Consume\<close>
  hold the handle's mutex throughout, so an interleaving of concurrent calls is a sequence of
  whole calls; the binding counters are atomic 64-bit words.

  \<open>handle_step\<close> is one call by any goroutine.  Shown: the heap invariant, that in any run a handle
  gives out its material at most once and never after it was discarded, that material is only given
  to the binding that owns the handle, and that the three counters count exactly the outcomes.
\<close>

section \<open>The code\<close>

datatype handleState = handleStateInvalid | handleStateAcquired | handleStateConsumed | handleStateDiscarded

record ServiceBinding =
  sb_consumed :: u64
  sb_discardedBeforeStart :: u64
  sb_consumeConflict :: u64

record HandleMetrics =
  hm_ConsumedCount :: u64
  hm_DiscardedBeforeStartCount :: u64
  hm_ConsumeConflictCount :: u64

type_synonym addr = nat

record 'm Handle =
  hd_binding :: "addr option"
  hd_state :: handleState
  hd_material :: "'m option"

record 'm heap =
  hp_bindings :: "ServiceBinding list"
  hp_handles :: "'m Handle list"

definition NewServiceBinding :: "'m heap \<Rightarrow> 'm heap \<times> addr" where
  "NewServiceBinding h =
     (h\<lparr>hp_bindings := hp_bindings h @ [\<lparr>sb_consumed = 0, sb_discardedBeforeStart = 0, sb_consumeConflict = 0\<rparr>]\<rparr>,
      length (hp_bindings h))"

definition Binding_Snapshot :: "'m heap \<Rightarrow> addr option \<Rightarrow> HandleMetrics" where
  "Binding_Snapshot h b =
     (case b of
        None \<Rightarrow> \<lparr>hm_ConsumedCount = 0, hm_DiscardedBeforeStartCount = 0, hm_ConsumeConflictCount = 0\<rparr>
      | Some a \<Rightarrow>
          let sb = hp_bindings h ! a in
          \<lparr>hm_ConsumedCount = sb_consumed sb, hm_DiscardedBeforeStartCount = sb_discardedBeforeStart sb,
           hm_ConsumeConflictCount = sb_consumeConflict sb\<rparr>)"

definition NewHandle :: "'m heap \<Rightarrow> addr option \<Rightarrow> 'm option \<Rightarrow> 'm heap \<times> addr option" where
  "NewHandle h binding material =
     (if binding = None \<or> material = None then (h, None)
      else (h\<lparr>hp_handles := hp_handles h @ [\<lparr>hd_binding = binding, hd_state = handleStateAcquired,
                                              hd_material = material\<rparr>]\<rparr>,
            Some (length (hp_handles h))))"

definition validLocked :: "'m Handle \<Rightarrow> bool" where
  "validLocked hn =
     (if hd_binding hn = None \<or> hd_state hn = handleStateInvalid then False
      else hd_state hn \<noteq> handleStateAcquired \<or> hd_material hn \<noteq> None)"

definition bump :: "(ServiceBinding \<Rightarrow> ServiceBinding) \<Rightarrow> addr option \<Rightarrow> 'm heap \<Rightarrow> 'm heap" where
  "bump f b h = (case b of None \<Rightarrow> h | Some a \<Rightarrow> h\<lparr>hp_bindings := (hp_bindings h)[a := f (hp_bindings h ! a)]\<rparr>)"

definition add_consumed :: "ServiceBinding \<Rightarrow> ServiceBinding" where
  "add_consumed b = b\<lparr>sb_consumed := sb_consumed b + 1\<rparr>"

definition add_discarded :: "ServiceBinding \<Rightarrow> ServiceBinding" where
  "add_discarded b = b\<lparr>sb_discardedBeforeStart := sb_discardedBeforeStart b + 1\<rparr>"

definition add_conflict :: "ServiceBinding \<Rightarrow> ServiceBinding" where
  "add_conflict b = b\<lparr>sb_consumeConflict := sb_consumeConflict b + 1\<rparr>"

definition Discard :: "'m heap \<Rightarrow> addr option \<Rightarrow> 'm heap \<times> error option" where
  "Discard h handle =
     (case handle of
        None \<Rightarrow> (h, Some (Sentinel ErrInvalidPreParamsHandle))
      | Some a \<Rightarrow>
          let hn = hp_handles h ! a in
          if \<not> validLocked hn then (h, Some (Sentinel ErrInvalidPreParamsHandle))
          else (case hd_state hn of
                  handleStateAcquired \<Rightarrow>
                    (bump add_discarded (hd_binding hn)
                       (h\<lparr>hp_handles := (hp_handles h)[a := hn\<lparr>hd_material := None, hd_state := handleStateDiscarded\<rparr>]\<rparr>),
                     None)
                | handleStateDiscarded \<Rightarrow> (h, None)
                | handleStateConsumed \<Rightarrow> (h, Some (Sentinel ErrPreParamsConsumed))
                | handleStateInvalid \<Rightarrow> (h, Some (Sentinel ErrInvalidPreParamsHandle))))"

definition Consume :: "'m heap \<Rightarrow> addr option \<Rightarrow> addr option \<Rightarrow> 'm heap \<times> ('m option) result" where
  "Consume h binding handle =
     (case handle of
        None \<Rightarrow> (h, Inl (Sentinel ErrInvalidPreParamsHandle))
      | Some a \<Rightarrow>
          if binding = None then (h, Inl (Sentinel ErrInvalidPreParamsHandle))
          else
            let hn = hp_handles h ! a in
            if \<not> validLocked hn then (h, Inl (Sentinel ErrInvalidPreParamsHandle))
            else if hd_binding hn \<noteq> binding then (h, Inl (Sentinel ErrForeignPreParamsHandle))
            else (case hd_state hn of
                    handleStateAcquired \<Rightarrow>
                      (bump add_consumed binding
                         (h\<lparr>hp_handles := (hp_handles h)[a := hn\<lparr>hd_material := None, hd_state := handleStateConsumed\<rparr>]\<rparr>),
                       Inr (hd_material hn))
                  | handleStateConsumed \<Rightarrow> (bump add_conflict binding h, Inl (Sentinel ErrPreParamsConsumed))
                  | handleStateDiscarded \<Rightarrow> (bump add_conflict binding h, Inl (Sentinel ErrPreParamsDiscarded))
                  | handleStateInvalid \<Rightarrow> (h, Inl (Sentinel ErrInvalidPreParamsHandle))))"

section \<open>Runs\<close>

text \<open>One call by some goroutine, with what it returned; addresses are those the program handed out.\<close>

datatype 'm handle_event =
    EvNewBinding addr
  | EvNewHandle "addr option" "'m option" "addr option"
  | EvDiscard "addr option" "error option"
  | EvConsume "addr option" "addr option" "'m option result"

abbreviation valid_ref :: "'a list \<Rightarrow> addr option \<Rightarrow> bool" where
  "valid_ref xs p \<equiv> (case p of None \<Rightarrow> True | Some a \<Rightarrow> a < length xs)"

inductive handle_step :: "'m heap \<Rightarrow> 'm handle_event \<Rightarrow> 'm heap \<Rightarrow> bool" where
  step_NewBinding: "NewServiceBinding h = (h', a) \<Longrightarrow> handle_step h (EvNewBinding a) h'"
| step_NewHandle: "valid_ref (hp_bindings h) b \<Longrightarrow> NewHandle h b m = (h', p) \<Longrightarrow>
    handle_step h (EvNewHandle b m p) h'"
| step_Discard: "valid_ref (hp_handles h) p \<Longrightarrow> Discard h p = (h', r) \<Longrightarrow> handle_step h (EvDiscard p r) h'"
| step_Consume: "valid_ref (hp_bindings h) b \<Longrightarrow> valid_ref (hp_handles h) p \<Longrightarrow> Consume h b p = (h', r) \<Longrightarrow>
    handle_step h (EvConsume b p r) h'"

inductive_cases handle_stepE: "handle_step h e h'"

definition empty_heap :: "'m heap" where
  "empty_heap = \<lparr>hp_bindings = [], hp_handles = []\<rparr>"

section \<open>The heap invariant\<close>

definition wf_handle :: "'m heap \<Rightarrow> 'm Handle \<Rightarrow> bool" where
  "wf_handle h hn \<longleftrightarrow> (\<exists>a<length (hp_bindings h). hd_binding hn = Some a)
     \<and> hd_state hn \<noteq> handleStateInvalid \<and> (hd_state hn = handleStateAcquired \<longleftrightarrow> hd_material hn \<noteq> None)"

definition wf_heap :: "'m heap \<Rightarrow> bool" where
  "wf_heap h \<longleftrightarrow> (\<forall>hn\<in>set (hp_handles h). wf_handle h hn)"

lemma bump_simps [simp]:
  "hp_handles (bump f b h) = hp_handles h" "length (hp_bindings (bump f b h)) = length (hp_bindings h)"
  by (auto simp: bump_def split: option.splits)

lemma wf_handle_mono: "wf_handle h hn \<Longrightarrow> length (hp_bindings h) \<le> length (hp_bindings h') \<Longrightarrow> wf_handle h' hn"
  by (auto simp: wf_handle_def)

lemma wf_heap_nth: "wf_heap h \<Longrightarrow> a < length (hp_handles h) \<Longrightarrow> wf_handle h (hp_handles h ! a)"
  by (simp add: wf_heap_def)

lemma wf_heap_update:
  assumes "wf_heap h" "hp_handles h' = (hp_handles h)[a := hn]" "wf_handle h' hn"
    "length (hp_bindings h) \<le> length (hp_bindings h')"
  shows "wf_heap h'"
proof -
  have "wf_handle h' k" if "k \<in> set (hp_handles h')" for k
  proof (cases "k = hn")
    case False
    with that assms(2) have "k \<in> set (hp_handles h)"
      using set_update_subset_insert [of "hp_handles h" a hn] by auto
    then show ?thesis using assms(1,4) wf_handle_mono by (auto simp: wf_heap_def)
  qed (use assms(3) in simp)
  then show ?thesis by (simp add: wf_heap_def)
qed

lemma wf_validLocked: "wf_handle h hn \<Longrightarrow> validLocked hn"
  by (auto simp: wf_handle_def validLocked_def)

lemma wf_heap_same: "wf_heap h \<Longrightarrow> hp_handles h' = hp_handles h \<Longrightarrow>
  length (hp_bindings h) \<le> length (hp_bindings h') \<Longrightarrow> wf_heap h'"
  by (auto simp: wf_heap_def intro: wf_handle_mono)

text \<open>What a call does to a well-formed heap: it takes the handle out of the acquired state, or leaves every handle alone.\<close>

definition retire :: "handleState \<Rightarrow> addr \<Rightarrow> 'm heap \<Rightarrow> 'm heap" where
  "retire st a h = h\<lparr>hp_handles := (hp_handles h)[a := (hp_handles h ! a)\<lparr>hd_material := None, hd_state := st\<rparr>]\<rparr>"

lemma Discard_eq:
  assumes "wf_handle h (hp_handles h ! a)"
  shows "Discard h (Some a) = (case hd_state (hp_handles h ! a) of
      handleStateAcquired \<Rightarrow>
        (bump add_discarded (hd_binding (hp_handles h ! a)) (retire handleStateDiscarded a h), None)
    | handleStateDiscarded \<Rightarrow> (h, None)
    | handleStateConsumed \<Rightarrow> (h, Some (Sentinel ErrPreParamsConsumed))
    | handleStateInvalid \<Rightarrow> (h, Some (Sentinel ErrInvalidPreParamsHandle)))"
  using wf_validLocked [OF assms] by (cases "hd_state (hp_handles h ! a)") (simp_all add: Discard_def retire_def Let_def)

lemma Consume_eq:
  assumes "wf_handle h (hp_handles h ! a)"
  shows "Consume h (Some b) (Some a) =
     (if hd_binding (hp_handles h ! a) \<noteq> Some b then (h, Inl (Sentinel ErrForeignPreParamsHandle))
      else case hd_state (hp_handles h ! a) of
         handleStateAcquired \<Rightarrow>
           (bump add_consumed (Some b) (retire handleStateConsumed a h), Inr (hd_material (hp_handles h ! a)))
       | handleStateConsumed \<Rightarrow> (bump add_conflict (Some b) h, Inl (Sentinel ErrPreParamsConsumed))
       | handleStateDiscarded \<Rightarrow> (bump add_conflict (Some b) h, Inl (Sentinel ErrPreParamsDiscarded))
       | handleStateInvalid \<Rightarrow> (h, Inl (Sentinel ErrInvalidPreParamsHandle)))"
  using wf_validLocked [OF assms] by (cases "hd_state (hp_handles h ! a)") (simp_all add: Consume_def retire_def Let_def)

lemma Discard_effect:
  assumes "wf_heap h" "valid_ref (hp_handles h) p" "Discard h p = (h', r)"
  obtains (dropped) a where "p = Some a" "a < length (hp_handles h)" "r = None"
      "hd_state (hp_handles h ! a) = handleStateAcquired"
      "h' = bump add_discarded (hd_binding (hp_handles h ! a)) (retire handleStateDiscarded a h)"
    | (again) a where "p = Some a" "a < length (hp_handles h)" "r = None"
      "hd_state (hp_handles h ! a) = handleStateDiscarded" "h' = h"
    | (refused) e where "r = Some e" "h' = h"
proof (cases p)
  case None
  then show thesis using refused assms(3) by (auto simp: Discard_def)
next
  case (Some a)
  then have a: "a < length (hp_handles h)" and hn: "wf_handle h (hp_handles h ! a)"
    using assms wf_heap_nth by auto
  have v: "hd_state (hp_handles h ! a) \<noteq> handleStateInvalid" using hn by (simp add: wf_handle_def)
  show thesis
  proof (cases "hd_state (hp_handles h ! a)")
    case handleStateAcquired
    then show thesis using dropped [OF Some a] assms(3) by (simp add: Some Discard_eq [OF hn])
  next
    case handleStateDiscarded
    then show thesis using again [OF Some a] assms(3) by (simp add: Some Discard_eq [OF hn])
  next
    case handleStateConsumed
    then show thesis using refused assms(3) by (auto simp: Some Discard_eq [OF hn])
  qed (use v in simp)
qed

lemma Consume_effect:
  assumes "wf_heap h" "valid_ref (hp_handles h) p" "Consume h b p = (h', r)"
  obtains (given) a m where "p = Some a" "a < length (hp_handles h)" "r = Inr (Some m)"
      "hd_state (hp_handles h ! a) = handleStateAcquired" "hd_binding (hp_handles h ! a) = b"
      "hd_material (hp_handles h ! a) = Some m" "h' = bump add_consumed b (retire handleStateConsumed a h)"
    | (conflict) a where "p = Some a" "a < length (hp_handles h)"
      "hd_binding (hp_handles h ! a) = b" "h' = bump add_conflict b h"
      "(hd_state (hp_handles h ! a) = handleStateConsumed \<and> r = Inl (Sentinel ErrPreParamsConsumed))
        \<or> (hd_state (hp_handles h ! a) = handleStateDiscarded \<and> r = Inl (Sentinel ErrPreParamsDiscarded))"
    | (refused) e where "r = Inl (Sentinel e)" "e \<in> {ErrInvalidPreParamsHandle, ErrForeignPreParamsHandle}" "h' = h"
proof (cases "p = None \<or> b = None")
  case True
  then show thesis using refused assms(3) by (cases p) (auto simp: Consume_def)
next
  case False
  then obtain a b' where p: "p = Some a" and b: "b = Some b'" by auto
  then have a: "a < length (hp_handles h)" and hn: "wf_handle h (hp_handles h ! a)"
    using assms wf_heap_nth by auto
  have v: "hd_state (hp_handles h ! a) \<noteq> handleStateInvalid"
    and m: "hd_state (hp_handles h ! a) = handleStateAcquired \<longrightarrow> hd_material (hp_handles h ! a) \<noteq> None"
    using hn by (simp_all add: wf_handle_def)
  note c = assms(3) [unfolded p b Consume_eq [OF hn]]
  show thesis
  proof (cases "hd_binding (hp_handles h ! a) = Some b'")
    case True
    show thesis
    proof (cases "hd_state (hp_handles h ! a)")
      case handleStateAcquired
      with m obtain m' where "hd_material (hp_handles h ! a) = Some m'" by auto
      with c True handleStateAcquired show thesis using given [OF p a, of m'] by (simp add: b)
    next
      case handleStateConsumed
      with c True show thesis using conflict [OF p a] by (simp add: b)
    next
      case handleStateDiscarded
      with c True show thesis using conflict [OF p a] by (simp add: b)
    qed (use v in simp)
  next
    case foreign: False
    with c show thesis using refused by auto
  qed
qed

lemma retire_wf:
  assumes "wf_heap h" "a < length (hp_handles h)" "st \<in> {handleStateConsumed, handleStateDiscarded}"
  shows "wf_heap (bump f b (retire st a h))"
proof (rule wf_heap_update [OF assms(1)])
  show "hp_handles (bump f b (retire st a h))
    = (hp_handles h)[a := (hp_handles h ! a)\<lparr>hd_material := None, hd_state := st\<rparr>]"
    by (simp add: retire_def)
  show "wf_handle (bump f b (retire st a h)) ((hp_handles h ! a)\<lparr>hd_material := None, hd_state := st\<rparr>)"
    using wf_heap_nth [OF assms(1,2)] assms(3) by (auto simp: retire_def wf_handle_def)
qed (simp add: retire_def)

lemma bump_wf: "wf_heap h \<Longrightarrow> wf_heap (bump f b h)"
  by (rule wf_heap_same) auto

lemma Discard_wf:
  assumes "wf_heap h" "valid_ref (hp_handles h) p" "Discard h p = (h', r)"
  shows "wf_heap h'"
  by (rule Discard_effect [OF assms]) (use assms(1) in \<open>auto intro: retire_wf\<close>)

lemma Consume_wf:
  assumes "wf_heap h" "valid_ref (hp_handles h) p" "Consume h b p = (h', r)"
  shows "wf_heap h'"
  by (rule Consume_effect [OF assms]) (use assms(1) in \<open>auto intro: retire_wf bump_wf\<close>)

lemma NewHandle_wf:
  assumes "wf_heap h" "valid_ref (hp_bindings h) b" "NewHandle h b m = (h', p)"
  shows "wf_heap h'"
  using assms by (auto simp: NewHandle_def wf_heap_def wf_handle_def split: option.splits if_splits)

lemma NewServiceBinding_wf:
  assumes "wf_heap h" "NewServiceBinding h = (h', a)"
  shows "wf_heap h'"
  using assms by (auto simp: NewServiceBinding_def intro: wf_heap_same)

lemma handle_step_wf: "wf_heap h \<Longrightarrow> handle_step h e h' \<Longrightarrow> wf_heap h'"
  by (erule handle_stepE) (auto intro: NewServiceBinding_wf NewHandle_wf Discard_wf Consume_wf)

interpretation handles: invariant_system "\<lambda>h. h = empty_heap" handle_step wf_heap
  by unfold_locales (simp add: empty_heap_def wf_heap_def, rule handle_step_wf)

section \<open>Histories\<close>

definition gives :: "addr \<Rightarrow> 'm handle_event \<Rightarrow> bool" where
  "gives a e = (case e of EvConsume b (Some a') (Inr m) \<Rightarrow> a' = a | _ \<Rightarrow> False)"

definition gives_to :: "addr \<Rightarrow> 'm handle_event \<Rightarrow> bool" where
  "gives_to b e = (case e of EvConsume (Some b') p (Inr m) \<Rightarrow> b' = b | _ \<Rightarrow> False)"

definition conflicts :: "addr \<Rightarrow> 'm handle_event \<Rightarrow> bool" where
  "conflicts b e = (case e of
     EvConsume (Some b') p (Inl err) \<Rightarrow>
       b' = b \<and> (err = Sentinel ErrPreParamsConsumed \<or> err = Sentinel ErrPreParamsDiscarded)
   | _ \<Rightarrow> False)"

definition discarded_of :: "addr \<Rightarrow> 'm Handle list \<Rightarrow> nat" where
  "discarded_of b hs = length (filter (\<lambda>hn. hd_binding hn = Some b \<and> hd_state hn = handleStateDiscarded) hs)"

definition state_of :: "'m heap \<Rightarrow> addr \<Rightarrow> handleState" where
  "state_of h a = (if a < length (hp_handles h) then hd_state (hp_handles h ! a) else handleStateInvalid)"

definition history :: "'m handle_event list \<Rightarrow> 'm heap \<Rightarrow> bool" where
  "history ls h \<longleftrightarrow> wf_heap h
     \<and> (\<forall>a. length (filter (gives a) ls) = (if state_of h a = handleStateConsumed then 1 else 0))
     \<and> (\<forall>a<length (hp_handles h). \<exists>m. EvNewHandle (hd_binding (hp_handles h ! a)) (Some m) (Some a) \<in> set ls
          \<and> hd_material (hp_handles h ! a) \<in> {None, Some m})
     \<and> (\<forall>a b m. EvConsume b (Some a) (Inr m) \<in> set ls \<longrightarrow> m \<noteq> None \<and> EvNewHandle b m (Some a) \<in> set ls)
     \<and> (\<forall>a. EvDiscard (Some a) None \<in> set ls \<longrightarrow> state_of h a = handleStateDiscarded)"

definition counted :: "'m handle_event list \<Rightarrow> 'm heap \<Rightarrow> bool" where
  "counted ls h \<longleftrightarrow> (\<forall>b<length (hp_bindings h).
       sb_consumed (hp_bindings h ! b) = of_nat (length (filter (gives_to b) ls))
     \<and> sb_consumeConflict (hp_bindings h ! b) = of_nat (length (filter (conflicts b) ls))
     \<and> sb_discardedBeforeStart (hp_bindings h ! b) = of_nat (discarded_of b (hp_handles h)))
   \<and> (\<forall>b\<ge>length (hp_bindings h). filter (gives_to b) ls = [] \<and> filter (conflicts b) ls = [])"

lemma historyD:
  assumes "history ls h"
  shows "wf_heap h"
    "length (filter (gives a) ls) = (if state_of h a = handleStateConsumed then 1 else 0)"
    "a < length (hp_handles h) \<Longrightarrow> \<exists>m. EvNewHandle (hd_binding (hp_handles h ! a)) (Some m) (Some a) \<in> set ls
       \<and> hd_material (hp_handles h ! a) \<in> {None, Some m}"
    "EvConsume b (Some a) (Inr m) \<in> set ls \<Longrightarrow> m \<noteq> None \<and> EvNewHandle b m (Some a) \<in> set ls"
    "EvDiscard (Some a) None \<in> set ls \<Longrightarrow> state_of h a = handleStateDiscarded"
  using assms unfolding history_def by blast+

lemma state_of_retire [simp]:
  "a < length (hp_handles h) \<Longrightarrow> state_of (retire st a h) a' = (if a' = a then st else state_of h a')"
  by (simp add: state_of_def retire_def)

lemma state_of_bump [simp]: "state_of (bump f b h) a = state_of h a"
  by (simp add: state_of_def)

lemma history_NewBinding:
  "history ls h \<Longrightarrow> NewServiceBinding h = (h', a) \<Longrightarrow> history (ls @ [EvNewBinding a]) h'"
  using NewServiceBinding_wf [of h h' a]
  by (auto simp: history_def NewServiceBinding_def state_of_def gives_def)

lemma history_NewHandle:
  assumes "history ls h" "valid_ref (hp_bindings h) b" "NewHandle h b m = (h', p)"
  shows "history (ls @ [EvNewHandle b m p]) h'"
proof (cases "b = None \<or> m = None")
  case True
  with assms show ?thesis by (auto simp: history_def NewHandle_def gives_def)
next
  case False
  then obtain m' where m: "m = Some m'" by auto
  have h': "hp_handles h' = hp_handles h @ [\<lparr>hd_binding = b, hd_state = handleStateAcquired, hd_material = m\<rparr>]"
      "p = Some (length (hp_handles h))"
    using False assms(3) by (auto simp: NewHandle_def)
  have st: "state_of h' a = (if a = length (hp_handles h) then handleStateAcquired else state_of h a)" for a
    by (simp add: state_of_def h' nth_append)
  have z: "state_of h (length (hp_handles h)) = handleStateInvalid" by (simp add: state_of_def)
  show ?thesis unfolding history_def
  proof (intro conjI allI impI)
    show "wf_heap h'" using NewHandle_wf assms by (auto simp: history_def)
    show "length (filter (gives a) (ls @ [EvNewHandle b m p])) = (if state_of h' a = handleStateConsumed then 1 else 0)" for a
      using assms(1) z by (auto simp: history_def gives_def st)
    show "\<exists>m'. EvNewHandle (hd_binding (hp_handles h' ! a)) (Some m') (Some a) \<in> set (ls @ [EvNewHandle b m p])
        \<and> hd_material (hp_handles h' ! a) \<in> {None, Some m'}" if "a < length (hp_handles h')" for a
      using assms(1) that m by (auto simp: history_def h' nth_append less_Suc_eq)
    show "m'' \<noteq> None" "EvNewHandle b' m'' (Some a) \<in> set (ls @ [EvNewHandle b m p])"
      if "EvConsume b' (Some a) (Inr m'') \<in> set (ls @ [EvNewHandle b m p])" for a b' m''
      using assms(1) that by (auto simp: history_def)
    show "state_of h' a = handleStateDiscarded" if "EvDiscard (Some a) None \<in> set (ls @ [EvNewHandle b m p])" for a
      using assms(1) that z by (auto simp: history_def st)
  qed
qed

lemma history_retire:
  assumes "history ls h" "a < length (hp_handles h)" "hd_state (hp_handles h ! a) = handleStateAcquired"
    and "(st = handleStateConsumed \<and> e = EvConsume (hd_binding (hp_handles h ! a)) (Some a) (Inr (hd_material (hp_handles h ! a))))
      \<or> (st = handleStateDiscarded \<and> e = EvDiscard (Some a) None)"
  shows "history (ls @ [e]) (bump f b (retire st a h))"
proof -
  let ?h = "bump f b (retire st a h)"
  have wf: "wf_heap h" using assms(1) by (simp add: history_def)
  have sa: "state_of h a = handleStateAcquired" using assms(2,3) by (simp add: state_of_def)
  have m: "hd_material (hp_handles h ! a) \<noteq> None"
    using wf_heap_nth [OF wf assms(2)] assms(3) by (simp add: wf_handle_def)
  have new: "EvNewHandle (hd_binding (hp_handles h ! a)) (hd_material (hp_handles h ! a)) (Some a) \<in> set ls"
    using assms(1,2) m by (auto simp: history_def)
  have hs: "hp_handles ?h = (hp_handles h)[a := (hp_handles h ! a)\<lparr>hd_material := None, hd_state := st\<rparr>]"
    by (simp add: retire_def)
  show ?thesis unfolding history_def
  proof (intro conjI allI impI)
    show "wf_heap ?h" using assms(2,4) wf by (auto intro: retire_wf)
    show "length (filter (gives a') (ls @ [e])) = (if state_of ?h a' = handleStateConsumed then 1 else 0)" for a'
    proof -
      have "gives a' e \<longleftrightarrow> st = handleStateConsumed \<and> a' = a" using assms(4) by (auto simp: gives_def)
      moreover have "length (filter (gives a') ls) = (if state_of h a' = handleStateConsumed then 1 else 0)"
        using assms(1) by (simp add: history_def)
      ultimately show ?thesis using sa assms(2,4) by auto
    qed
    show "\<exists>m. EvNewHandle (hd_binding (hp_handles ?h ! a')) (Some m) (Some a') \<in> set (ls @ [e])
        \<and> hd_material (hp_handles ?h ! a') \<in> {None, Some m}" if "a' < length (hp_handles ?h)" for a'
      using historyD(3) [OF assms(1), of a'] that by (cases "a' = a") (auto simp: retire_def)
    show "m' \<noteq> None" "EvNewHandle b' m' (Some a') \<in> set (ls @ [e])"
      if "EvConsume b' (Some a') (Inr m') \<in> set (ls @ [e])" for a' b' m'
      using assms(1,4) that m new by (auto simp: history_def)
    show "state_of ?h a' = handleStateDiscarded" if "EvDiscard (Some a') None \<in> set (ls @ [e])" for a'
      using assms(1,2,4) that sa by (auto simp: history_def)
  qed
qed

lemma history_silent:
  assumes "history ls h" "hp_handles h' = hp_handles h" "wf_heap h'" "\<And>a. \<not> gives a e"
    and "\<And>b a m. e \<noteq> EvConsume b a (Inr m)"
    and "\<And>a. e = EvDiscard (Some a) None \<Longrightarrow> state_of h a = handleStateDiscarded"
  shows "history (ls @ [e]) h'"
proof -
  have "state_of h' a = state_of h a" for a by (simp add: state_of_def assms(2))
  with assms show ?thesis by (fastforce simp: history_def)
qed

lemma history_step:
  assumes "history ls h" "handle_step h e h'"
  shows "history (ls @ [e]) h'"
  using assms(2)
proof cases
  case (step_NewBinding a)
  then show ?thesis using history_NewBinding assms(1) by auto
next
  case (step_NewHandle b m p)
  then show ?thesis using history_NewHandle assms(1) by auto
next
  case (step_Discard p r)
  have wf: "wf_heap h" using assms(1) by (simp add: history_def)
  show ?thesis
    by (rule Discard_effect [OF wf step_Discard(2,3)])
       (use step_Discard(1) assms(1) wf in \<open>auto intro!: history_retire history_silent [of ls h]
          simp: gives_def state_of_def\<close>)
next
  case (step_Consume b p r)
  have wf: "wf_heap h" using assms(1) by (simp add: history_def)
  show ?thesis
  proof (rule Consume_effect [OF wf step_Consume(3,4)])
    fix a m
    assume "p = Some a" "a < length (hp_handles h)" "r = Inr (Some m)"
      "hd_state (hp_handles h ! a) = handleStateAcquired" "hd_binding (hp_handles h ! a) = b"
      "hd_material (hp_handles h ! a) = Some m" "h' = bump add_consumed b (retire handleStateConsumed a h)"
    then show ?thesis using step_Consume(1) by (auto intro!: history_retire assms(1))
  qed (use step_Consume(1) assms(1) wf in \<open>auto intro!: history_silent [of ls h] bump_wf simp: gives_def split: option.splits\<close>)
qed

lemma history_executes: "executes handle_step s ls h \<Longrightarrow> s = empty_heap \<Longrightarrow> history ls h"
proof (induction rule: executes.induct)
  case (executes_nil s)
  then show ?case by (simp add: history_def empty_heap_def wf_heap_def state_of_def)
next
  case (executes_snoc s ls t l u)
  then show ?case by (blast intro: history_step)
qed

section \<open>Counters\<close>

lemma filter_update_count:
  assumes "a < length xs" "\<not> P (xs ! a)"
  shows "length (filter P (xs[a := y])) = length (filter P xs) + (if P y then 1 else 0)"
  using assms by (induction xs arbitrary: a) (auto split: nat.splits simp: nth_Cons')

lemma discarded_of_retire:
  assumes "a < length (hp_handles h)" "hd_state (hp_handles h ! a) = handleStateAcquired"
  shows "discarded_of b (hp_handles (retire st a h)) = discarded_of b (hp_handles h)
    + (if hd_binding (hp_handles h ! a) = Some b \<and> st = handleStateDiscarded then 1 else 0)"
  using assms by (simp add: discarded_of_def retire_def filter_update_count)

lemma hp_bindings_bump: "hp_bindings (bump f (Some b) h) = (hp_bindings h)[b := f (hp_bindings h ! b)]"
  by (simp add: bump_def)

lemma retire_bindings [simp]: "hp_bindings (retire st a h) = hp_bindings h"
  by (simp add: retire_def)

lemma wf_heap_binding:
  assumes "wf_heap h" "a < length (hp_handles h)"
  obtains b where "hd_binding (hp_handles h ! a) = Some b" "b < length (hp_bindings h)"
  using wf_heap_nth [OF assms] by (auto simp: wf_handle_def)

lemma counted_silent:
  assumes "counted ls h" "\<And>b. \<not> gives_to b e" "\<And>b. \<not> conflicts b e"
  shows "counted (ls @ [e]) h"
  using assms by (simp add: counted_def)

lemma counted_Discard:
  assumes "wf_heap h" "counted ls h" "valid_ref (hp_handles h) p" "Discard h p = (h', r)"
  shows "counted (ls @ [EvDiscard p r]) h'"
proof -
  have q: "\<not> gives_to b (EvDiscard p r)" "\<not> conflicts b (EvDiscard p r)" for b
    by (simp_all add: gives_to_def conflicts_def)
  show ?thesis
  proof (rule Discard_effect [OF assms(1,3,4)])
    fix a assume a: "p = Some a" "a < length (hp_handles h)" "r = None"
      "hd_state (hp_handles h ! a) = handleStateAcquired"
      "h' = bump add_discarded (hd_binding (hp_handles h ! a)) (retire handleStateDiscarded a h)"
    obtain b where b: "hd_binding (hp_handles h ! a) = Some b" "b < length (hp_bindings h)"
      using wf_heap_binding [OF assms(1) a(2)] .
    show ?thesis
      using assms(2) b q a(5) discarded_of_retire [OF a(2,4)]
      by (auto simp: counted_def hp_bindings_bump nth_list_update add_discarded_def)
  qed (use assms(2) q in \<open>auto intro: counted_silent\<close>)
qed

lemma counted_Consume:
  assumes "wf_heap h" "counted ls h" "valid_ref (hp_handles h) p" "Consume h b p = (h', r)"
  shows "counted (ls @ [EvConsume b p r]) h'"
proof (rule Consume_effect [OF assms(1,3,4)])
  fix a m assume a: "p = Some a" "a < length (hp_handles h)" "r = Inr (Some m)"
    "hd_state (hp_handles h ! a) = handleStateAcquired" "hd_binding (hp_handles h ! a) = b"
    "hd_material (hp_handles h ! a) = Some m" "h' = bump add_consumed b (retire handleStateConsumed a h)"
  obtain b' where b: "b = Some b'" "b' < length (hp_bindings h)"
    using wf_heap_binding [OF assms(1) a(2)] a(5) by auto
  have q: "gives_to x (EvConsume b p r) \<longleftrightarrow> x = b'" "\<not> conflicts x (EvConsume b p r)" for x
    by (auto simp: gives_to_def conflicts_def a b)
  show ?thesis
    using assms(2) b q a(7) discarded_of_retire [OF a(2,4)]
    by (auto simp: counted_def hp_bindings_bump nth_list_update add_consumed_def)
next
  fix a assume a: "p = Some a" "a < length (hp_handles h)" "hd_binding (hp_handles h ! a) = b"
    "h' = bump add_conflict b h"
    "(hd_state (hp_handles h ! a) = handleStateConsumed \<and> r = Inl (Sentinel ErrPreParamsConsumed))
        \<or> (hd_state (hp_handles h ! a) = handleStateDiscarded \<and> r = Inl (Sentinel ErrPreParamsDiscarded))"
  obtain b' where b: "b = Some b'" "b' < length (hp_bindings h)"
    using wf_heap_binding [OF assms(1) a(2)] a(3) by auto
  have q: "\<not> gives_to x (EvConsume b p r)" "conflicts x (EvConsume b p r) \<longleftrightarrow> x = b'" for x
    using a(5) by (auto simp: gives_to_def conflicts_def b)
  show ?thesis
    using assms(2) b q a(4)
    by (auto simp: counted_def hp_bindings_bump nth_list_update add_conflict_def)
next
  fix e assume "r = Inl (Sentinel e)" "e \<in> {ErrInvalidPreParamsHandle, ErrForeignPreParamsHandle}" "h' = h"
  then show ?thesis
    using assms(2) by (auto intro!: counted_silent simp: gives_to_def conflicts_def split: option.splits)
qed

lemma counted_NewBinding:
  assumes "wf_heap h" "counted ls h" "NewServiceBinding h = (h', a)"
  shows "counted (ls @ [EvNewBinding a]) h'"
proof -
  have "hd_binding hn \<noteq> Some (length (hp_bindings h))" if "hn \<in> set (hp_handles h)" for hn
    using assms(1) that by (auto simp: wf_heap_def wf_handle_def)
  then have "discarded_of (length (hp_bindings h)) (hp_handles h) = 0"
    by (auto simp: discarded_of_def filter_empty_conv)
  with assms show ?thesis
    by (auto simp: counted_def NewServiceBinding_def gives_to_def conflicts_def nth_append less_Suc_eq)
qed

lemma counted_NewHandle:
  assumes "counted ls h" "NewHandle h b m = (h', p)"
  shows "counted (ls @ [EvNewHandle b m p]) h'"
  using assms
  by (auto simp: counted_def NewHandle_def gives_to_def conflicts_def discarded_of_def split: if_splits)

lemma counted_executes:
  "executes handle_step s ls h \<Longrightarrow> s = empty_heap \<Longrightarrow> counted ls h \<and> wf_heap h"
proof (induction rule: executes.induct)
  case (executes_nil s)
  then show ?case by (simp add: counted_def empty_heap_def wf_heap_def)
next
  case (executes_snoc s ls t l u)
  then have t: "counted ls t" "wf_heap t" by simp_all
  have "counted (ls @ [l]) u"
    using executes_snoc.hyps(2) t
    by (auto elim!: handle_stepE intro: counted_NewBinding counted_NewHandle counted_Discard counted_Consume)
  with t(2) executes_snoc.hyps(2) show ?case by (blast intro: handle_step_wf)
qed

section \<open>Properties\<close>

text \<open>
  C5.  Single use.  In every run of the program, whatever goroutines interleave their calls, a handle
  gives out its pre-parameters at most once; what it gives out is exactly what the handle was created
  with, to the service binding it was created for; and a handle that was discarded never gives
  anything out, before or after.
\<close>

theorem preparams_single_use:
  assumes "executes handle_step empty_heap ls h"
  shows "length (filter (gives a) ls) \<le> 1
    \<and> (EvConsume b (Some a) (Inr m) \<in> set ls \<longrightarrow> m \<noteq> None \<and> EvNewHandle b m (Some a) \<in> set ls)
    \<and> (EvDiscard (Some a) None \<in> set ls \<longrightarrow> filter (gives a) ls = [])"
  using historyD(2,4,5) [OF history_executes [OF assms refl], where a = a] by auto

text \<open>A run: create a binding and a handle, consume it, consume it again.\<close>

definition sample_heap :: "nat heap" where
  "sample_heap = \<lparr>hp_bindings = [\<lparr>sb_consumed = 1, sb_discardedBeforeStart = 0, sb_consumeConflict = 1\<rparr>],
     hp_handles = [\<lparr>hd_binding = Some 0, hd_state = handleStateConsumed, hd_material = None\<rparr>]\<rparr>"

definition sample_run :: "nat handle_event list" where
  "sample_run = [EvNewBinding 0, EvNewHandle (Some 0) (Some 7) (Some 0), EvConsume (Some 0) (Some 0) (Inr (Some 7)),
     EvConsume (Some 0) (Some 0) (Inl (Sentinel ErrPreParamsConsumed))]"

lemma sample_run_executes: "executes handle_step empty_heap sample_run sample_heap"
proof -
  let ?b = "\<lparr>sb_consumed = 0, sb_discardedBeforeStart = 0, sb_consumeConflict = 0\<rparr>"
  let ?h1 = "\<lparr>hp_bindings = [?b], hp_handles = []\<rparr> :: nat heap"
  let ?h2 = "\<lparr>hp_bindings = [?b], hp_handles = [\<lparr>hd_binding = Some 0, hd_state = handleStateAcquired, hd_material = Some (7::nat)\<rparr>]\<rparr>"
  let ?h3 = "\<lparr>hp_bindings = [?b\<lparr>sb_consumed := 1\<rparr>],
     hp_handles = [\<lparr>hd_binding = Some 0, hd_state = handleStateConsumed, hd_material = None\<rparr>]\<rparr> :: nat heap"
  have 1: "handle_step empty_heap (EvNewBinding 0) ?h1"
    by (rule step_NewBinding) (simp add: NewServiceBinding_def empty_heap_def)
  have 2: "handle_step ?h1 (EvNewHandle (Some 0) (Some 7) (Some 0)) ?h2"
    by (rule step_NewHandle) (simp_all add: NewHandle_def)
  have 3: "handle_step ?h2 (EvConsume (Some 0) (Some 0) (Inr (Some 7))) ?h3"
    by (rule step_Consume) (simp_all add: Consume_def validLocked_def bump_def add_consumed_def)
  have 4: "handle_step ?h3 (EvConsume (Some 0) (Some 0) (Inl (Sentinel ErrPreParamsConsumed))) sample_heap"
    by (rule step_Consume) (simp_all add: Consume_def validLocked_def bump_def add_conflict_def sample_heap_def)
  have "executes handle_step empty_heap [EvNewBinding 0] ?h1"
    using 1 by (rule executes_one)
  from executes_snoc [OF executes_snoc [OF executes_snoc [OF this 2] 3] 4]
  show ?thesis by (simp add: sample_run_def)
qed

theorem preparams_single_use_witness:
  "length (filter (gives 0) sample_run) \<le> 1"
  using preparams_single_use [OF sample_run_executes, of 0] by blast

text \<open>
  The counters of a binding are exact (modulo \<open>2 ^ 64\<close>): the consumed count is the number of
  successful consumptions through it, the conflict count the number of its attempts on a used or
  discarded handle, and the discarded count the number of its handles that are discarded.
\<close>

theorem handle_metrics_exact:
  assumes "executes handle_step empty_heap ls h" "b < length (hp_bindings h)"
  shows "Binding_Snapshot h (Some b) =
    \<lparr>hm_ConsumedCount = of_nat (length (filter (gives_to b) ls)),
     hm_DiscardedBeforeStartCount = of_nat (discarded_of b (hp_handles h)),
     hm_ConsumeConflictCount = of_nat (length (filter (conflicts b) ls))\<rparr>"
  using counted_executes [OF assms(1) refl] assms(2) by (simp add: Binding_Snapshot_def counted_def)

theorem handle_metrics_exact_witness:
  "hm_ConsumeConflictCount (Binding_Snapshot sample_heap (Some 0)) = of_nat (length (filter (conflicts 0) sample_run))"
proof -
  have "0 < length (hp_bindings sample_heap)" by (simp add: sample_heap_def)
  from handle_metrics_exact [OF sample_run_executes this] show ?thesis by simp
qed

end
