(* ===== verification/Service.thy ===== *)
theory Service
  imports Share_Codec Session_Flow Preparams_Handle
begin

text \<open>
  The session service (\<^verbatim>\<open>internal/tss/service\<close>): \<^verbatim>\<open>service.go\<close>, \<^verbatim>\<open>dkg.go\<close>, \<^verbatim>\<open>sign.go\<close>,
  \<^verbatim>\<open>preparams.go\<close>, \<^verbatim>\<open>snapshot.go\<close> and \<^verbatim>\<open>types.go\<close>.  The application supplies the share reader, the
  share writer and the pre-parameter sources; each is a function on the application's own state \<open>'w\<close>,
  and a nil interface is \<open>None\<close>.  The runner is the one of \<open>Session_Flow\<close>.  What the third-party
  libraries do is gathered in \<open>libs\<close>.  A session that is still waiting for its peers yields \<open>None\<close>;
  panics travel as errors.  Logging is left out.

  \<open>runDKGSession\<close> is the whole handler run on its own; \<open>dkg_step\<close> interleaves the handlers of several
  goroutines at the points where they touch the shared maps.
\<close>

section \<open>Data\<close>

record ('t, 'p, 'm, 'pre) libs =
  lb_curve :: curve
  lb_gob :: gob
  lb_ckd :: ckd_fun
  lb_adjust :: adjust_fun
  lb_machine :: "('t, 'p, 'm, 'pre) machine"

text \<open>A source of pre-parameters; \<open>pp_TryAcquire\<close> is \<open>None\<close> when it is not a \<^verbatim>\<open>TryPreParamsPool\<close>.\<close>

type_synonym ('w, 'pre) acquire_fun = "'w \<Rightarrow> 'w \<times> 'pre option result"

record ('w, 'pre) PreParamsPool =
  pp_Acquire :: "('w, 'pre) acquire_fun"
  pp_TryAcquire :: "('w, 'pre) acquire_fun option"

type_synonym 'w share_reader = "'w \<Rightarrow> string \<Rightarrow> 'w \<times> StoredShare option result"

record ('w, 'pre) Service =
  sv_activeDKGRuns :: "DKGRunKey set"
  sv_runner :: BnbRunner
  sv_preParamsPool :: "('w, 'pre) PreParamsPool option"
  sv_preParamsSource :: "('w, 'pre) PreParamsPool option"
  sv_preParamsBinding :: addr
  sv_shareReader :: "'w share_reader option"
  sv_shareWriter :: "'w share_writer option"

record DKGDerivationMaterial =
  dd_ChainCode :: string
  dd_DerivationScheme :: string

record DKGInput =
  di_SessionID :: string
  di_LocalPartyID :: string
  di_OrgID :: string
  di_KeyID :: string
  di_OpaqueDescriptorFingerprint :: bytes
  di_Parties :: "string list"
  di_Threshold :: u32
  di_Curve :: string
  di_Algorithm :: string
  di_DerivationMaterial :: DKGDerivationMaterial
  di_EmptyKeyErr :: "error option"
  di_MissingPub :: "error option"

record DKGOutput =
  do_KeyID :: string
  do_PublicKey :: string
  do_ChainCode :: string
  do_PublicKeyFormat :: string
  do_DerivationScheme :: string

record SignInput =
  sg_SessionID :: string
  sg_LocalPartyID :: string
  sg_OrgID :: string
  sg_KeyID :: string
  sg_Parties :: "string list"
  sg_Digest :: bytes
  sg_Algorithm :: string
  sg_Curve :: string
  sg_Chain :: string
  sg_DerivationContext :: Context
  sg_DerivationContextHash :: string
  sg_EmptyKeyErr :: "error option"

text \<open>\<^verbatim>\<open>New\<close> panics on a nil runner, so the runner is a value; the binding is allocated on the handle heap.\<close>

definition NewService ::
  "BnbRunner \<Rightarrow> ('w, 'pre) PreParamsPool option \<Rightarrow> 'w share_reader option \<Rightarrow> 'w share_writer option
   \<Rightarrow> ('w, 'pre) PreParamsPool option list \<Rightarrow> 'pre heap \<Rightarrow> 'pre heap \<times> ('w, 'pre) Service" where
  "NewService r pool shareReader shareWriter externalSource h =
     (let source = (if length externalSource > 0 then externalSource ! 0 else None) in
      case NewServiceBinding h of (h', binding) \<Rightarrow>
        (h', \<lparr>sv_activeDKGRuns = {}, sv_runner = r, sv_preParamsPool = pool, sv_preParamsSource = source,
              sv_preParamsBinding = binding, sv_shareReader = shareReader, sv_shareWriter = shareWriter\<rparr>))"

section \<open>Key generation\<close>

definition buildDKGJob :: "DKGInput \<Rightarrow> 'pre DKGJob" where
  "buildDKGJob inp =
     \<lparr>dj_SessionID = di_SessionID inp, dj_LocalPartyID = di_LocalPartyID inp, dj_OrgID = di_OrgID inp,
      dj_Parties = di_Parties inp, dj_Threshold = di_Threshold inp, dj_Curve = di_Curve inp,
      dj_Algorithm = di_Algorithm inp, dj_ECDSAPreParams = None\<rparr>"

record normalizedDKGMaterial =
  nm_ChainCode :: bytes
  nm_ChainCodeHex :: string
  nm_Scheme :: string

definition normalizeDKGMaterial :: "DKGInput \<Rightarrow> normalizedDKGMaterial result" where
  "normalizeDKGMaterial inp =
     (case ValidateDKGMaterial (di_Algorithm inp)
             \<lparr>dm_ChainCode = dd_ChainCode (di_DerivationMaterial inp),
              dm_DerivationScheme = dd_DerivationScheme (di_DerivationMaterial inp)\<rparr> of
        Inl err \<Rightarrow> Inl err
      | Inr (chainCode, scheme) \<Rightarrow>
          Inr \<lparr>nm_ChainCode = chainCode,
               nm_ChainCodeHex = ToLower (TrimSpace (dd_ChainCode (di_DerivationMaterial inp))),
               nm_Scheme = scheme\<rparr>)"

definition resolveDKGOutputKeyID :: "DKGInput \<Rightarrow> string \<Rightarrow> string result" where
  "resolveDKGOutputKeyID inp algorithm =
     (if IsECDSA algorithm then NormalizeKeyID (di_KeyID inp) (di_EmptyKeyErr inp)
      else
        let keyID = TrimSpace (di_KeyID inp) in
        if keyID = [] then Inr (di_SessionID inp) else Inr keyID)"

definition buildECDSADKGOutput ::
  "curve \<Rightarrow> BnbRunner \<Rightarrow> DKGInput \<Rightarrow> string \<Rightarrow> normalizedDKGMaterial
   \<Rightarrow> (DKGOutput \<times> LocalPartySaveData) result" where
  "buildECDSADKGOutput c runner inp keyID material =
     (let runKey = (di_SessionID inp, di_LocalPartyID inp) in
      case ExportTemporaryECDSADKGShare runKey runner of
        Inl err \<Rightarrow> Inl err
      | Inr share \<Rightarrow>
          (case EncodeECPointUncompressedSecp256k1 c (sp_ECDSAPub share) of
             Inl err \<Rightarrow>
               if is_panic err then Inl err
               else (case di_MissingPub inp of None \<Rightarrow> Inl err | Some missing \<Rightarrow> Inl missing)
           | Inr publicKey \<Rightarrow>
               Inr (\<lparr>do_KeyID = keyID, do_PublicKey = publicKey, do_ChainCode = nm_ChainCodeHex material,
                     do_PublicKeyFormat = PublicKeyFormatUncompressedHex,
                     do_DerivationScheme = DerivationSchemeBIP32Secp256k1\<rparr>, share)))"

definition persistECDSAShareAfterDKG ::
  "gob \<Rightarrow> 'w share_writer option \<Rightarrow> DKGRunKey \<Rightarrow> string \<Rightarrow> bytes \<Rightarrow> LocalPartySaveData
   \<Rightarrow> normalizedDKGMaterial \<Rightarrow> BnbRunner \<times> 'w \<Rightarrow> (BnbRunner \<times> 'w) \<times> error option" where
  "persistECDSAShareAfterDKG g shareWriter runKey keyID opaqueDescriptorFingerprint share material rw =
     (case (shareWriter, rw) of
        (None, _) \<Rightarrow> (rw, Some (Sentinel ErrShareWriterRequired))
      | (Some save, (runner, w)) \<Rightarrow>
          (case PersistKeyMaterialAfterDKG g save share
                  \<lparr>pi_SessionID = fst runKey, pi_KeyID = keyID, pi_LocalPartyID = snd runKey,
                   pi_OpaqueDescriptorFingerprint = opaqueDescriptorFingerprint,
                   pi_ChainCode = [] @ nm_ChainCode material,
                   pi_PublicKeyFormat = PublicKeyFormatUncompressedHex,
                   pi_DerivationScheme = nm_Scheme material\<rparr> w of
             (w', Some err) \<Rightarrow> ((runner, w'), Some err)
           | (w', None) \<Rightarrow> ((DeleteTemporaryECDSADKGShare runKey runner, w'), None)))"

definition ResolvePreParamsSource ::
  "('w, 'pre) PreParamsPool option \<Rightarrow> ('w, 'pre) PreParamsPool option \<Rightarrow> ('w, 'pre) PreParamsPool option" where
  "ResolvePreParamsSource external fallback = (if external \<noteq> None then external else fallback)"

text \<open>The application's state after the call, the job, and the error.\<close>

definition AttachPreParams ::
  "('w, 'pre) PreParamsPool option \<Rightarrow> 'pre DKGJob \<Rightarrow> bool \<Rightarrow> 'w \<Rightarrow> 'w \<times> 'pre DKGJob \<times> error option" where
  "AttachPreParams pool job shouldAttach w =
     (case pool of
        None \<Rightarrow> (w, job, None)
      | Some src \<Rightarrow>
          if dj_ECDSAPreParams job \<noteq> None \<or> \<not> shouldAttach then (w, job, None)
          else (case pp_Acquire src w of
                  (w', Inl err) \<Rightarrow> (w', job, Some err)
                | (w', Inr pre) \<Rightarrow> (w', job\<lparr>dj_ECDSAPreParams := pre\<rparr>, None)))"

definition beginDKGRun :: "DKGRunKey \<Rightarrow> ('w, 'pre) Service \<Rightarrow> ('w, 'pre) Service \<times> bool" where
  "beginDKGRun key s =
     (if key \<in> sv_activeDKGRuns s then (s, False)
      else (s\<lparr>sv_activeDKGRuns := insert key (sv_activeDKGRuns s)\<rparr>, True))"

definition endDKGRun :: "DKGRunKey \<Rightarrow> ('w, 'pre) Service \<Rightarrow> ('w, 'pre) Service" where
  "endDKGRun key s = s\<lparr>sv_activeDKGRuns := sv_activeDKGRuns s - {key}\<rparr>"

text \<open>
  The handler between \<^verbatim>\<open>beginDKGRun\<close> and the deferred \<^verbatim>\<open>endDKGRun\<close>, in three parts: what is done before
  the protocol, the protocol run, and what is done with its result.
\<close>

definition dkgPrepare ::
  "('w, 'pre) Service \<Rightarrow> DKGInput \<Rightarrow> 'pre option \<Rightarrow> bool \<Rightarrow> 'w
   \<Rightarrow> 'w \<times> (string \<times> normalizedDKGMaterial \<times> 'pre DKGJob) result" where
  "dkgPrepare s inp suppliedPreParams hasSuppliedPreParams w =
     (let job = buildDKGJob inp in
      case resolveDKGOutputKeyID inp (dj_Algorithm job) of
        Inl err \<Rightarrow> (w, Inl err)
      | Inr keyID \<Rightarrow>
          (case normalizeDKGMaterial inp of
             Inl err \<Rightarrow> (w, Inl err)
           | Inr material \<Rightarrow>
               if IsECDSA (dj_Algorithm job) then
                 if hasSuppliedPreParams
                 then (w, Inr (keyID, material, job\<lparr>dj_ECDSAPreParams := suppliedPreParams\<rparr>))
                 else (case AttachPreParams (ResolvePreParamsSource (sv_preParamsSource s) (sv_preParamsPool s))
                              job True w of
                         (w', _, Some err) \<Rightarrow> (w', Inl err)
                       | (w', job', None) \<Rightarrow> (w', Inr (keyID, material, job')))
               else (w, Inr (keyID, material, job))))"

definition dkgFinish ::
  "('t, 'p, 'm, 'pre) libs \<Rightarrow> 'w share_writer option \<Rightarrow> DKGInput \<Rightarrow> string \<Rightarrow> normalizedDKGMaterial
   \<Rightarrow> BnbRunner \<times> 'w \<Rightarrow> (BnbRunner \<times> 'w) \<times> DKGOutput result" where
  "dkgFinish lib shareWriter inp keyID material rw =
     (if \<not> IsECDSA (di_Algorithm inp)
      then (rw, Inr \<lparr>do_KeyID = keyID, do_PublicKey = [], do_ChainCode = [], do_PublicKeyFormat = [],
                     do_DerivationScheme = []\<rparr>)
      else (case buildECDSADKGOutput (lb_curve lib) (fst rw) inp keyID material of
              Inl err \<Rightarrow> (rw, Inl err)
            | Inr (output, share) \<Rightarrow>
                (case persistECDSAShareAfterDKG (lb_gob lib) shareWriter (di_SessionID inp, di_LocalPartyID inp)
                        keyID (di_OpaqueDescriptorFingerprint inp) share material rw of
                   (rw', Some err) \<Rightarrow> (rw', Inl err)
                 | (rw', None) \<Rightarrow> (rw', Inr output))))"

definition dkgBody ::
  "('t, 'p, 'm, 'pre) libs \<Rightarrow> 't \<Rightarrow> occurrence list \<Rightarrow> DKGInput \<Rightarrow> 'pre option \<Rightarrow> bool
   \<Rightarrow> ('w, 'pre) Service \<times> 'w \<Rightarrow> ((('w, 'pre) Service \<times> 'w) \<times> DKGOutput result) option" where
  "dkgBody lib t occ inp suppliedPreParams hasSuppliedPreParams sw =
     (case sw of (s, w) \<Rightarrow>
      case dkgPrepare s inp suppliedPreParams hasSuppliedPreParams w of
        (w, Inl err) \<Rightarrow> Some ((s, w), Inl err)
      | (w, Inr (keyID, material, job)) \<Rightarrow>
          (case RunDKG (lb_machine lib) t occ job (sv_runner s) of
             None \<Rightarrow> None
           | Some (runner, Some err) \<Rightarrow> Some ((s\<lparr>sv_runner := runner\<rparr>, w), Inl err)
           | Some (runner, None) \<Rightarrow>
               (case dkgFinish lib (sv_shareWriter s) inp keyID material (runner, w) of
                  ((runner, w), output) \<Rightarrow> Some ((s\<lparr>sv_runner := runner\<rparr>, w), output))))"

definition runDKGSession ::
  "('t, 'p, 'm, 'pre) libs \<Rightarrow> 't \<Rightarrow> occurrence list \<Rightarrow> DKGInput \<Rightarrow> 'pre option \<Rightarrow> bool
   \<Rightarrow> ('w, 'pre) Service \<times> 'w \<Rightarrow> ((('w, 'pre) Service \<times> 'w) \<times> DKGOutput result) option" where
  "runDKGSession lib t occ inp suppliedPreParams hasSuppliedPreParams sw =
     (case sw of (s, w) \<Rightarrow>
      if IsECDSA (di_Algorithm inp) \<and> sv_shareWriter s = None
      then Some ((s, w), Inl (Sentinel ErrShareWriterRequired))
      else
        let runKey = (di_SessionID inp, di_LocalPartyID inp) in
        case beginDKGRun runKey s of
          (s, False) \<Rightarrow> Some ((s, w), Inl (errorf ErrDuplicateDKGRun ''session party''))
        | (s, True) \<Rightarrow>
            (case dkgBody lib t occ inp suppliedPreParams hasSuppliedPreParams (s, w) of
               None \<Rightarrow> None
             | Some ((s, w), output) \<Rightarrow> Some ((endDKGRun runKey s, w), output)))"

definition RunDKGSession ::
  "('t, 'p, 'm, 'pre) libs \<Rightarrow> 't \<Rightarrow> occurrence list \<Rightarrow> DKGInput
   \<Rightarrow> ('w, 'pre) Service \<times> 'w \<Rightarrow> ((('w, 'pre) Service \<times> 'w) \<times> DKGOutput result) option" where
  "RunDKGSession lib t occ inp sw = runDKGSession lib t occ inp None False sw"

text \<open>The handle heap comes first in the results of the calls on handles.\<close>

definition RunDKGSessionWithPreParams ::
  "('t, 'p, 'm, 'pre) libs \<Rightarrow> 't \<Rightarrow> occurrence list \<Rightarrow> DKGInput \<Rightarrow> addr option \<Rightarrow> 'pre heap
   \<Rightarrow> ('w, 'pre) Service \<times> 'w \<Rightarrow> ('pre heap \<times> (('w, 'pre) Service \<times> 'w) \<times> DKGOutput result) option" where
  "RunDKGSessionWithPreParams lib t occ inp handle h sw =
     (case Consume h (Some (sv_preParamsBinding (fst sw))) handle of
        (h, Inl err) \<Rightarrow> Some (h, sw, Inl err)
      | (h, Inr material) \<Rightarrow> map_option (Pair h) (runDKGSession lib t occ inp material True sw))"

definition handOut ::
  "addr \<Rightarrow> 'pre heap \<Rightarrow> 'w \<times> 'pre option result \<Rightarrow> ('pre heap \<times> 'w) \<times> addr result" where
  "handOut binding h acquired =
     (case acquired of
        (w, Inl err) \<Rightarrow> ((h, w), Inl err)
      | (w, Inr material) \<Rightarrow>
          (case NewHandle h (Some binding) material of
             (h, None) \<Rightarrow> ((h, w), Inl (Sentinel ErrInvalidPreParamsHandle))
           | (h, Some handle) \<Rightarrow> ((h, w), Inr handle)))"

definition AcquireDKGPreParams ::
  "('w, 'pre) Service \<Rightarrow> 'pre heap \<times> 'w \<Rightarrow> ('pre heap \<times> 'w) \<times> addr result" where
  "AcquireDKGPreParams s hw =
     (case (ResolvePreParamsSource (sv_preParamsSource s) (sv_preParamsPool s), hw) of
        (None, _) \<Rightarrow> (hw, Inl (errors_New ''dkg preparams source is unavailable''))
      | (Some source, (h, w)) \<Rightarrow> handOut (sv_preParamsBinding s) h (pp_Acquire source w))"

definition TryAcquireDKGPreParams ::
  "('w, 'pre) Service \<Rightarrow> 'pre heap \<times> 'w \<Rightarrow> ('pre heap \<times> 'w) \<times> addr result" where
  "TryAcquireDKGPreParams s hw =
     (case (ResolvePreParamsSource (sv_preParamsSource s) (sv_preParamsPool s), hw) of
        (None, _) \<Rightarrow> (hw, Inl (errors_New ''dkg preparams source is unavailable''))
      | (Some source, (h, w)) \<Rightarrow>
          (case pp_TryAcquire source of
             Some tryAcquire \<Rightarrow> handOut (sv_preParamsBinding s) h (tryAcquire w)
           | None \<Rightarrow> handOut (sv_preParamsBinding s) h (pp_Acquire source w)))"

section \<open>Signing\<close>

text \<open>A reader that returns a nil share and no error makes the code dereference nil.\<close>

definition loadECDSAKeyMaterial ::
  "gob \<Rightarrow> 'w share_reader option \<Rightarrow> SignInput \<Rightarrow> 'w \<Rightarrow> 'w \<times> ECDSAKeyMaterial result" where
  "loadECDSAKeyMaterial g shareReader inp w =
     (case NormalizeKeyID (sg_KeyID inp) (sg_EmptyKeyErr inp) of
        Inl err \<Rightarrow> (w, Inl err)
      | Inr keyID \<Rightarrow>
          (case shareReader of
             None \<Rightarrow> (w, Inl (Sentinel ErrShareReaderRequired))
           | Some LoadShare \<Rightarrow>
               (case LoadShare w keyID of
                  (w', Inl err) \<Rightarrow> (w', Inl err)
                | (w', Inr None) \<Rightarrow> (w', Inl (go_panic ''nil pointer dereference''))
                | (w', Inr (Some stored)) \<Rightarrow> (w', UnmarshalKeyMaterial g (ss_Blob stored)))))"

definition checkStoredMaterial :: "ECDSAKeyMaterial \<Rightarrow> error option" where
  "checkStoredMaterial material =
     (if length (km_ChainCode material) \<noteq> 32 then Some (Sentinel ErrChainCodeMissing)
      else if km_DerivationScheme material \<noteq> DerivationSchemeBIP32Secp256k1
      then Some (errorf ErrUnsupportedDerivationScheme ''stored scheme'')
      else if km_PublicKeyFormat material \<noteq> PublicKeyFormatUncompressedHex
      then Some (errorf ErrInvalidDerivationContext ''stored public key format'')
      else None)"

definition prepareDerivedECDSASignJob ::
  "('t, 'p, 'm, 'pre) libs \<Rightarrow> 'w share_reader option \<Rightarrow> SignJob \<Rightarrow> SignInput \<Rightarrow> 'w \<Rightarrow> 'w \<times> SignJob result" where
  "prepareDerivedECDSASignJob lib shareReader job inp w =
     (if \<not> IsECDSA (sj_Algorithm job) then (w, Inl (Sentinel ErrDerivedSigningUnsupported))
      else (case loadECDSAKeyMaterial (lb_gob lib) shareReader inp w of
              (w', Inl err) \<Rightarrow> (w', Inl err)
            | (w', Inr material) \<Rightarrow>
                (w', case checkStoredMaterial material of
                       Some err \<Rightarrow> Inl err
                     | None \<Rightarrow>
                         (case HashV1 (lb_curve lib) (sg_DerivationContext inp) of
                            Inl err \<Rightarrow> Inl err
                          | Inr expectedHash \<Rightarrow>
                              if sg_DerivationContextHash inp = [] \<or> sg_DerivationContextHash inp \<noteq> expectedHash
                              then Inl (errorf ErrDerivationContextMismatch ''context hash mismatch'')
                              else (case PrepareECDSASigningShare (lb_curve lib) (lb_ckd lib) (lb_adjust lib)
                                           (km_Share material) (km_ChainCode material) (sg_DerivationContext inp) of
                                      Inl err \<Rightarrow> Inl err
                                    | Inr prepared \<Rightarrow>
                                        Inr (job\<lparr>sj_KeyShare := ps_Share prepared,
                                                 sj_KeyDerivationDelta := Some (ps_KeyDerivationDelta prepared),
                                                 sj_DerivationContextHash := sg_DerivationContextHash inp\<rparr>))))))"

text \<open>The zero value of a share.\<close>

definition zeroShare :: LocalPartySaveData where
  "zeroShare = \<lparr>sp_ECDSAPub = None, sp_BigXj = [], sp_Ks = [], sp_Rest = []\<rparr>"

definition signJobOf :: "SignInput \<Rightarrow> SignJob" where
  "signJobOf inp =
     \<lparr>sj_SessionID = sg_SessionID inp, sj_LocalPartyID = sg_LocalPartyID inp, sj_OrgID = sg_OrgID inp,
      sj_KeyID = sg_KeyID inp, sj_Parties = sg_Parties inp, sj_Digest = [] @ sg_Digest inp,
      sj_Algorithm = sg_Algorithm inp, sj_Chain = sg_Chain inp, sj_KeyShare = zeroShare,
      sj_KeyDerivationDelta = None, sj_DerivationContextHash = sg_DerivationContextHash inp\<rparr>"

definition RunSignSession ::
  "('t, 'p, 'm, 'pre) libs \<Rightarrow> 't \<Rightarrow> occurrence list \<Rightarrow> SignInput
   \<Rightarrow> ('w, 'pre) Service \<times> 'w \<Rightarrow> ((('w, 'pre) Service \<times> 'w) \<times> error option) option" where
  "RunSignSession lib t occ inp sw =
     (case sw of (s, w) \<Rightarrow>
      case prepareDerivedECDSASignJob lib (sv_shareReader s) (signJobOf inp) inp w of
        (w, Inl err) \<Rightarrow> Some ((s, w), Some err)
      | (w, Inr job) \<Rightarrow>
          (case RunSign (lb_machine lib) t occ job (sv_runner s) of
             None \<Rightarrow> None
           | Some (runner, Some err) \<Rightarrow> Some ((s\<lparr>sv_runner := runner\<rparr>, w), Some err)
           | Some (runner, None) \<Rightarrow>
               Some ((s\<lparr>sv_runner := runner\<rparr>, w),
                     (case ExportECDSASignature (sg_SessionID inp) runner of
                        Inl err \<Rightarrow> Some err
                      | Inr _ \<Rightarrow> None))))"

section \<open>What the parts of the handlers return\<close>

lemma clone_share [simp]: "cloneECDSAShareForDerivation share = share"
  by (simp add: cloneECDSAShareForDerivation_def)

lemma checkStoredMaterial_None: "checkStoredMaterial m = None \<longleftrightarrow> valid_material m"
  by (auto simp: checkStoredMaterial_def valid_material_def)

lemma PrepareECDSASigningShare_Inr:
  "PrepareECDSASigningShare c ckd adjust share cc ctx = Inr p \<longleftrightarrow>
   (\<exists>child. DeriveECDSAChildKeyForContext c ckd (sp_ECDSAPub share) cc ctx = Inr child
     \<and> adjust (ck_KeyDerivationDelta child) share (ck_PublicKey child) = Inr (ps_Share p)
     \<and> ps_DerivedPublicKey p = ck_PublicKeyHex child \<and> ps_KeyDerivationDelta p = ck_KeyDerivationDelta child)"
  by (auto simp: PrepareECDSASigningShare_def split: sum.splits)

text \<open>The job a signing session runs, for the adjusted share and the shift of the child key.\<close>

definition derivedSignJob :: "SignInput \<Rightarrow> LocalPartySaveData \<Rightarrow> int \<Rightarrow> SignJob" where
  "derivedSignJob inp adjusted delta =
     (signJobOf inp)\<lparr>sj_KeyShare := adjusted, sj_KeyDerivationDelta := Some delta,
        sj_DerivationContextHash := sg_DerivationContextHash inp\<rparr>"

lemma prepareDerived_Inr:
  assumes "prepareDerivedECDSASignJob lib rd (signJobOf inp) inp w = (w', Inr job)"
  obtains material child adjusted where
    "loadECDSAKeyMaterial (lb_gob lib) rd inp w = (w', Inr material)" "valid_material material"
    "HashV1 (lb_curve lib) (sg_DerivationContext inp) = Inr (sg_DerivationContextHash inp)"
    "DeriveECDSAChildKeyForContext (lb_curve lib) (lb_ckd lib) (sp_ECDSAPub (km_Share material))
       (km_ChainCode material) (sg_DerivationContext inp) = Inr child"
    "lb_adjust lib (ck_KeyDerivationDelta child) (km_Share material) (ck_PublicKey child) = Inr adjusted"
    "job = derivedSignJob inp adjusted (ck_KeyDerivationDelta child)"
proof -
  obtain material where m: "loadECDSAKeyMaterial (lb_gob lib) rd inp w = (w', Inr material)"
    using assms by (auto simp: prepareDerivedECDSASignJob_def split: if_splits prod.splits sum.splits)
  obtain p where v: "checkStoredMaterial material = None"
      and h: "HashV1 (lb_curve lib) (sg_DerivationContext inp) = Inr (sg_DerivationContextHash inp)"
      and p: "PrepareECDSASigningShare (lb_curve lib) (lb_ckd lib) (lb_adjust lib) (km_Share material)
         (km_ChainCode material) (sg_DerivationContext inp) = Inr p"
      and j: "job = derivedSignJob inp (ps_Share p) (ps_KeyDerivationDelta p)"
    using assms m by (auto simp: prepareDerivedECDSASignJob_def derivedSignJob_def split: if_splits option.splits sum.splits)
  from p obtain child where "DeriveECDSAChildKeyForContext (lb_curve lib) (lb_ckd lib) (sp_ECDSAPub (km_Share material))
       (km_ChainCode material) (sg_DerivationContext inp) = Inr child"
     "lb_adjust lib (ck_KeyDerivationDelta child) (km_Share material) (ck_PublicKey child) = Inr (ps_Share p)"
     "ps_KeyDerivationDelta p = ck_KeyDerivationDelta child"
    unfolding PrepareECDSASigningShare_Inr by auto
  with m v h j show thesis by (intro that) (auto simp: checkStoredMaterial_None)
qed

lemma signJobOf_sel [simp]:
  "sj_SessionID (signJobOf inp) = sg_SessionID inp" "sj_KeyID (signJobOf inp) = sg_KeyID inp"
  "sj_Digest (signJobOf inp) = sg_Digest inp"
  by (simp_all add: signJobOf_def)

lemma derivedSignJob_sel [simp]:
  "sj_SessionID (derivedSignJob inp a d) = sg_SessionID inp" "sj_KeyID (derivedSignJob inp a d) = sg_KeyID inp"
  "sj_Digest (derivedSignJob inp a d) = sg_Digest inp"
  by (simp_all add: derivedSignJob_def)

text \<open>The two ways in which a signing session ends.\<close>

lemma RunSignSession_cases:
  assumes "RunSignSession lib t occ inp (s, w) = Some ((s', w'), err)"
  obtains (refused) e where "prepareDerivedECDSASignJob lib (sv_shareReader s) (signJobOf inp) inp w = (w', Inl e)"
      "s' = s" "err = Some e"
  | (ran) job er where "prepareDerivedECDSASignJob lib (sv_shareReader s) (signJobOf inp) inp w = (w', Inr job)"
      "RunSign (lb_machine lib) t occ job (sv_runner s) = Some (sv_runner s', er)"
      "s' = s\<lparr>sv_runner := sv_runner s'\<rparr>"
      "err = (case er of Some e \<Rightarrow> Some e
              | None \<Rightarrow> case ExportECDSASignature (sg_SessionID inp) (sv_runner s') of Inl e \<Rightarrow> Some e | Inr _ \<Rightarrow> None)"
  using assms unfolding RunSignSession_def
  by (auto split: prod.splits sum.splits option.splits)

section \<open>Signing sessions\<close>

lemma RunSignSession_effect:
  assumes "RunSignSession lib t occ inp (s, w) = Some ((s', w'), err)"
    and "sg_SessionID inp \<noteq> []" and "rn_ecdsaSigs (sv_runner s) (sg_SessionID inp) = None"
  shows "rn_temporaryECDSADKGShares (sv_runner s') = rn_temporaryECDSADKGShares (sv_runner s) \<and>
    (if err = None then
       \<exists>material child adjusted result sig.
         loadECDSAKeyMaterial (lb_gob lib) (sv_shareReader s) inp w = (w', Inr material)
       \<and> valid_material material
       \<and> HashV1 (lb_curve lib) (sg_DerivationContext inp) = Inr (sg_DerivationContextHash inp)
       \<and> DeriveECDSAChildKeyForContext (lb_curve lib) (lb_ckd lib) (sp_ECDSAPub (km_Share material))
           (km_ChainCode material) (sg_DerivationContext inp) = Inr child
       \<and> lb_adjust lib (ck_KeyDerivationDelta child) (km_Share material) (ck_PublicKey child) = Inr adjusted
       \<and> RunSign (lb_machine lib) t occ (derivedSignJob inp adjusted (ck_KeyDerivationDelta child)) (sv_runner s)
           = Some (sv_runner s', None)
       \<and> OccEvent (eventProtocolDone result) None None \<in> set occ \<and> pr_signature result = Some sig
       \<and> SetBytes (sd_M sig) = SetBytes (sg_Digest inp)
       \<and> ExportECDSASignature (sg_SessionID inp) (sv_runner s') = Inr (sig\<lparr>sd_M := sg_Digest inp\<rparr>)
     else rn_ecdsaSigs (sv_runner s') = rn_ecdsaSigs (sv_runner s))"
  using assms(1)
proof (cases rule: RunSignSession_cases)
  case (refused e)
  then show ?thesis by simp
next
  case (ran job er)
  obtain material child adjusted where p:
    "loadECDSAKeyMaterial (lb_gob lib) (sv_shareReader s) inp w = (w', Inr material)" "valid_material material"
    "HashV1 (lb_curve lib) (sg_DerivationContext inp) = Inr (sg_DerivationContextHash inp)"
    "DeriveECDSAChildKeyForContext (lb_curve lib) (lb_ckd lib) (sp_ECDSAPub (km_Share material))
       (km_ChainCode material) (sg_DerivationContext inp) = Inr child"
    "lb_adjust lib (ck_KeyDerivationDelta child) (km_Share material) (ck_PublicKey child) = Inr adjusted"
    "job = derivedSignJob inp adjusted (ck_KeyDerivationDelta child)"
    using prepareDerived_Inr [OF ran(1)] by blast
  note eff = RunSign_effect [OF ran(2)]
  show ?thesis
  proof (cases er)
    case (Some e)
    then show ?thesis using eff ran(4) by simp
  next
    case None
    then obtain result where r: "OccEvent (eventProtocolDone result) None None \<in> set occ"
      "case pr_signature result of None \<Rightarrow> rn_ecdsaSigs (sv_runner s') = rn_ecdsaSigs (sv_runner s)
       | Some sig \<Rightarrow> SetBytes (sd_M sig) = SetBytes (sj_Digest job)
           \<and> (\<forall>k. rn_ecdsaSigs (sv_runner s') k = (if k \<in> {sj_SessionID job, sj_KeyID job} \<and> k \<noteq> []
                then Some (sig\<lparr>sd_M := sj_Digest job\<rparr>) else rn_ecdsaSigs (sv_runner s) k))"
      using eff by auto
    show ?thesis
    proof (cases "pr_signature result")
      case n: None
      with r have "rn_ecdsaSigs (sv_runner s') = rn_ecdsaSigs (sv_runner s)" by simp
      moreover from this assms(3) obtain e where "err = Some e" by (simp add: ran(4) None ExportECDSASignature_def)
      ultimately show ?thesis using eff by simp
    next
      case (Some sig)
      with r assms(2) have "ExportECDSASignature (sg_SessionID inp) (sv_runner s') = Inr (sig\<lparr>sd_M := sg_Digest inp\<rparr>)"
        and "SetBytes (sd_M sig) = SetBytes (sg_Digest inp)"
        by (simp_all add: ExportECDSASignature_def p(6))
      moreover from this have "err = None" by (simp add: ran(4) None)
      ultimately show ?thesis
        using p r(1) Some eff ran(2) None by auto
    qed
  qed
qed

text \<open>
  C2.  Signing through the service.  Whatever the protocol does, a session that ends in an error
  stores no signature.  A session that succeeds had its context committed to by the hash it was
  given, loaded key material that satisfies the codec contract, derived the child key of that
  context from the stored account key and chain code, adjusted the stored share for it, ran the
  protocol with exactly that share, shift and hash, and exports a signature of the protocol-done
  event whose message is the requested digest.  No temporary share is touched in either case.
\<close>

theorem signing_is_derived:
  assumes "RunSignSession lib t occ inp (s, w) = Some ((s', w'), err)"
    and "sg_SessionID inp \<noteq> []" and "rn_ecdsaSigs (sv_runner s) (sg_SessionID inp) = None"
  shows "rn_temporaryECDSADKGShares (sv_runner s') = rn_temporaryECDSADKGShares (sv_runner s) \<and>
    (if err = None then
       \<exists>material child adjusted result sig.
         loadECDSAKeyMaterial (lb_gob lib) (sv_shareReader s) inp w = (w', Inr material)
       \<and> valid_material material
       \<and> HashV1 (lb_curve lib) (sg_DerivationContext inp) = Inr (sg_DerivationContextHash inp)
       \<and> DeriveECDSAChildKeyForContext (lb_curve lib) (lb_ckd lib) (sp_ECDSAPub (km_Share material))
           (km_ChainCode material) (sg_DerivationContext inp) = Inr child
       \<and> lb_adjust lib (ck_KeyDerivationDelta child) (km_Share material) (ck_PublicKey child) = Inr adjusted
       \<and> RunSign (lb_machine lib) t occ (derivedSignJob inp adjusted (ck_KeyDerivationDelta child)) (sv_runner s)
           = Some (sv_runner s', None)
       \<and> OccEvent (eventProtocolDone result) None None \<in> set occ \<and> pr_signature result = Some sig
       \<and> SetBytes (sd_M sig) = SetBytes (sg_Digest inp)
       \<and> ExportECDSASignature (sg_SessionID inp) (sv_runner s') = Inr (sig\<lparr>sd_M := sg_Digest inp\<rparr>)
     else rn_ecdsaSigs (sv_runner s') = rn_ecdsaSigs (sv_runner s))"
  by (rule RunSignSession_effect [OF assms])


text \<open>A service over a store that keeps the last blob, for concrete instances.\<close>

definition sample_libs :: "(Frame list, nat, bytes, unit) libs" where
  "sample_libs = \<lparr>lb_curve = secp256k1, lb_gob = sample_gob, lb_ckd = identity_ckd, lb_adjust = (\<lambda>d s p. Inr s),
     lb_machine = sample_machine\<rparr>"

definition sample_service :: "(bytes, unit) Service" where
  "sample_service = \<lparr>sv_activeDKGRuns = {}, sv_runner = NewBnbRunner sample_cfg, sv_preParamsPool = None,
     sv_preParamsSource = None, sv_preParamsBinding = 0,
     sv_shareReader = Some (\<lambda>w k. (w, Inr (Some \<lparr>ss_Blob = w\<rparr>))),
     sv_shareWriter = Some (\<lambda>w i. (si_CodecBlob i, None))\<rparr>"

definition sample_sign_input :: "string \<Rightarrow> SignInput" where
  "sample_sign_input h = \<lparr>sg_SessionID = ''s'', sg_LocalPartyID = ''B'', sg_OrgID = ''o'', sg_KeyID = ''k'',
     sg_Parties = [''A'', ''B''], sg_Digest = [CHR 0x00, CHR ''d''], sg_Algorithm = [], sg_Curve = [], sg_Chain = [],
     sg_DerivationContext = sample_context, sg_DerivationContextHash = h, sg_EmptyKeyErr = Some (Sentinel ErrShareNotFound)\<rparr>"

lemma sample_libs_sel [simp]:
  "lb_curve sample_libs = secp256k1" "lb_gob sample_libs = sample_gob" "lb_ckd sample_libs = identity_ckd"
  "lb_adjust sample_libs d sh p = Inr sh" "lb_machine sample_libs = sample_machine"
  by (simp_all add: sample_libs_def)

lemma trim_k: "TrimSpace ''k'' = ''k''" "TrimSpace ''s'' = ''s''"
  by code_simp+

lemma HashV1_nonempty: "HashV1 c ctx = Inr h \<Longrightarrow> h \<noteq> []"
proof -
  assume "HashV1 c ctx = Inr h"
  then obtain p where "h = hex_EncodeToString (Sum256 p)" by (auto simp: HashV1_Inr_iff)
  then have "length h = 64" by (simp add: Sum256_length)
  then show "h \<noteq> []" by auto
qed

lemma sample_prepare:
  assumes "HashV1 secp256k1 sample_context = Inr h"
  shows "prepareDerivedECDSASignJob sample_libs (sv_shareReader sample_service) (signJobOf (sample_sign_input h))
     (sample_sign_input h) ''s'' = (''s'', Inr (derivedSignJob (sample_sign_input h) sample_share 0))"
proof -
  let ?inp = "sample_sign_input h"
  have l: "loadECDSAKeyMaterial sample_gob (sv_shareReader sample_service) ?inp ''s'' = (''s'', Inr sample_material)"
    using Unmarshal_Marshal [OF sample_gob_wf sample_marshal] trim_k
    by (simp add: loadECDSAKeyMaterial_def sample_service_def sample_sign_input_def NormalizeKeyID_def)
  have "PrepareECDSASigningShare secp256k1 identity_ckd (lb_adjust sample_libs) sample_share
      (replicate 32 CHR 0x01) sample_context
    = Inr \<lparr>ps_Share = sample_share, ps_DerivedPublicKey = encode_xy 1 sample_y, ps_KeyDerivationDelta = 0\<rparr>"
    unfolding PrepareECDSASigningShare_Inr using sample_derivation by (simp add: sample_share_def)
  moreover have "checkStoredMaterial sample_material = None"
    unfolding checkStoredMaterial_None by (simp add: sample_material_def valid_material_def)
  ultimately show ?thesis
    using l assms HashV1_nonempty [OF assms] lower_blank
    by (simp add: prepareDerivedECDSASignJob_def IsECDSA_def derivedSignJob_def)
       (simp add: sample_sign_input_def signJobOf_def sample_material_def lower_blank)
qed

lemma sample_sign_session:
  "\<exists>h s'. HashV1 secp256k1 sample_context = Inr h
     \<and> RunSignSession sample_libs [] [done_with None (Some (sample_signature ''d''))] (sample_sign_input h)
         (sample_service, ''s'') = Some ((s', ''s''), None)"
proof -
  let ?occ = "[done_with None (Some (sample_signature ''d''))]"
  obtain h where h: "HashV1 secp256k1 sample_context = Inr h" using sample_context_hash by blast
  let ?inp = "sample_sign_input h"
  let ?job = "derivedSignJob ?inp sample_share 0"
  have j: "sj_Parties ?job = [''A'', ''B'']" "sj_LocalPartyID ?job = ''B''" "sj_Digest ?job = [CHR 0x00, CHR ''d'']"
      "sj_Algorithm ?job = []" "sj_KeyDerivationDelta ?job = Some 0" "\<not> isZeroECDSAShare (sj_KeyShare ?job)"
      "sg_SessionID ?inp = ''s''"
    by (simp_all add: derivedSignJob_def sample_sign_input_def signJobOf_def isZeroECDSAShare_def sample_share_def)
  obtain r' where r: "RunSign sample_machine [] ?occ ?job (sv_runner sample_service) = Some (r', None)"
    using sample_RunSign [OF j(1-6)] by blast
  have "rn_ecdsaSigs r' ''s'' \<noteq> None"
    using RunSign_effect [OF r] j(7) by (auto simp: done_with_def)
  then have "RunSignSession sample_libs [] ?occ ?inp (sample_service, ''s'')
      = Some ((sample_service\<lparr>sv_runner := r'\<rparr>, ''s''), None)"
    using sample_prepare [OF h] r j(7) by (auto simp: RunSignSession_def ExportECDSASignature_def)
  with h show ?thesis by blast
qed

theorem signing_is_derived_witness:
  "\<exists>h s' w'. RunSignSession sample_libs [] [done_with None (Some (sample_signature ''d''))] (sample_sign_input h)
       (sample_service, ''s'') = Some ((s', w'), None)
     \<and> HashV1 secp256k1 sample_context = Inr h
     \<and> ExportECDSASignature ''s'' (sv_runner s') = Inr ((sample_signature ''d'')\<lparr>sd_M := [CHR 0x00, CHR ''d'']\<rparr>)"
proof -
  let ?occ = "[done_with None (Some (sample_signature ''d''))]"
  obtain h s' where h: "HashV1 secp256k1 sample_context = Inr h"
      and s: "RunSignSession sample_libs [] ?occ (sample_sign_input h) (sample_service, ''s'') = Some ((s', ''s''), None)"
    using sample_sign_session by blast
  have "sg_SessionID (sample_sign_input h) = ''s''" "sg_Digest (sample_sign_input h) = [CHR 0x00, CHR ''d'']"
    by (simp_all add: sample_sign_input_def)
  with signing_is_derived [OF s] have "ExportECDSASignature ''s'' (sv_runner s')
      = Inr ((sample_signature ''d'')\<lparr>sd_M := [CHR 0x00, CHR ''d'']\<rparr>)"
    by (auto simp: sample_service_def NewBnbRunner_def done_with_def)
  with h s show ?thesis by blast
qed

end
