(* ===== verification/Key_Generation.thy ===== *)
theory Key_Generation
  imports Service
begin

text \<open>
  Correctness of the key-generation handlers of the service (\<^verbatim>\<open>runDKGSession\<close> and the functions of
  \<^verbatim>\<open>internal/tss/service/dkg.go\<close>): what a session that runs on its own returns, persists and leaves
  behind, and, with \<open>dkg_step\<close>, that sessions which run at the same time keep out of each other's way.
\<close>

section \<open>Key-generation sessions\<close>

abbreviation runKeyOf :: "DKGInput \<Rightarrow> DKGRunKey" where
  "runKeyOf inp \<equiv> (di_SessionID inp, di_LocalPartyID inp)"

lemma buildDKGJob_sel [simp]:
  "dj_SessionID (buildDKGJob inp) = di_SessionID inp" "dj_LocalPartyID (buildDKGJob inp) = di_LocalPartyID inp"
  "dj_Algorithm (buildDKGJob inp) = di_Algorithm inp" "dj_Parties (buildDKGJob inp) = di_Parties inp"
  "dj_Threshold (buildDKGJob inp) = di_Threshold inp" "dj_Curve (buildDKGJob inp) = di_Curve inp"
  "dj_ECDSAPreParams (buildDKGJob inp) = None"
  by (simp_all add: buildDKGJob_def)

lemma AttachPreParams_keeps:
  "AttachPreParams pool job b w = (w', job', err) \<Longrightarrow>
   dj_SessionID job' = dj_SessionID job \<and> dj_LocalPartyID job' = dj_LocalPartyID job"
  by (auto simp: AttachPreParams_def split: option.splits if_splits prod.splits sum.splits)

lemma lower_hex_char: "is_lower_hex c \<Longrightarrow> visible c \<and> ascii_lower c = c"
proof -
  have "list_all (\<lambda>c. visible c \<and> ascii_lower c = c) ''0123456789abcdef''"
    by (simp add: visible_def ascii_lower_def)
  then show "is_lower_hex c \<Longrightarrow> visible c \<and> ascii_lower c = c"
    unfolding is_lower_hex_def list_all_iff by blast
qed

lemma lower_hex_settled: "s \<noteq> [] \<Longrightarrow> list_all is_lower_hex s \<Longrightarrow> settled s"
  using lower_hex_char by (intro lower_word_settled) (simp_all add: list_all_iff)

lemma normalizeDKGMaterial_Inr:
  assumes "normalizeDKGMaterial inp = Inr m" "IsECDSA (di_Algorithm inp)"
  shows "length (nm_ChainCode m) = 32" "nm_ChainCodeHex m = hex_EncodeToString (nm_ChainCode m)"
    "nm_Scheme m = DerivationSchemeBIP32Secp256k1"
    "dd_ChainCode (di_DerivationMaterial inp) = hex_EncodeToString (nm_ChainCode m)"
proof -
  obtain cc where c: "ParseChainCodeHex (dd_ChainCode (di_DerivationMaterial inp)) = Inr cc" "nm_ChainCode m = cc"
      "nm_ChainCodeHex m = ToLower (TrimSpace (dd_ChainCode (di_DerivationMaterial inp)))"
      "nm_Scheme m = DerivationSchemeBIP32Secp256k1"
    using assms by (auto simp: normalizeDKGMaterial_def ValidateDKGMaterial_def Let_def IsECDSAAlgorithm_IsECDSA
        split: if_splits sum.splits)
  then have l: "length cc = 32" "dd_ChainCode (di_DerivationMaterial inp) = hex_EncodeToString cc"
    by (simp_all add: ParseChainCodeHex_iff)
  have "hex_EncodeToString cc \<noteq> []" using l(1) hex_Encode_length [of cc] by fastforce
  then have "settled (hex_EncodeToString cc)" by (rule lower_hex_settled [OF _ hex_Encode_lower])
  with c l show "length (nm_ChainCode m) = 32" "nm_ChainCodeHex m = hex_EncodeToString (nm_ChainCode m)"
    "nm_Scheme m = DerivationSchemeBIP32Secp256k1"
    "dd_ChainCode (di_DerivationMaterial inp) = hex_EncodeToString (nm_ChainCode m)"
    by (simp_all add: settled_def)
qed

lemma dkgPrepare_Inr:
  assumes "dkgPrepare s inp pre has w = (w', Inr (keyID, material, job))"
  shows "dj_SessionID job = di_SessionID inp" "dj_LocalPartyID job = di_LocalPartyID inp"
    "normalizeDKGMaterial inp = Inr material"
    "IsECDSA (di_Algorithm inp) \<Longrightarrow> keyID = TrimSpace (di_KeyID inp) \<and> keyID \<noteq> []"
proof -
  obtain m k where k: "resolveDKGOutputKeyID inp (di_Algorithm inp) = Inr k" "normalizeDKGMaterial inp = Inr m"
    using assms by (auto simp: dkgPrepare_def Let_def split: sum.splits)
  with assms have e: "keyID = k" "material = m"
    by (auto simp: dkgPrepare_def Let_def split: if_splits prod.splits option.splits)
  show "normalizeDKGMaterial inp = Inr material" by (simp add: k e)
  show "keyID = TrimSpace (di_KeyID inp) \<and> keyID \<noteq> []" if "IsECDSA (di_Algorithm inp)"
    using k(1) that NormalizeKeyID_Inr by (auto simp: resolveDKGOutputKeyID_def e)
  show "dj_SessionID job = di_SessionID inp" "dj_LocalPartyID job = di_LocalPartyID inp"
    using assms k by (auto simp: dkgPrepare_def Let_def split: if_splits prod.splits option.splits
        dest: AttachPreParams_keeps)
qed

text \<open>The ways in which the body of the handler ends.\<close>

lemma dkgBody_cases:
  assumes "dkgBody lib t occ inp pre has (s, w) = Some ((s', w'), r)"
  obtains (refused) e where "dkgPrepare s inp pre has w = (w', Inl e)" "s' = s" "r = Inl e"
  | (failed) keyID material job e where "dkgPrepare s inp pre has w = (w', Inr (keyID, material, job))"
      "RunDKG (lb_machine lib) t occ job (sv_runner s) = Some (sv_runner s', Some e)"
      "s' = s\<lparr>sv_runner := sv_runner s'\<rparr>" "r = Inl e"
  | (ran) keyID material job runner w1 where "dkgPrepare s inp pre has w = (w1, Inr (keyID, material, job))"
      "RunDKG (lb_machine lib) t occ job (sv_runner s) = Some (runner, None)"
      "dkgFinish lib (sv_shareWriter s) inp keyID material (runner, w1) = ((sv_runner s', w'), r)"
      "s' = s\<lparr>sv_runner := sv_runner s'\<rparr>"
  using assms unfolding dkgBody_def
  by (auto split: prod.splits sum.splits option.splits)

lemma DeleteTemporary_keeps [simp]:
  "rn_ecdsaSigs (DeleteTemporaryECDSADKGShare key r) = rn_ecdsaSigs r"
  by (simp add: DeleteTemporaryECDSADKGShare_def)

lemma persist_result:
  assumes "persistECDSAShareAfterDKG g wr key keyID fp share material (r, w) = ((r', w'), err)"
  shows "rn_ecdsaSigs r' = rn_ecdsaSigs r
    \<and> (\<forall>k. k \<noteq> key \<longrightarrow> rn_temporaryECDSADKGShares r' k = rn_temporaryECDSADKGShares r k)"
    and "err = None \<Longrightarrow> \<exists>save blob. wr = Some save
      \<and> MarshalKeyMaterial g \<lparr>km_Share = share, km_ChainCode = nm_ChainCode material,
           km_PublicKeyFormat = PublicKeyFormatUncompressedHex, km_DerivationScheme = nm_Scheme material\<rparr> = Inr blob
      \<and> save w \<lparr>si_SessionID = fst key, si_KeyID = keyID, si_LocalPartyID = snd key,
           si_OpaqueDescriptorFingerprint = fp, si_CodecBlob = blob\<rparr> = (w', None)
      \<and> r' = DeleteTemporaryECDSADKGShare key r"
  using assms
  by (auto simp: persistECDSAShareAfterDKG_def PersistKeyMaterialAfterDKG_def temporary_shares.get_del_other
      split: option.splits prod.splits sum.splits)


lemma dkgFinish_frame:
  assumes "dkgFinish lib wr inp keyID material (r, w) = ((r', w'), res)"
  shows "rn_ecdsaSigs r' = rn_ecdsaSigs r
    \<and> (\<forall>k. k \<noteq> runKeyOf inp \<longrightarrow> rn_temporaryECDSADKGShares r' k = rn_temporaryECDSADKGShares r k)"
  using assms persist_result(1) unfolding dkgFinish_def
  by (fastforce split: if_splits sum.splits prod.splits option.splits)

lemma dkgFinish_output:
  assumes "dkgFinish lib wr inp keyID material (r, w) = ((r', w'), Inr out)" "IsECDSA (di_Algorithm inp)"
  obtains share save blob where "ExportTemporaryECDSADKGShare (runKeyOf inp) r = Inr share"
    "EncodeECPointUncompressedSecp256k1 (lb_curve lib) (sp_ECDSAPub share) = Inr (do_PublicKey out)"
    "out = \<lparr>do_KeyID = keyID, do_PublicKey = do_PublicKey out, do_ChainCode = nm_ChainCodeHex material,
       do_PublicKeyFormat = PublicKeyFormatUncompressedHex, do_DerivationScheme = DerivationSchemeBIP32Secp256k1\<rparr>"
    "wr = Some save"
    "MarshalKeyMaterial (lb_gob lib) \<lparr>km_Share = share, km_ChainCode = nm_ChainCode material,
       km_PublicKeyFormat = PublicKeyFormatUncompressedHex, km_DerivationScheme = nm_Scheme material\<rparr> = Inr blob"
    "save w \<lparr>si_SessionID = di_SessionID inp, si_KeyID = keyID, si_LocalPartyID = di_LocalPartyID inp,
       si_OpaqueDescriptorFingerprint = di_OpaqueDescriptorFingerprint inp, si_CodecBlob = blob\<rparr> = (w', None)"
    "r' = DeleteTemporaryECDSADKGShare (runKeyOf inp) r"
proof -
  obtain share where e: "ExportTemporaryECDSADKGShare (runKeyOf inp) r = Inr share"
      "EncodeECPointUncompressedSecp256k1 (lb_curve lib) (sp_ECDSAPub share) = Inr (do_PublicKey out)"
      "out = \<lparr>do_KeyID = keyID, do_PublicKey = do_PublicKey out, do_ChainCode = nm_ChainCodeHex material,
         do_PublicKeyFormat = PublicKeyFormatUncompressedHex, do_DerivationScheme = DerivationSchemeBIP32Secp256k1\<rparr>"
      and p: "persistECDSAShareAfterDKG (lb_gob lib) wr (runKeyOf inp) keyID (di_OpaqueDescriptorFingerprint inp)
         share material (r, w) = ((r', w'), None)"
    using assms by (auto simp: dkgFinish_def buildECDSADKGOutput_def Let_def
        split: if_splits sum.splits option.splits prod.splits)
  from persist_result(2) [OF p refl] e that show thesis by auto
qed

lemma runDKGSession_cases:
  assumes "runDKGSession lib t occ inp pre has (s, w) = Some ((s', w'), r)"
  obtains (refused) e where "s' = s" "w' = w" "r = Inl e"
  | (body) s1 s2 where "runKeyOf inp \<notin> sv_activeDKGRuns s"
      "s1 = s\<lparr>sv_activeDKGRuns := insert (runKeyOf inp) (sv_activeDKGRuns s)\<rparr>"
      "dkgBody lib t occ inp pre has (s1, w) = Some ((s2, w'), r)" "s' = endDKGRun (runKeyOf inp) s2"
  using assms unfolding runDKGSession_def
  by (auto simp: beginDKGRun_def Let_def split: if_splits option.splits prod.splits bool.splits)

lemma runner_update_keeps:
  "s' = s\<lparr>sv_runner := r\<rparr> \<Longrightarrow> sv_activeDKGRuns s' = sv_activeDKGRuns s \<and> sv_shareWriter s' = sv_shareWriter s"
  by simp

lemma dkgBody_active:
  "dkgBody lib t occ inp pre has (s, w) = Some ((s', w'), r) \<Longrightarrow> sv_activeDKGRuns s' = sv_activeDKGRuns s"
  by (erule dkgBody_cases) (simp, (drule runner_update_keeps, simp)+)


lemma RunDKG_only_key:
  assumes "RunDKG mc t occ job r = Some (r', err)" "dj_SessionID job \<noteq> []" "dj_LocalPartyID job \<noteq> []"
  shows "rn_ecdsaSigs r' = rn_ecdsaSigs r"
    "k \<noteq> (dj_SessionID job, dj_LocalPartyID job) \<Longrightarrow>
     rn_temporaryECDSADKGShares r' k = rn_temporaryECDSADKGShares r k"
  using RunDKG_effect [OF assms] by (cases k; cases err; simp; metis)+

lemma RunDKG_export:
  assumes "RunDKG mc t occ job r = Some (r', None)" "dj_SessionID job = fst key" "dj_LocalPartyID job = snd key"
    and "fst key \<noteq> []" "snd key \<noteq> []" and "ExportTemporaryECDSADKGShare key r' = Inr share"
    and "rn_temporaryECDSADKGShares r key = None
       \<or> (\<forall>result. OccEvent (eventProtocolDone result) None None \<in> set occ \<longrightarrow> pr_ecdsaKeyShare result \<noteq> None)"
  shows "\<exists>result. OccEvent (eventProtocolDone result) None None \<in> set occ \<and> pr_ecdsaKeyShare result = Some share"
proof -
  obtain result where "OccEvent (eventProtocolDone result) None None \<in> set occ"
      "rn_temporaryECDSADKGShares r' key
       = (if pr_ecdsaKeyShare result \<noteq> None then pr_ecdsaKeyShare result else rn_temporaryECDSADKGShares r key)"
    using RunDKG_effect [OF assms(1)] assms(2-5) by (cases key) auto
  with assms(6,7) show ?thesis
    by (auto simp: ExportTemporaryECDSADKGShare_def split: option.splits if_splits)
qed

text \<open>What is done with the share that a protocol run produced, when the session then succeeds.\<close>

lemma dkgFinish_result:
  assumes "dkgPrepare s1 inp pre has w0 = (w1, Inr (keyID, material, job))" "RunDKG (lb_machine lib) t occ job (sv_runner s1) = Some (runner, None)"
    and "dkgFinish lib (sv_shareWriter s1) inp keyID material (runner, w1) = ((r2, w'), Inr out)"
    and "wf_gob (lb_gob lib)" "IsECDSA (di_Algorithm inp)" "di_SessionID inp \<noteq> []" "di_LocalPartyID inp \<noteq> []"
    and "rn_temporaryECDSADKGShares (sv_runner s1) (runKeyOf inp) = None
       \<or> (\<forall>result. OccEvent (eventProtocolDone result) None None \<in> set occ \<longrightarrow> pr_ecdsaKeyShare result \<noteq> None)"
  shows "\<exists>result share save blob.
      OccEvent (eventProtocolDone result) None None \<in> set occ \<and> pr_ecdsaKeyShare result = Some share
    \<and> EncodeECPointUncompressedSecp256k1 (lb_curve lib) (sp_ECDSAPub share) = Inr (do_PublicKey out)
    \<and> out = \<lparr>do_KeyID = TrimSpace (di_KeyID inp), do_PublicKey = do_PublicKey out,
             do_ChainCode = dd_ChainCode (di_DerivationMaterial inp),
             do_PublicKeyFormat = ''uncompressed_hex'', do_DerivationScheme = ''bip32_secp256k1''\<rparr>
    \<and> do_KeyID out \<noteq> [] \<and> sv_shareWriter s1 = Some save
    \<and> save w1 \<lparr>si_SessionID = di_SessionID inp, si_KeyID = do_KeyID out, si_LocalPartyID = di_LocalPartyID inp,
           si_OpaqueDescriptorFingerprint = di_OpaqueDescriptorFingerprint inp, si_CodecBlob = blob\<rparr> = (w', None)
    \<and> UnmarshalKeyMaterial (lb_gob lib) blob
        = Inr \<lparr>km_Share = share, km_ChainCode = nm_ChainCode material, km_PublicKeyFormat = ''uncompressed_hex'',
               km_DerivationScheme = ''bip32_secp256k1''\<rparr>
    \<and> rn_temporaryECDSADKGShares r2 (runKeyOf inp) = None"
proof -
  note p = dkgPrepare_Inr [OF assms(1)] and m = normalizeDKGMaterial_Inr [OF dkgPrepare_Inr(3) [OF assms(1)] assms(5)]
  obtain share save blob where f: "ExportTemporaryECDSADKGShare (runKeyOf inp) runner = Inr share"
    "EncodeECPointUncompressedSecp256k1 (lb_curve lib) (sp_ECDSAPub share) = Inr (do_PublicKey out)"
    "out = \<lparr>do_KeyID = keyID, do_PublicKey = do_PublicKey out, do_ChainCode = nm_ChainCodeHex material,
       do_PublicKeyFormat = ''uncompressed_hex'', do_DerivationScheme = ''bip32_secp256k1''\<rparr>"
    "sv_shareWriter s1 = Some save"
    "MarshalKeyMaterial (lb_gob lib) \<lparr>km_Share = share, km_ChainCode = nm_ChainCode material,
       km_PublicKeyFormat = ''uncompressed_hex'', km_DerivationScheme = nm_Scheme material\<rparr> = Inr blob"
    "save w1 \<lparr>si_SessionID = di_SessionID inp, si_KeyID = keyID, si_LocalPartyID = di_LocalPartyID inp,
       si_OpaqueDescriptorFingerprint = di_OpaqueDescriptorFingerprint inp, si_CodecBlob = blob\<rparr> = (w', None)"
    "r2 = DeleteTemporaryECDSADKGShare (runKeyOf inp) runner"
    using dkgFinish_output [OF assms(3,5)] by blast
  have "\<exists>result. OccEvent (eventProtocolDone result) None None \<in> set occ \<and> pr_ecdsaKeyShare result = Some share"
    using RunDKG_export [OF assms(2) _ _ _ _ f(1)] p(1,2) assms(6-8) by simp
  moreover have "rn_temporaryECDSADKGShares r2 (runKeyOf inp) = None"
    using assms(6,7) by (simp add: f(7) temporary_shares.get_del)
  moreover have "do_KeyID out = keyID" "do_ChainCode out = nm_ChainCodeHex material" by (subst f(3), simp)+
  ultimately show ?thesis using f Unmarshal_Marshal [OF assms(4) f(5)] p(4) [OF assms(5)] m by metis
qed



section \<open>Concurrent key generations\<close>

text \<open>
  Where one goroutine is in \<^verbatim>\<open>runDKGSession\<close>.  \<open>Ran\<close> and \<open>Exported\<close> remember what the protocol run met and
  what the export returned.
\<close>

datatype phase =
    Idle
  | Running
  | Ran "occurrence list"
  | Exported "occurrence list" "LocalPartySaveData result"
  | Leaving
  | Finished

text \<open>
  One step of goroutine \<open>i\<close>, which serves the request \<open>req i\<close>.  The steps are the points at which the
  handler touches the service's set of runs or the runner's map; what it does between them concerns
  only its own request.  Of the runner \<^verbatim>\<open>RunDKG\<close> reads the configuration alone and writes once, at its
  end, so it is one step.
\<close>

inductive dkg_step ::
  "(nat \<Rightarrow> DKGInput) \<Rightarrow> ('t, 'p, 'm, 'pre) machine \<Rightarrow> ('w, 'pre) Service \<times> (nat \<Rightarrow> phase) \<Rightarrow> nat
   \<Rightarrow> ('w, 'pre) Service \<times> (nat \<Rightarrow> phase) \<Rightarrow> bool" for req mc where
  dkg_begin: "ph i = Idle \<Longrightarrow> beginDKGRun (runKeyOf (req i)) s = (s', ok) \<Longrightarrow>
    dkg_step req mc (s, ph) i (s', ph(i := if ok then Running else Finished))"
| dkg_refused: "ph i = Running \<Longrightarrow> dkg_step req mc (s, ph) i (s, ph(i := Leaving))"
| dkg_protocol: "ph i = Running \<Longrightarrow> dj_SessionID job = di_SessionID (req i) \<Longrightarrow>
    dj_LocalPartyID job = di_LocalPartyID (req i) \<Longrightarrow> RunDKG mc t occ job (sv_runner s) = Some (r', err) \<Longrightarrow>
    dkg_step req mc (s, ph) i (s\<lparr>sv_runner := r'\<rparr>, ph(i := if err = None then Ran occ else Leaving))"
| dkg_export: "ph i = Ran occ \<Longrightarrow>
    dkg_step req mc (s, ph) i
      (s, ph(i := Exported occ (ExportTemporaryECDSADKGShare (runKeyOf (req i)) (sv_runner s))))"
| dkg_persisted: "ph i = Exported occ (Inr share) \<Longrightarrow>
    dkg_step req mc (s, ph) i
      (s\<lparr>sv_runner := DeleteTemporaryECDSADKGShare (runKeyOf (req i)) (sv_runner s)\<rparr>, ph(i := Leaving))"
| dkg_unpersisted: "ph i = Exported occ res \<Longrightarrow> dkg_step req mc (s, ph) i (s, ph(i := Leaving))"
| dkg_end: "ph i = Leaving \<Longrightarrow>
    dkg_step req mc (s, ph) i (endDKGRun (runKeyOf (req i)) s, ph(i := Finished))"

inductive_cases dkg_stepE: "dkg_step req mc (s, ph) i (s', ph')"

text \<open>The goroutines between \<^verbatim>\<open>beginDKGRun\<close> and \<^verbatim>\<open>endDKGRun\<close>.\<close>

definition live :: "phase \<Rightarrow> bool" where
  "live p \<longleftrightarrow> p \<noteq> Idle \<and> p \<noteq> Finished"

text \<open>The protocol run produced this share.\<close>

definition produced :: "occurrence list \<Rightarrow> LocalPartySaveData \<Rightarrow> bool" where
  "produced occ share \<longleftrightarrow>
     (\<exists>result. OccEvent (eventProtocolDone result) None None \<in> set occ \<and> pr_ecdsaKeyShare result = Some share)"

definition shareless :: "occurrence list \<Rightarrow> bool" where
  "shareless occ \<longleftrightarrow>
     (\<exists>result. OccEvent (eventProtocolDone result) None None \<in> set occ \<and> pr_ecdsaKeyShare result = None)"

definition own_share :: "DKGRunKey \<Rightarrow> BnbRunner \<Rightarrow> phase \<Rightarrow> bool" where
  "own_share key r p =
     (case p of
        Ran occ \<Rightarrow> shareless occ \<or> (\<exists>share. rn_temporaryECDSADKGShares r key = Some share \<and> produced occ share)
      | Exported occ res \<Rightarrow> shareless occ \<or> (\<exists>share. res = Inr share \<and> produced occ share)
      | _ \<Rightarrow> True)"

definition dkg_inv :: "(nat \<Rightarrow> DKGInput) \<Rightarrow> ('w, 'pre) Service \<times> (nat \<Rightarrow> phase) \<Rightarrow> bool" where
  "dkg_inv req st =
     (case st of (s, ph) \<Rightarrow>
        sv_activeDKGRuns s = {runKeyOf (req i) | i. live (ph i)}
        \<and> (\<forall>i j. live (ph i) \<longrightarrow> live (ph j) \<longrightarrow> runKeyOf (req i) = runKeyOf (req j) \<longrightarrow> i = j)
        \<and> (\<forall>i. own_share (runKeyOf (req i)) (sv_runner s) (ph i)))"

lemma live_simps [simp]:
  "\<not> live Idle" "live Running" "live (Ran occ)" "live (Exported occ r)" "live Leaving" "\<not> live Finished"
  by (simp_all add: live_def)

lemma own_share_simps [simp]:
  "own_share key r Idle" "own_share key r Running" "own_share key r Leaving" "own_share key r Finished"
  by (simp_all add: own_share_def)

lemma own_share_cong:
  "own_share key r p \<Longrightarrow> (live p \<Longrightarrow> rn_temporaryECDSADKGShares r' key = rn_temporaryECDSADKGShares r key) \<Longrightarrow>
   own_share key r' p"
  by (cases p) (auto simp: own_share_def)

lemma dkg_invD:
  assumes "dkg_inv req (s, ph)"
  shows "live (ph i) \<Longrightarrow> runKeyOf (req i) \<in> sv_activeDKGRuns s"
    "live (ph i) \<Longrightarrow> live (ph j) \<Longrightarrow> i \<noteq> j \<Longrightarrow> runKeyOf (req i) \<noteq> runKeyOf (req j)"
    "own_share (runKeyOf (req i)) (sv_runner s) (ph i)"
    "sv_activeDKGRuns s = {runKeyOf (req i) | i. live (ph i)}"
  using assms unfolding dkg_inv_def prod.case by blast+

lemma dkg_invI:
  assumes "sv_activeDKGRuns s = {runKeyOf (req i) | i. live (ph i)}"
    "\<And>i j. live (ph i) \<Longrightarrow> live (ph j) \<Longrightarrow> i \<noteq> j \<Longrightarrow> runKeyOf (req i) \<noteq> runKeyOf (req j)"
    "\<And>i. own_share (runKeyOf (req i)) (sv_runner s) (ph i)"
  shows "dkg_inv req (s, ph)"
  using assms unfolding dkg_inv_def prod.case by blast

text \<open>A step of goroutine \<open>i\<close> that only changes its own key's share keeps the invariant.\<close>

lemma dkg_inv_local:
  assumes "dkg_inv req (s, ph)" "live (ph i)" "sv_activeDKGRuns s' = sv_activeDKGRuns s"
    and "\<And>k. k \<noteq> runKeyOf (req i) \<Longrightarrow>
      rn_temporaryECDSADKGShares (sv_runner s') k = rn_temporaryECDSADKGShares (sv_runner s) k"
    and "own_share (runKeyOf (req i)) (sv_runner s') p" and "live p"
  shows "dkg_inv req (s', ph(i := p))"
proof -
  note inv = dkg_invD [OF assms(1)]
  have o: "own_share (runKeyOf (req j)) (sv_runner s') (ph j)" if "j \<noteq> i" for j
    using assms(4) [OF inv(2) [OF _ assms(2) that]] by (rule own_share_cong [OF inv(3)])
  have l: "live (if j = i then p else ph j) \<Longrightarrow> live (ph j)" for j using assms(2) by (cases "j = i") auto
  show ?thesis
  proof (rule dkg_invI, unfold fun_upd_apply)
    have "live (if j = i then p else ph j) \<longleftrightarrow> live (ph j)" for j using assms(2,6) by simp
    then show "sv_activeDKGRuns s' = {runKeyOf (req j) | j. live (if j = i then p else ph j)}"
      using inv(4) assms(3) by simp
    show "runKeyOf (req j) \<noteq> runKeyOf (req k)"
      if "live (if j = i then p else ph j)" "live (if k = i then p else ph k)" "j \<noteq> k" for j k
      by (rule inv(2) [OF l [OF that(1)] l [OF that(2)] that(3)])
    show "own_share (runKeyOf (req j)) (sv_runner s') (if j = i then p else ph j)" for j
      using assms(5) o by (cases "j = i") simp_all
  qed
qed

lemma dkg_inv_begin:
  assumes "dkg_inv req (s, ph)" "runKeyOf (req i) \<notin> sv_activeDKGRuns s"
  shows "dkg_inv req (s\<lparr>sv_activeDKGRuns := insert (runKeyOf (req i)) (sv_activeDKGRuns s)\<rparr>, ph(i := Running))"
proof -
  note inv = dkg_invD [OF assms(1)]
  have n: "runKeyOf (req j) \<noteq> runKeyOf (req i)" if "live (ph j)" for j using inv(1) [OF that] assms(2) by metis
  show ?thesis
  proof (rule dkg_invI)
    show "runKeyOf (req j) \<noteq> runKeyOf (req k)"
      if "live ((ph(i := Running)) j)" "live ((ph(i := Running)) k)" "j \<noteq> k" for j k
      using that inv(2) [of j k] n [of j] n [of k] by (cases "j = i"; cases "k = i") (simp_all, metis+)
    have "live ((ph(i := Running)) j) \<longleftrightarrow> j = i \<or> live (ph j)" for j by simp
    then show "sv_activeDKGRuns (s\<lparr>sv_activeDKGRuns := insert (runKeyOf (req i)) (sv_activeDKGRuns s)\<rparr>)
        = {runKeyOf (req j) | j. live ((ph(i := Running)) j)}"
      unfolding inv(4) by (auto simp del: prod.inject)
  qed (use inv(3) in simp)
qed

lemma dkg_inv_done:
  assumes "dkg_inv req (s, ph)" "ph i = Idle"
  shows "dkg_inv req (s, ph(i := Finished))"
proof -
  have "live ((ph(i := Finished)) j) \<longleftrightarrow> live (ph j)" for j using assms(2) by simp
  then show ?thesis using dkg_invD [OF assms(1)] by (intro dkg_invI) simp_all
qed

lemma image_minus_one:
  "(\<And>j. j \<noteq> i \<Longrightarrow> P j \<Longrightarrow> f j \<noteq> f i) \<Longrightarrow> {f j | j. P j} - {f i} = {f j | j. j \<noteq> i \<and> P j}"
proof -
  assume d: "\<And>j. j \<noteq> i \<Longrightarrow> P j \<Longrightarrow> f j \<noteq> f i"
  have "x \<in> {f j | j. P j} \<and> x \<noteq> f i \<longleftrightarrow> x \<in> {f j | j. j \<noteq> i \<and> P j}" for x using d by auto
  then show ?thesis by auto
qed

lemma live_upd: "live ((ph(i := Finished)) j) \<longleftrightarrow> j \<noteq> i \<and> live (ph j)"
  by simp

lemma dkg_inv_end:
  assumes "dkg_inv req (s, ph)" "ph i = Leaving"
  shows "dkg_inv req (endDKGRun (runKeyOf (req i)) s, ph(i := Finished))"
proof -
  note inv = dkg_invD [OF assms(1)]
  show ?thesis
  proof (rule dkg_invI)
    have "runKeyOf (req j) \<noteq> runKeyOf (req i)" if "j \<noteq> i" "live (ph j)" for j
      using inv(2) [of j i] assms(2) that by simp
    from image_minus_one [of i "\<lambda>j. live (ph j)" "\<lambda>j. runKeyOf (req j)", OF this]
    show "sv_activeDKGRuns (endDKGRun (runKeyOf (req i)) s) = {runKeyOf (req j) | j. live ((ph(i := Finished)) j)}"
      by (simp add: endDKGRun_def inv(4) live_upd del: fun_upd_apply)
    show "runKeyOf (req j) \<noteq> runKeyOf (req k)"
      if "live ((ph(i := Finished)) j)" "live ((ph(i := Finished)) k)" "j \<noteq> k" for j k
      using that inv(2) [of j k] by (auto split: if_splits)
    show "own_share (runKeyOf (req j)) (sv_runner (endDKGRun (runKeyOf (req i)) s)) ((ph(i := Finished)) j)" for j
      using inv(3) [of j] by (simp add: endDKGRun_def)
  qed
qed


definition named_requests :: "(nat \<Rightarrow> DKGInput) \<Rightarrow> bool" where
  "named_requests req \<longleftrightarrow> (\<forall>i. di_SessionID (req i) \<noteq> [] \<and> di_LocalPartyID (req i) \<noteq> [])"

lemma own_share_ran:
  assumes "RunDKG mc t occ job r = Some (r', None)" "dj_SessionID job = fst key" "dj_LocalPartyID job = snd key"
    "fst key \<noteq> []" "snd key \<noteq> []"
  shows "own_share key r' (Ran occ)"
proof -
  obtain result where "OccEvent (eventProtocolDone result) None None \<in> set occ"
      "pr_ecdsaKeyShare result \<noteq> None \<Longrightarrow> rn_temporaryECDSADKGShares r' key = pr_ecdsaKeyShare result"
    using RunDKG_effect [OF assms(1)] assms(2-5) by (cases key) auto
  then show ?thesis
    by (cases "pr_ecdsaKeyShare result") (auto simp: own_share_def shareless_def produced_def)
qed

lemma dkg_inv_step:
  assumes "dkg_step req mc st i st'" "dkg_inv req st" "named_requests req"
  shows "dkg_inv req st'"
  using assms
proof (cases rule: dkg_step.cases)
  case (dkg_begin ph s s' ok)
  then show ?thesis
    using dkg_inv_begin [of req s ph i] assms(2) dkg_inv_done by (auto simp: beginDKGRun_def split: if_splits)
next
  case (dkg_refused ph s)
  then show ?thesis using assms(2) by (auto intro!: dkg_inv_local [where s = s])
next
  case (dkg_protocol ph job t occ s r' err)
  have "dj_SessionID job \<noteq> []" "dj_LocalPartyID job \<noteq> []"
    using assms(3) dkg_protocol by (simp_all add: named_requests_def)
  note n = this
  have "rn_temporaryECDSADKGShares r' k = rn_temporaryECDSADKGShares (sv_runner s) k" if "k \<noteq> runKeyOf (req i)" for k
    using RunDKG_only_key(2) [OF dkg_protocol(6) n, of k] that dkg_protocol by simp
  moreover have "own_share (runKeyOf (req i)) r' (if err = None then Ran occ else Leaving)"
    using own_share_ran [of mc t occ job "sv_runner s" r' "runKeyOf (req i)"] dkg_protocol n by simp
  ultimately show ?thesis
    unfolding dkg_protocol(2) using assms(2) dkg_protocol by (intro dkg_inv_local [where s = s]) simp_all
next
  case (dkg_export ph occ s)
  have "own_share (runKeyOf (req i)) (sv_runner s) (Ran occ)" using dkg_invD(3) assms(2) dkg_export by metis
  then have "own_share (runKeyOf (req i)) (sv_runner s)
      (Exported occ (ExportTemporaryECDSADKGShare (runKeyOf (req i)) (sv_runner s)))"
    by (auto simp: own_share_def ExportTemporaryECDSADKGShare_def)
  then show ?thesis using assms(2) dkg_export by (auto intro!: dkg_inv_local [where s = s])
next
  case (dkg_persisted ph occ share s)
  then show ?thesis
    unfolding dkg_persisted(2) using assms(2) temporary_shares.get_del_other
    by (intro dkg_inv_local [where s = s]) simp_all
next
  case (dkg_unpersisted ph occ res s)
  then show ?thesis using assms(2) by (auto intro!: dkg_inv_local [where s = s])
next
  case (dkg_end ph s)
  then show ?thesis using dkg_inv_end assms(2) by blast
qed


interpretation dkg_runs: invariant_system
  "\<lambda>(s, ph). sv_activeDKGRuns s = {} \<and> (\<forall>i. ph i = Idle)" "dkg_step req mc"
  "\<lambda>st. named_requests req \<longrightarrow> dkg_inv req st" for req mc
proof
  show "named_requests req \<longrightarrow> dkg_inv req st" if "case st of (s, ph) \<Rightarrow> sv_activeDKGRuns s = {} \<and> (\<forall>i. ph i = Idle)" for st
    using that by (cases st) (auto simp: dkg_inv_def)
  show "named_requests req \<longrightarrow> dkg_inv req t" if "named_requests req \<longrightarrow> dkg_inv req st" "dkg_step req mc st l t" for st l t
    using that dkg_inv_step by blast
qed

text \<open>
  C4.  Concurrent key generations do not mix.  However the goroutines of any number of requests
  interleave, at most one of them is at work for a session and party at a time, the set of active
  runs is exactly the set of those at work, so that a request is refused as a duplicate exactly when
  another one with its session and party has begun and not ended; and a share that a run exports is
  one that its own protocol produced, never another run's (a protocol that ends without a share
  excepted).
\<close>

theorem dkg_runs_isolated:
  assumes "executes (dkg_step req mc) (s0, ph0) ls (s, ph)" "sv_activeDKGRuns s0 = {}" "\<forall>i. ph0 i = Idle"
    and "\<forall>i. di_SessionID (req i) \<noteq> [] \<and> di_LocalPartyID (req i) \<noteq> []"
  shows "(live (ph i) \<and> live (ph j) \<and> runKeyOf (req i) = runKeyOf (req j) \<longrightarrow> i = j)
    \<and> (snd (beginDKGRun key s) \<longleftrightarrow> \<not> (\<exists>j. live (ph j) \<and> runKeyOf (req j) = key))
    \<and> (\<forall>occ res. ph i = Exported occ res \<and> \<not> shareless occ \<longrightarrow> (\<exists>share. res = Inr share \<and> produced occ share))"
proof -
  have "named_requests req" using assms(4) by (simp add: named_requests_def)
  then have "dkg_inv req (s, ph)"
    using dkg_runs.reachable_inv [OF _ assms(1)] assms(2,3) by auto
  note inv = dkg_invD [OF this]
  have "snd (beginDKGRun key s) \<longleftrightarrow> \<not> (\<exists>j. live (ph j) \<and> runKeyOf (req j) = key)"
    unfolding beginDKGRun_def inv(4) by auto
  moreover have "\<exists>share. res = Inr share \<and> produced occ share" if "ph i = Exported occ res" "\<not> shareless occ" for occ res
    using inv(3) [of i] that by (simp add: own_share_def)
  ultimately show ?thesis using inv(2) by blast
qed

definition sample_dkg_input :: DKGInput where
  "sample_dkg_input = \<lparr>di_SessionID = ''s'', di_LocalPartyID = ''B'', di_OrgID = ''o'', di_KeyID = ''k'',
     di_OpaqueDescriptorFingerprint = [], di_Parties = [''A'', ''B''], di_Threshold = 2, di_Curve = [],
     di_Algorithm = [], di_DerivationMaterial = \<lparr>dd_ChainCode = hex_EncodeToString (replicate 32 CHR 0x01),
       dd_DerivationScheme = ''bip32_secp256k1''\<rparr>, di_EmptyKeyErr = Some (Sentinel ErrKeyIDRequired),
     di_MissingPub = Some (Sentinel ErrMissingDKGPublicKey)\<rparr>"

abbreviation "sample_dkg_events \<equiv> [done_with (Some sample_share) None]"

lemma sample_dkg_protocol:
  "\<exists>r'. RunDKG sample_machine [] sample_dkg_events (buildDKGJob sample_dkg_input) r = Some (r', None)"
  using sample_RunDKG [of "buildDKGJob sample_dkg_input"] by (simp add: sample_dkg_input_def)

theorem dkg_runs_isolated_witness:
  "\<exists>s ph ls. executes (dkg_step (\<lambda>i. sample_dkg_input) sample_machine) (sample_service, \<lambda>i. Idle) ls (s, ph)
     \<and> ph 0 = Exported sample_dkg_events (Inr sample_share)"
proof -
  let ?req = "\<lambda>i::nat. sample_dkg_input" and ?step = "dkg_step (\<lambda>i. sample_dkg_input) sample_machine"
  let ?k = "runKeyOf sample_dkg_input"
  let ?s1 = "sample_service\<lparr>sv_activeDKGRuns := {?k}\<rparr>"
  obtain r' where r: "RunDKG sample_machine [] sample_dkg_events (buildDKGJob sample_dkg_input) (sv_runner ?s1) = Some (r', None)"
    using sample_dkg_protocol by blast
  let ?s2 = "?s1\<lparr>sv_runner := r'\<rparr>"
  let ?x = "ExportTemporaryECDSADKGShare ?k r'"
  have 1: "?step (sample_service, \<lambda>i. Idle) 0 (?s1, (\<lambda>i. Idle)(0 := Running))"
    using dkg_begin [of "\<lambda>i. Idle" 0 ?req sample_service ?s1 True] by (simp add: beginDKGRun_def sample_service_def)
  have 2: "?step (?s1, (\<lambda>i. Idle)(0 := Running)) 0 (?s2, (\<lambda>i. Idle)(0 := Ran sample_dkg_events))"
    using dkg_protocol [of "(\<lambda>i. Idle)(0 := Running)" 0 _ ?req, OF _ _ _ r] by simp
  have 3: "?step (?s2, (\<lambda>i. Idle)(0 := Ran sample_dkg_events)) 0 (?s2, (\<lambda>i. Idle)(0 := Exported sample_dkg_events ?x))"
    using dkg_export [of "(\<lambda>i. Idle)(0 := Ran sample_dkg_events)" 0 sample_dkg_events ?req sample_machine ?s2] by simp
  have e: "executes ?step (sample_service, \<lambda>i. Idle) ([0] @ [0] @ [0]) (?s2, (\<lambda>i. Idle)(0 := Exported sample_dkg_events ?x))"
    by (rule executes_trans [OF executes_trans [OF executes_one [where step = ?step, OF 3] executes_one [where step = ?step, OF 2]]
          executes_one [where step = ?step, OF 1]])
  have "\<exists>share. ?x = Inr share \<and> produced sample_dkg_events share"
    using dkg_runs_isolated [OF e, of 0]
    by (auto simp: sample_service_def sample_dkg_input_def shareless_def done_with_def)
  then have "?x = Inr sample_share" by (auto simp: produced_def done_with_def)
  with e show ?thesis by (metis fun_upd_same)
qed


text \<open>A whole key-generation session on the sample service.\<close>

abbreviation "sample_normalized \<equiv> \<lparr>nm_ChainCode = replicate 32 CHR 0x01,
  nm_ChainCodeHex = hex_EncodeToString (replicate 32 CHR 0x01), nm_Scheme = ''bip32_secp256k1''\<rparr>"

lemma sample_dkg_input_sel [simp]:
  "di_SessionID sample_dkg_input = ''s''" "di_LocalPartyID sample_dkg_input = ''B''" "di_KeyID sample_dkg_input = ''k''"
  "di_Algorithm sample_dkg_input = []"
  "di_DerivationMaterial sample_dkg_input = \<lparr>dd_ChainCode = hex_EncodeToString (replicate 32 CHR 0x01),
       dd_DerivationScheme = ''bip32_secp256k1''\<rparr>"
  by (simp_all add: sample_dkg_input_def)

lemma sample_hex: "settled (hex_EncodeToString (replicate 32 CHR 0x01))" "hex_EncodeToString (replicate 32 CHR 0x01) \<noteq> []"
proof -
  have "length (hex_EncodeToString (replicate 32 CHR 0x01)) = 64" by (simp only: hex_Encode_length length_replicate)
  then show n: "hex_EncodeToString (replicate 32 CHR 0x01) \<noteq> []" by fastforce
  show "settled (hex_EncodeToString (replicate 32 CHR 0x01))" by (rule lower_hex_settled [OF n hex_Encode_lower])
qed

lemma sample_dkg_prepare:
  "dkgPrepare (sample_service\<lparr>sv_activeDKGRuns := a\<rparr>) sample_dkg_input None False w
   = (w, Inr (''k'', sample_normalized, buildDKGJob sample_dkg_input))"
proof -
  have n: "ParseChainCodeHex (hex_EncodeToString (replicate 32 CHR 0x01)) = Inr (replicate 32 CHR 0x01)"
    unfolding ParseChainCodeHex_iff by simp
  have "TrimSpace (hex_EncodeToString (replicate 32 CHR 0x01)) \<noteq> []"
  proof
    assume t: "TrimSpace (hex_EncodeToString (replicate 32 CHR 0x01)) = []"
    have "ToLower [] = []" by code_simp
    with t sample_hex show False by (simp only: settled_def)
  qed
  then have m: "normalizeDKGMaterial sample_dkg_input = Inr sample_normalized"
    using n sample_hex(1) settled_constants(5) lower_blank
    by (simp add: normalizeDKGMaterial_def ValidateDKGMaterial_def IsECDSAAlgorithm_def settled_def)
  show ?thesis
    using m trim_k lower_blank
    by (simp add: dkgPrepare_def resolveDKGOutputKeyID_def NormalizeKeyID_def IsECDSA_def AttachPreParams_def
        ResolvePreParamsSource_def sample_service_def)
qed

lemma sample_dkg_session:
  "\<exists>s'. runDKGSession sample_libs [] sample_dkg_events sample_dkg_input None False (sample_service, [])
     = Some ((s', ''s''), Inr \<lparr>do_KeyID = ''k'', do_PublicKey = encode_xy 1 sample_y,
         do_ChainCode = hex_EncodeToString (replicate 32 CHR 0x01), do_PublicKeyFormat = ''uncompressed_hex'',
         do_DerivationScheme = ''bip32_secp256k1''\<rparr>)"
proof -
  let ?s = "sample_service\<lparr>sv_activeDKGRuns := {(''s'', ''B'')}\<rparr>"
  obtain r' where r: "RunDKG sample_machine [] sample_dkg_events (buildDKGJob sample_dkg_input) (sv_runner ?s) = Some (r', None)"
    using sample_dkg_protocol by blast
  have "ExportTemporaryECDSADKGShare (''s'', ''B'') r' = Inr sample_share"
    using RunDKG_effect [OF r] by (auto simp: done_with_def)
  moreover have "EncodeECPointUncompressedSecp256k1 secp256k1 (sp_ECDSAPub sample_share) = Inr (encode_xy 1 sample_y)"
    using Encode_point(1) [OF wf_secp256k1 sample_point] by (simp add: sample_share_def)
  ultimately have "\<exists>r''. dkgFinish sample_libs (sv_shareWriter ?s) sample_dkg_input ''k'' sample_normalized (r', [])
      = ((r'', ''s''), Inr \<lparr>do_KeyID = ''k'', do_PublicKey = encode_xy 1 sample_y,
         do_ChainCode = hex_EncodeToString (replicate 32 CHR 0x01), do_PublicKeyFormat = ''uncompressed_hex'',
         do_DerivationScheme = ''bip32_secp256k1''\<rparr>)"
    using sample_marshal lower_blank
    by (simp add: dkgFinish_def IsECDSA_def buildECDSADKGOutput_def persistECDSAShareAfterDKG_def
        PersistKeyMaterialAfterDKG_def sample_material_def) (simp add: sample_service_def PersistKeyMaterialAfterDKG_def)
  then show ?thesis
    using r sample_dkg_prepare [of "{(''s'', ''B'')}" "[]"] lower_blank
    by (auto simp: runDKGSession_def dkgBody_def beginDKGRun_def IsECDSA_def) (simp_all add: sample_service_def Let_def)
qed


end
