(* ===== verification/Path_Safety.thy ===== *)
theory Path_Safety
  imports Go_Strings "HOL-Library.Sublist"
begin

text \<open>
  Confinement of cache files to their directory (\<^verbatim>\<open>tss/utils/path_safety.go\<close>).  \<open>Clean\<close>, \<open>filepath_Join\<close>,
  \<open>filepath_Abs\<close> and \<open>filepath_Rel\<close> are the Unix versions of Go's \<^verbatim>\<open>path/filepath\<close>, lexical functions on the
  elements between slashes; the working directory, or the error of \<^verbatim>\<open>os.Getwd\<close>, is an argument.

  Shown: a path is accepted exactly when its absolute clean form lies below the base directory, and
  that form is what is returned.
\<close>

section \<open>Lexical paths\<close>

text \<open>One element is taken into the stack of those kept so far, last first.\<close>

fun clean_step :: "bool \<Rightarrow> string list \<Rightarrow> string \<Rightarrow> string list" where
  "clean_step rooted kept c =
     (if c = [] \<or> c = ''.'' then kept
      else if c = ''..'' then
        (case kept of
           k # ks \<Rightarrow> if k \<noteq> ''..'' then ks else c # kept
         | [] \<Rightarrow> if rooted then [] else [c])
      else c # kept)"

definition IsAbs :: "string \<Rightarrow> bool" where
  "IsAbs path = HasPrefix path ''/''"

definition elements :: "string \<Rightarrow> string list" where
  "elements path = rev (foldl (clean_step (IsAbs path)) [] (Split path (CHR ''/'')))"

definition of_elements :: "bool \<Rightarrow> string list \<Rightarrow> string" where
  "of_elements rooted es =
     (if rooted then ''/'' @ Join es ''/'' else if es = [] then ''.'' else Join es ''/'')"

definition Clean :: "string \<Rightarrow> string" where
  "Clean path = (if path = [] then ''.'' else of_elements (IsAbs path) (elements path))"

definition filepath_Join :: "string list \<Rightarrow> string" where
  "filepath_Join elem =
     (case dropWhile (\<lambda>e. e = []) elem of [] \<Rightarrow> [] | es \<Rightarrow> Clean (Join es ''/''))"

definition filepath_Abs :: "string result \<Rightarrow> string \<Rightarrow> string result" where
  "filepath_Abs wd path =
     (if IsAbs path then Inr (Clean path)
      else (case wd of Inl err \<Rightarrow> Inl err | Inr dir \<Rightarrow> Inr (filepath_Join [dir, path])))"

fun strip_common :: "string list \<Rightarrow> string list \<Rightarrow> string list \<times> string list" where
  "strip_common (b # bs) (t # ts) = (if b = t then strip_common bs ts else (b # bs, t # ts))"
| "strip_common bs ts = (bs, ts)"

definition filepath_Rel :: "string \<Rightarrow> string \<Rightarrow> string result" where
  "filepath_Rel basepath targpath =
     (let base = Clean basepath; targ = Clean targpath in
      if targ = base then Inr ''.''
      else if IsAbs base \<noteq> IsAbs targ then Inl (errors_New ''Rel: cannot make relative'')
      else (case strip_common (elements base) (elements targ) of
              (bs, ts) \<Rightarrow>
                if bs \<noteq> [] \<and> hd bs = ''..'' then Inl (errors_New ''Rel: cannot make relative'')
                else Inr (Join (replicate (length bs) ''..'' @ ts) ''/'')))"

section \<open>The code\<close>

definition SafePathUnderDir :: "string result \<Rightarrow> string \<Rightarrow> string \<Rightarrow> string result" where
  "SafePathUnderDir wd baseDir path =
     (if baseDir = [] then Inl (errors_New ''base directory is empty'')
      else (case filepath_Abs wd (Clean baseDir) of
              Inl err \<Rightarrow> Inl err
            | Inr absBase \<Rightarrow>
                (case filepath_Abs wd (Clean path) of
                   Inl err \<Rightarrow> Inl err
                 | Inr absPath \<Rightarrow>
                     (case filepath_Rel absBase absPath of
                        Inl err \<Rightarrow> Inl err
                      | Inr rel \<Rightarrow>
                          if rel = ''..'' \<or> HasPrefix rel ''../''
                          then Inl (errors_New ''path escapes base dir'')
                          else Inr absPath))))"

section \<open>Clean elements\<close>

declare clean_step.simps [simp del]

lemma clean_step_cases [simp]:
  "clean_step r kept [] = kept" "clean_step r kept ''.'' = kept"
  "clean_step r [] ''..'' = (if r then [] else [''..''])"
  "clean_step r (k # ks) ''..'' = (if k \<noteq> ''..'' then ks else ''..'' # k # ks)"
  "c \<noteq> [] \<Longrightarrow> c \<noteq> ''.'' \<Longrightarrow> c \<noteq> ''..'' \<Longrightarrow> clean_step r kept c = c # kept"
  by (simp_all add: clean_step.simps)

lemma clean_step_exhaust:
  obtains "c = []" | "c = ''.''" | "c = ''..''" | "c \<noteq> []" "c \<noteq> ''.''" "c \<noteq> ''..''"
  by blast

definition plain :: "string \<Rightarrow> bool" where
  "plain e \<longleftrightarrow> e \<noteq> [] \<and> e \<noteq> ''.'' \<and> e \<noteq> ''..'' \<and> CHR ''/'' \<notin> set e"

lemma clean_step_rooted_plain:
  "list_all plain kept \<Longrightarrow> CHR ''/'' \<notin> set c \<Longrightarrow> list_all plain (clean_step True kept c)"
  by (cases kept; cases c rule: clean_step_exhaust) (auto simp: plain_def)

lemma foldl_rooted_plain:
  "list_all plain kept \<Longrightarrow> (\<And>c. c \<in> set cs \<Longrightarrow> CHR ''/'' \<notin> set c) \<Longrightarrow>
   list_all plain (foldl (clean_step True) kept cs)"
proof (induction cs arbitrary: kept)
  case (Cons c cs)
  then show ?case using clean_step_rooted_plain [of kept c] by (simp)
qed simp

lemma elements_plain: "IsAbs path \<Longrightarrow> list_all plain (elements path)"
  using foldl_rooted_plain [of "[]" "Split path (CHR ''/'')"] Split_no_sep
  by (simp add: elements_def)

lemma foldl_clean_plain: "list_all plain cs \<Longrightarrow> foldl (clean_step r) kept cs = rev cs @ kept"
  by (induction cs arbitrary: kept) (auto simp: plain_def)

lemma Split_plain: "list_all plain es \<Longrightarrow> es \<noteq> [] \<Longrightarrow> Split (Join es ''/'') (CHR ''/'') = es"
  using Split_Join [of es "CHR ''/''"] by (auto simp: plain_def list_all_iff)

lemma elements_of_elements: "list_all plain es \<Longrightarrow> elements (of_elements True es) = es"
  using foldl_clean_plain [of es True "[]"] Split_plain [of es]
  by (cases "es = []") (auto simp: elements_def of_elements_def IsAbs_def HasPrefix_iff)

lemma Clean_rooted: "IsAbs path \<Longrightarrow> Clean path = of_elements True (elements path)"
  by (auto simp: Clean_def IsAbs_def HasPrefix_def)

lemma IsAbs_of_elements [simp]: "IsAbs (of_elements True es)"
  by (simp add: IsAbs_def of_elements_def HasPrefix_iff)

lemma Clean_of_elements: "list_all plain es \<Longrightarrow> Clean (of_elements True es) = of_elements True es"
  by (simp add: Clean_rooted elements_of_elements)


lemma clean_step_subset: "set (clean_step r kept c) \<subseteq> insert c (set kept)"
  by (cases kept; cases c rule: clean_step_exhaust) auto

lemma foldl_elements_subset: "set (foldl (clean_step r) kept cs) \<subseteq> set kept \<union> set cs"
proof (induction cs arbitrary: kept)
  case (Cons c cs)
  then show ?case using clean_step_subset [of r kept c] by auto
qed simp

text \<open>Cleaning a relative path first does not change where it leads.\<close>

lemma clean_step_kept:
  "list_all (\<lambda>e. e \<noteq> [] \<and> e \<noteq> ''.'') kept \<Longrightarrow> list_all (\<lambda>e. e \<noteq> [] \<and> e \<noteq> ''.'') (clean_step r kept c)"
  by (cases kept; cases c rule: clean_step_exhaust) auto

lemma foldl_kept: "list_all (\<lambda>e. e \<noteq> [] \<and> e \<noteq> ''.'') (foldl (clean_step r) [] cs)"
  by (induction cs rule: rev_induct) (simp_all add: clean_step_kept)

lemma foldl_clean_relative:
  "foldl (clean_step True) kept (rev (foldl (clean_step False) [] cs)) = foldl (clean_step True) kept cs"
proof (induction cs rule: rev_induct)
  case (snoc c cs)
  let ?r = "foldl (clean_step False) [] cs"
  show ?case
  proof (cases ?r)
    case Nil
    then show ?thesis using snoc.IH by (cases c rule: clean_step_exhaust) auto
  next
    case (Cons k ks)
    then have k: "k \<noteq> []" "k \<noteq> ''.''" using foldl_kept [of False cs] by auto
    have "foldl (clean_step True) kept cs = clean_step True (foldl (clean_step True) kept (rev ks)) k"
      using snoc.IH Cons by simp
    with k Cons show ?thesis by (cases c rule: clean_step_exhaust) (auto split: list.splits)
  qed
qed simp

lemma Split_elements_relative:
  assumes "\<not> IsAbs path"
  shows "foldl (clean_step True) kept (Split (Clean path) (CHR ''/'')) = foldl (clean_step True) kept (Split path (CHR ''/''))"
proof (cases "path = [] \<or> elements path = []")
  case True
  then have "Clean path = ''.''" using assms by (auto simp: Clean_def of_elements_def)
  moreover have "foldl (clean_step True) kept (Split path (CHR ''/'')) = kept"
    using True foldl_clean_relative [of kept "Split path (CHR ''/'')"] assms by (auto simp: elements_def)
  ultimately show ?thesis by simp
next
  case False
  have e: "elements path = rev (foldl (clean_step False) [] (Split path (CHR ''/'')))" using assms by (simp add: elements_def)
  have "CHR ''/'' \<notin> set c" if "c \<in> set (elements path)" for c
    using that foldl_elements_subset [of False "[]" "Split path (CHR ''/'')"] Split_no_sep by (auto simp: e)
  then have "Split (Clean path) (CHR ''/'') = elements path"
    using False assms Split_Join [of "elements path" "CHR ''/''"] by (simp add: Clean_def of_elements_def)
  then show ?thesis using foldl_clean_relative e by simp
qed


section \<open>Confinement\<close>

text \<open>Where a path leads, from a working directory.\<close>

definition abs_elements :: "string \<Rightarrow> string \<Rightarrow> string list" where
  "abs_elements wd path = elements (if IsAbs path then path else wd @ ''/'' @ path)"

lemma abs_elements_plain: "IsAbs wd \<Longrightarrow> list_all plain (abs_elements wd path)"
  unfolding abs_elements_def by (rule elements_plain) (auto simp: IsAbs_def HasPrefix_iff)

lemma Split_append: "Split (s @ c # t) c = Split s c @ Split t c"
proof (induction s)
  case (Cons x s)
  obtain q qs where "Split s c = q # qs" using Split_nonempty by (metis list.exhaust)
  then show ?case using Cons.IH by auto
qed simp

lemma Abs_Clean:
  assumes "IsAbs wd"
  shows "filepath_Abs (Inr wd) (Clean path) = Inr (of_elements True (abs_elements wd path))"
proof (cases "IsAbs path")
  case True
  then show ?thesis
    by (simp add: filepath_Abs_def abs_elements_def Clean_rooted elements_of_elements elements_plain)
next
  case False
  have n: "\<not> IsAbs (Clean path)"
  proof (cases "path = [] \<or> elements path = []")
    case True
    then show ?thesis using False by (auto simp: Clean_def of_elements_def IsAbs_def HasPrefix_def)
  next
    case f: False
    then obtain e es where e: "elements path = e # es" by (cases "elements path") auto
    have "e \<in> set (Split path (CHR ''/''))" "e \<noteq> []"
      using foldl_elements_subset [of False "[]" "Split path (CHR ''/'')"] foldl_kept [of False "Split path (CHR ''/'')"] e False
      by (auto simp: elements_def list_all_iff)
    then have "e \<noteq> []" "hd e \<noteq> CHR ''/''" using Split_no_sep by (metis list.set_sel(1))+
    then have "hd (Join (e # es) ''/'') \<noteq> CHR ''/''" "Join (e # es) ''/'' \<noteq> []" by (cases es; simp)+
    then show ?thesis using f False by (simp add: Clean_def of_elements_def e IsAbs_def HasPrefix_single)
  qed
  have w: "wd \<noteq> []" "IsAbs (wd @ x)" for x using assms by (auto simp: IsAbs_def HasPrefix_iff)
  have "elements (wd @ CHR ''/'' # Clean path) = elements (wd @ CHR ''/'' # path)"
    using Split_elements_relative [OF False] by (simp add: elements_def w Split_append)
  with n False w show ?thesis
    by (simp add: filepath_Abs_def filepath_Join_def abs_elements_def Clean_rooted)
qed

lemma strip_common_prefix: "fst (strip_common bs ts) = [] \<longleftrightarrow> prefix bs ts"
  by (induction bs ts rule: strip_common.induct) auto

lemma strip_common_subset:
  "set (fst (strip_common bs ts)) \<subseteq> set bs" "set (snd (strip_common bs ts)) \<subseteq> set ts"
  by (induction bs ts rule: strip_common.induct) auto

lemma strip_common_eq: "strip_common bs ts = ([], []) \<longleftrightarrow> bs = ts"
  by (induction bs ts rule: strip_common.induct) auto

lemma escapes_iff:
  assumes "list_all plain ts" "n > 0 \<or> ts \<noteq> []"
  shows "(Join (replicate n ''..'' @ ts) ''/'' = ''..'' \<or> HasPrefix (Join (replicate n ''..'' @ ts) ''/'') ''../'') \<longleftrightarrow> n > 0"
proof (cases n)
  case 0
  with assms have s: "Split (Join ts ''/'') (CHR ''/'') = ts" "ts \<noteq> []" by (simp_all add: Split_plain)
  have "Split (''../'' @ r) (CHR ''/'') = ''..'' # Split r (CHR ''/'')" for r by simp
  with s assms(1) have "\<not> HasPrefix (Join ts ''/'') ''../''" "Join ts ''/'' \<noteq> ''..''"
    by (auto simp: HasPrefix_iff plain_def)
  with 0 show ?thesis by simp
next
  case (Suc m)
  then show ?thesis by (cases "replicate m ''..'' @ ts") (auto simp: HasPrefix_iff)
qed

lemma SafePathUnderDir_eq:
  assumes "IsAbs wd" "base \<noteq> []"
  shows "SafePathUnderDir (Inr wd) base path =
    (if prefix (abs_elements wd base) (abs_elements wd path) then Inr (of_elements True (abs_elements wd path))
     else Inl (errors_New ''path escapes base dir''))"
proof -
  let ?b = "abs_elements wd base" and ?t = "abs_elements wd path"
  note pl = abs_elements_plain [OF assms(1)]
  obtain bs ts where s: "strip_common ?b ?t = (bs, ts)" by fastforce
  have p: "list_all plain bs" "list_all plain ts"
    using strip_common_subset [of ?b ?t] pl [of base] pl [of path] by (auto simp: s list_all_iff)
  have r: "filepath_Rel (of_elements True ?b) (of_elements True ?t) =
      (if ?b = ?t then Inr ''.'' else Inr (Join (replicate (length bs) ''..'' @ ts) ''/''))"
  proof -
    have "\<not> (bs \<noteq> [] \<and> hd bs = ''..'')" using p(1) by (cases bs) (auto simp: plain_def)
    moreover have "of_elements True ?t = of_elements True ?b \<longleftrightarrow> ?b = ?t" using elements_of_elements [OF pl] by metis
    ultimately show ?thesis
      by (auto simp: filepath_Rel_def Clean_of_elements [OF pl] elements_of_elements [OF pl] s)
  qed
  show ?thesis
  proof (cases "?b = ?t")
    case True
    with r have "filepath_Rel (of_elements True ?t) (of_elements True ?t) = Inr ''.''" by simp
    with True assms(2) show ?thesis by (simp add: SafePathUnderDir_def Abs_Clean [OF assms(1)] HasPrefix_def)
  next
    case False
    then have "length bs > 0 \<or> ts \<noteq> []" using strip_common_eq [of ?b ?t] s by auto
    from escapes_iff [OF p(2) this] show ?thesis
      using False assms(2) strip_common_prefix [of ?b ?t]
      by (auto simp: SafePathUnderDir_def Abs_Clean [OF assms(1)] r s)
  qed
qed


text \<open>
  C28.  A path is accepted exactly when its clean absolute form lies in the base directory or below
  it, whatever \<^verbatim>\<open>.\<close>, \<^verbatim>\<open>..\<close> and doubled slashes either argument contains; what is returned is
  that form, the base directory's elements followed by elements that are real names.
\<close>

theorem safe_path_exact:
  assumes "IsAbs wd" "base \<noteq> []"
  shows "SafePathUnderDir (Inr wd) base path = Inr p \<longleftrightarrow>
    (\<exists>below. abs_elements wd path = abs_elements wd base @ below \<and> list_all plain below
       \<and> p = ''/'' @ Join (abs_elements wd base @ below) ''/'')"
  using abs_elements_plain [OF assms(1), of path]
  by (auto simp: SafePathUnderDir_eq [OF assms] prefix_def of_elements_def)

theorem safe_path_exact_witness:
  "SafePathUnderDir (Inr ''/w'') ''c'' ''c/../c//./x.gob'' = Inr ''/w/c/x.gob''
   \<and> \<not> is_ok (SafePathUnderDir (Inr ''/w'') ''c'' ''c/../../x'')"
proof -
  have e: "abs_elements ''/w'' ''c'' = [''w'', ''c'']" "abs_elements ''/w'' ''c/../c//./x.gob'' = [''w'', ''c'', ''x.gob'']"
      "abs_elements ''/w'' ''c/../../x'' = [''x'']"
    by code_simp+
  have a: "IsAbs ''/w''" "''c'' \<noteq> []" by (simp_all add: IsAbs_def HasPrefix_iff)
  have "SafePathUnderDir (Inr ''/w'') ''c'' ''c/../c//./x.gob'' = Inr ''/w/c/x.gob''"
    unfolding safe_path_exact [OF a] e by (intro exI [of _ "[''x.gob'']"]) (simp add: plain_def)
  moreover have "SafePathUnderDir (Inr ''/w'') ''c'' ''c/../../x'' \<noteq> Inr p" for p
    unfolding safe_path_exact [OF a] e by simp
  ultimately show ?thesis by (auto simp: is_ok_iff)
qed

end
