(* ===== verification/Cache_FS.thy ===== *)
theory Cache_FS
  imports Path_Safety "HOL-Library.List_Lexorder" "HOL-Library.Char_ord"
begin

text \<open>
  The durable cache of pre-parameters (\<^verbatim>\<open>internal/preparams/fs.go\<close>).  The code reaches the disk through the
  interface \<^verbatim>\<open>cacheFS\<close>, here a record of functions on the state \<open>'f\<close> of the file system; an open file
  is known by its name, and \<open>fs_Open\<close> also yields what reading the file gives.  The locale \<open>cache_dir\<close>
  states what the code relies on: names are bound atomically and never replaced by \<^verbatim>\<open>Link\<close>, and a
  crash may undo what has not been synchronised, so that \<open>crash f p\<close> is the set of contents that \<open>p\<close> may
  have afterwards.  \<open>newOSCacheFS\<close> is the adapter of the package over the calls of the operating system,
  which are a parameter \<open>os_api\<close>; \<open>dirFS\<close> is the adapter over a directory with a schedule of faults.

  Shown: publishing never replaces a file and never exposes a partial one, and a removal that is
  reported as done survives a crash.
\<close>

unbundle bit_operations_syntax

section \<open>The interface\<close>

record 'f cacheFS =
  fs_MkdirAll :: "'f \<Rightarrow> string \<Rightarrow> u32 \<Rightarrow> 'f \<times> error option"
  fs_Stat :: "'f \<Rightarrow> string \<Rightarrow> 'f \<times> (bool \<times> u32) result"
  fs_ReadDir :: "'f \<Rightarrow> string \<Rightarrow> 'f \<times> (bool \<times> string) list result"
  fs_Open :: "'f \<Rightarrow> string \<Rightarrow> 'f \<times> bytes result"
  fs_CreateTemp :: "'f \<Rightarrow> string \<Rightarrow> string \<Rightarrow> 'f \<times> string result"
  fs_Write :: "'f \<Rightarrow> string \<Rightarrow> bytes \<Rightarrow> 'f \<times> error option"
  fs_Sync :: "'f \<Rightarrow> string \<Rightarrow> 'f \<times> error option"
  fs_Close :: "'f \<Rightarrow> string \<Rightarrow> 'f \<times> error option"
  fs_Link :: "'f \<Rightarrow> string \<Rightarrow> string \<Rightarrow> 'f \<times> error option"
  fs_Remove :: "'f \<Rightarrow> string \<Rightarrow> 'f \<times> error option"
  fs_SyncDir :: "'f \<Rightarrow> string \<Rightarrow> 'f \<times> error option"

section \<open>The code\<close>

text \<open>
  The calls of the operating system that \<^verbatim>\<open>osCacheFS\<close> makes; the last three are \<^verbatim>\<open>os.Open\<close> on a directory and
  \<^verbatim>\<open>Sync\<close> and \<^verbatim>\<open>Close\<close> on its handle, and \<open>os_file\<close> holds the methods of an open file.
\<close>

record 'f os_file =
  of_Write :: "'f \<Rightarrow> string \<Rightarrow> bytes \<Rightarrow> 'f \<times> error option"
  of_Sync :: "'f \<Rightarrow> string \<Rightarrow> 'f \<times> error option"
  of_Close :: "'f \<Rightarrow> string \<Rightarrow> 'f \<times> error option"

record 'f os_api =
  os_MkdirAll :: "'f \<Rightarrow> string \<Rightarrow> u32 \<Rightarrow> 'f \<times> error option"
  os_Stat :: "'f \<Rightarrow> string \<Rightarrow> 'f \<times> (bool \<times> u32) result"
  os_ReadDir :: "'f \<Rightarrow> string \<Rightarrow> 'f \<times> (bool \<times> string) list result"
  os_Open :: "'f \<Rightarrow> string \<Rightarrow> 'f \<times> bytes result"
  os_CreateTemp :: "'f \<Rightarrow> string \<Rightarrow> string \<Rightarrow> 'f \<times> string result"
  os_File :: "'f os_file"
  os_Link :: "'f \<Rightarrow> string \<Rightarrow> string \<Rightarrow> 'f \<times> error option"
  os_Remove :: "'f \<Rightarrow> string \<Rightarrow> 'f \<times> error option"
  os_OpenDir :: "'f \<Rightarrow> string \<Rightarrow> 'f \<times> error option"
  os_SyncHandle :: "'f \<Rightarrow> string \<Rightarrow> 'f \<times> error option"
  os_CloseHandle :: "'f \<Rightarrow> string \<Rightarrow> 'f \<times> error option"

definition SyncDir :: "'f os_api \<Rightarrow> 'f \<Rightarrow> string \<Rightarrow> 'f \<times> error option" where
  "SyncDir os f path =
     (case os_OpenDir os f path of
        (f, Some err) \<Rightarrow> (f, Some err)
      | (f, None) \<Rightarrow>
          (case os_SyncHandle os f path of
             (f, Some err) \<Rightarrow> (fst (os_CloseHandle os f path), Some err)
           | (f, None) \<Rightarrow> os_CloseHandle os f path))"

definition newOSCacheFS :: "'f os_api \<Rightarrow> 'f cacheFS" where
  "newOSCacheFS os =
     \<lparr>fs_MkdirAll = os_MkdirAll os, fs_Stat = os_Stat os, fs_ReadDir = os_ReadDir os, fs_Open = os_Open os,
      fs_CreateTemp = os_CreateTemp os, fs_Write = of_Write (os_File os), fs_Sync = of_Sync (os_File os),
      fs_Close = of_Close (os_File os), fs_Link = os_Link os, fs_Remove = os_Remove os, fs_SyncDir = SyncDir os\<rparr>"

text \<open>The modes \<^verbatim>\<open>0o700\<close> and \<^verbatim>\<open>0o077\<close> are 448 and 63.\<close>

definition ensurePrivateCacheDir :: "'f cacheFS \<Rightarrow> string \<Rightarrow> 'f \<Rightarrow> 'f \<times> error option" where
  "ensurePrivateCacheDir fs dir f =
     (case fs_MkdirAll fs f dir 448 of
        (f, Some err) \<Rightarrow> (f, Some (Wrap ''create preparams cache directory'' err))
      | (f, None) \<Rightarrow>
          (case fs_Stat fs f dir of
             (f, Inl err) \<Rightarrow> (f, Some (Wrap ''stat preparams cache directory'' err))
           | (f, Inr (isDir, perm)) \<Rightarrow>
               if \<not> isDir \<or> perm AND 63 \<noteq> 0 then (f, Some (errorf ErrCachePermissions ''mode''))
               else (f, None)))"

text \<open>The clean-up that is deferred while the temporary file exists; its errors are ignored.\<close>

definition publishCleanup :: "'f cacheFS \<Rightarrow> bool \<Rightarrow> string \<Rightarrow> 'f \<Rightarrow> 'f" where
  "publishCleanup fs closed tempPath f =
     (let f = (if closed then f else fst (fs_Close fs f tempPath))
      in if tempPath \<noteq> [] then fst (fs_Remove fs f tempPath) else f)"

text \<open>\<open>content\<close> is what the callback writes, or its error.\<close>

definition publishCacheFile :: "'f cacheFS \<Rightarrow> string \<Rightarrow> string \<Rightarrow> bytes result \<Rightarrow> 'f \<Rightarrow> 'f \<times> error option" where
  "publishCacheFile fs dir finalPath content f =
     (case fs_CreateTemp fs f dir ''.preparams-*.tmp'' of
        (f, Inl err) \<Rightarrow> (f, Some (Wrap ''create preparams cache temporary file'' err))
      | (f, Inr tempPath) \<Rightarrow>
          (case (case content of Inl err \<Rightarrow> (f, Some err) | Inr data \<Rightarrow> fs_Write fs f tempPath data) of
             (f, Some err) \<Rightarrow> (publishCleanup fs False tempPath f,
                               Some (Wrap ''write preparams cache temporary file'' err))
           | (f, None) \<Rightarrow>
               (case fs_Sync fs f tempPath of
                  (f, Some err) \<Rightarrow> (publishCleanup fs False tempPath f,
                                    Some (Wrap ''sync preparams cache temporary file'' err))
                | (f, None) \<Rightarrow>
                    (case fs_Close fs f tempPath of
                       (f, Some err) \<Rightarrow> (publishCleanup fs False tempPath f,
                                         Some (Wrap ''close preparams cache temporary file'' err))
                     | (f, None) \<Rightarrow>
                         (case fs_Link fs f tempPath finalPath of
                            (f, Some err) \<Rightarrow> (publishCleanup fs True tempPath f,
                                              Some (Wrap ''publish preparams cache file without replacement'' err))
                          | (f, None) \<Rightarrow>
                              (case fs_Remove fs f tempPath of
                                 (f, Some err) \<Rightarrow> (publishCleanup fs True tempPath f,
                                                   Some (Wrap ''remove preparams cache temporary file'' err))
                               | (f, None) \<Rightarrow>
                                   (case fs_SyncDir fs f dir of
                                      (f, Some err) \<Rightarrow>
                                        (f, Some (Wrap ''sync preparams cache directory after publication'' err))
                                    | (f, None) \<Rightarrow> (f, None))))))))"

definition validateCacheCapabilities :: "'f cacheFS \<Rightarrow> string \<Rightarrow> string \<Rightarrow> 'f \<Rightarrow> 'f \<times> error option" where
  "validateCacheCapabilities fs dir uuid f =
     (let probePath = filepath_Join [dir, ''.capability-'' @ uuid] in
      case publishCacheFile fs dir probePath (Inr ''preparams-cache-capability-v1'') f of
        (f, Some err) \<Rightarrow> (f, Some (Wrap ''validate preparams cache publication'' err))
      | (f, None) \<Rightarrow>
          (case fs_Remove fs f probePath of
             (f, Some err) \<Rightarrow> (f, Some (Wrap ''validate preparams cache unlink'' err))
           | (f, None) \<Rightarrow>
               (case fs_SyncDir fs f dir of
                  (f, Some err) \<Rightarrow> (f, Some (Wrap ''validate preparams cache unlink durability'' err))
                | (f, None) \<Rightarrow> (f, None))))"

definition durablyRemoveCacheFile :: "'f cacheFS \<Rightarrow> string \<Rightarrow> string \<Rightarrow> 'f \<Rightarrow> 'f \<times> error option" where
  "durablyRemoveCacheFile fs dir path f =
     (case fs_Remove fs f path of
        (f, Some err) \<Rightarrow> (f, Some (Wrap ''unlink preparams cache file'' err))
      | (f, None) \<Rightarrow>
          (case fs_SyncDir fs f dir of
             (f, Some err) \<Rightarrow> (f, Some (Wrap ''sync preparams cache directory after unlink'' err))
           | (f, None) \<Rightarrow> (f, None)))"

section \<open>What the code relies on\<close>

text \<open>
  \<open>vis f p\<close> is the file at \<open>p\<close> now, \<open>stable f p\<close> that its data are on disk, \<open>crash f p\<close> what may be found at
  \<open>p\<close> after a crash.
\<close>

locale cache_dir =
  fixes fs :: "'f cacheFS" and vis :: "'f \<Rightarrow> string \<Rightarrow> bytes option" and stable :: "'f \<Rightarrow> string \<Rightarrow> bool"
    and crash :: "'f \<Rightarrow> string \<Rightarrow> bytes option set"
  assumes create: "fs_CreateTemp fs f dir ''.preparams-*.tmp'' = (f', created) \<Longrightarrow>
      (case created of Inl e \<Rightarrow> vis f' = vis f \<and> stable f' = stable f \<and> crash f' = crash f
       | Inr n \<Rightarrow> vis f n = None \<and> n \<noteq> [] \<and> HasSuffix n ''.tmp'' \<and> vis f' = (vis f)(n \<mapsto> [])
           \<and> (\<forall>q. q \<noteq> n \<longrightarrow> stable f' q = stable f q \<and> crash f' q = crash f q))"
    and write_data: "fs_Write fs f n data = (f', r) \<Longrightarrow> vis f n = Some old \<Longrightarrow>
      (\<exists>c. vis f' = (vis f)(n \<mapsto> c) \<and> (r = None \<longrightarrow> c = old @ data))
      \<and> (\<forall>q. q \<noteq> n \<longrightarrow> stable f' q = stable f q \<and> crash f' q = crash f q)"
    and sync_file: "fs_Sync fs f n = (f', r) \<Longrightarrow>
      vis f' = vis f \<and> (r = None \<longrightarrow> stable f' n) \<and> (\<forall>q. q \<noteq> n \<longrightarrow> stable f' q = stable f q \<and> crash f' q = crash f q)"
    and close_file: "fs_Close fs f n = (f', r) \<Longrightarrow> vis f' = vis f \<and> stable f' = stable f \<and> crash f' = crash f"
    and link_ok: "fs_Link fs f old new = (f', None) \<Longrightarrow>
      (\<exists>c. vis f old = Some c \<and> vis f new = None \<and> vis f' = (vis f)(new \<mapsto> c)
         \<and> (stable f old \<longrightarrow> crash f' new \<subseteq> insert (Some c) (crash f new)))
      \<and> stable f' = (stable f)(new := stable f old) \<and> (\<forall>q. q \<noteq> new \<longrightarrow> crash f' q = crash f q)"
    and link_fail: "fs_Link fs f old new = (f', Some e) \<Longrightarrow> vis f' = vis f \<and> stable f' = stable f \<and> crash f' = crash f"
    and remove_ok: "fs_Remove fs f p = (f', None) \<Longrightarrow>
      vis f' = (vis f)(p := None) \<and> (\<forall>q. q \<noteq> p \<longrightarrow> stable f' q = stable f q \<and> crash f' q = crash f q)"
    and remove_fail: "fs_Remove fs f p = (f', Some e) \<Longrightarrow> vis f' = vis f \<and> stable f' = stable f \<and> crash f' = crash f"
    and syncdir_ok: "fs_SyncDir fs f dir = (f', None) \<Longrightarrow>
      vis f' = vis f \<and> stable f' = stable f
      \<and> (\<forall>q. vis f q = None \<or> stable f q \<longrightarrow> crash f' q = {vis f q})"
    and syncdir_fail: "fs_SyncDir fs f dir = (f', Some e) \<Longrightarrow>
      vis f' = vis f \<and> stable f' = stable f \<and> (\<forall>q. crash f' q \<in> {crash f q, {vis f q}})"
begin

lemma remove_frame:
  assumes "fs_Remove fs f p = (f', r)" "q \<noteq> p"
  shows "vis f' q = vis f q" "stable f' q = stable f q" "crash f' q = crash f q"
  using assms remove_ok [of f p f'] remove_fail [of f p f'] by (cases r; auto)+

lemma durable_removal:
  assumes "durablyRemoveCacheFile fs dir p f = (f', None)"
  shows "vis f' = (vis f)(p := None) \<and> crash f' p = {None}"
proof -
  obtain f1 where r: "fs_Remove fs f p = (f1, None)" "fs_SyncDir fs f1 dir = (f', None)"
    using assms by (auto simp: durablyRemoveCacheFile_def split: prod.splits option.splits)
  have "vis f1 = (vis f)(p := None)" using remove_ok [OF r(1)] by simp
  with syncdir_ok [OF r(2)] show ?thesis by auto
qed

lemma cleanup_frame:
  "q \<noteq> tmp \<Longrightarrow> vis (publishCleanup fs c tmp f) q = vis f q \<and> crash (publishCleanup fs c tmp f) q = crash f q"
  unfolding publishCleanup_def Let_def
  by (auto simp: remove_frame [OF prod.collapse [symmetric]] close_file [OF prod.collapse [symmetric]])


text \<open>How a publication ends: before the link, or with the complete file linked.\<close>

lemma publish_cases:
  assumes "publishCacheFile fs dir final content f = (f', r)" "\<not> HasSuffix final ''.tmp''"
  obtains (unlinked) tmp e where "r = Some e" "HasSuffix tmp ''.tmp''"
      "\<And>q. q \<noteq> tmp \<Longrightarrow> vis f' q = vis f q \<and> crash f' q = crash f q"
  | (linked) data tmp f5 where "content = Inr data" "vis f final = None" "vis f tmp = None" "HasSuffix tmp ''.tmp''" "tmp \<noteq> []"
      "vis f5 = (vis f)(tmp \<mapsto> data, final \<mapsto> data)" "stable f5 final"
      "\<And>q. q \<notin> {tmp, final} \<Longrightarrow> stable f5 q = stable f q \<and> crash f5 q = crash f q"
      "crash f5 final \<subseteq> insert (Some data) (crash f final)"
      "(case fs_Remove fs f5 tmp of
          (f6, Some err) \<Rightarrow> (publishCleanup fs True tmp f6, Some (Wrap ''remove preparams cache temporary file'' err))
        | (f6, None) \<Rightarrow>
            (case fs_SyncDir fs f6 dir of
               (f7, Some err) \<Rightarrow> (f7, Some (Wrap ''sync preparams cache directory after publication'' err))
             | (f7, None) \<Rightarrow> (f7, None))) = (f', r)"
proof -
  obtain f1 c where c: "fs_CreateTemp fs f dir ''.preparams-*.tmp'' = (f1, c)" by fastforce
  show thesis
  proof (cases c)
    case (Inl e)
    have "HasSuffix ''.tmp'' ''.tmp''" by (simp add: HasSuffix_iff)
    then show thesis using unlinked create [OF c] assms(1) Inl c by (auto simp: publishCacheFile_def)
  next
    case (Inr tmp)
    note c1 = create [OF c, unfolded Inr sum.case]
    have nf: "tmp \<noteq> final" using c1 assms(2) by auto
    have un: thesis if "r = Some e" "f' = publishCleanup fs b tmp g" "\<And>q. q \<noteq> tmp \<Longrightarrow> vis g q = vis f q \<and> crash g q = crash f q"
      for e b g using that c1 cleanup_frame [of _ tmp b g] by (intro unlinked [of e tmp]) simp_all
    show thesis
    proof (cases content)
      case (Inl e)
      then show thesis using un [of _ False f1] assms(1) c Inr c1 by (auto simp: publishCacheFile_def)
    next
      case (Inr data)
      obtain f2 w where w: "fs_Write fs f1 tmp data = (f2, w)" by fastforce
      obtain f3 y where y: "fs_Sync fs f2 tmp = (f3, y)" by fastforce
      obtain f4 z where z: "fs_Close fs f3 tmp = (f4, z)" by fastforce
      obtain f5 l where l: "fs_Link fs f4 tmp final = (f5, l)" by fastforce
      note run = assms(1) [unfolded publishCacheFile_def c \<open>c = Inr tmp\<close> prod.case sum.case Inr w]
      have w1: "\<exists>d. vis f2 = (vis f)(tmp \<mapsto> d) \<and> (w = None \<longrightarrow> d = data)"
          "\<And>q. q \<noteq> tmp \<Longrightarrow> stable f2 q = stable f q \<and> crash f2 q = crash f q"
        using write_data [OF w, of "[]"] c1 by auto
      have y1: "vis f3 = vis f2" "y = None \<Longrightarrow> stable f3 tmp" "\<And>q. q \<noteq> tmp \<Longrightarrow> stable f3 q = stable f q \<and> crash f3 q = crash f q"
        using sync_file [OF y] w1(2) by simp_all
      have z1: "vis f4 = vis f2" "stable f4 = stable f3" "crash f4 = crash f3" using close_file [OF z] y1(1) by simp_all
      show thesis
      proof (cases "w = None \<and> y = None \<and> z = None")
        case False
        then show thesis
          using run y z w1 y1 z1 un [of _ False f2] un [of _ False f3] un [of _ False f4] by (auto split: option.splits)
      next
        case True
        show thesis
        proof (cases l)
          case (Some e)
          then show thesis
            using run True y z l w1 y1 z1 un [of _ True f5] link_fail [of f4 tmp final f5] by auto
        next
          case None
          note k = link_ok [OF l [unfolded None]]
          have "vis f4 = (vis f)(tmp \<mapsto> data)" using w1(1) True z1 by auto
          then show thesis
            using k nf True y1 z1 run y z l None c1 \<open>content = Inr data\<close>
            by (intro linked [of data tmp f5]) auto
        qed
      qed
    qed
  qed
qed


lemma publish_ok:
  assumes "publishCacheFile fs dir final content f = (f', None)" "\<not> HasSuffix final ''.tmp''"
  shows "\<exists>data. content = Inr data \<and> vis f final = None \<and> vis f' = (vis f)(final \<mapsto> data) \<and> crash f' final = {Some data}"
  using assms
proof (cases rule: publish_cases)
  case (linked data tmp f5)
  obtain f6 where r: "fs_Remove fs f5 tmp = (f6, None)" "fs_SyncDir fs f6 dir = (f', None)"
    using linked(10) by (auto split: prod.splits option.splits)
  have "tmp \<noteq> final" using linked(4) assms(2) by auto
  with linked remove_ok [OF r(1)] have v: "vis f6 = (vis f)(final \<mapsto> data)" "stable f6 final" by auto
  with syncdir_ok [OF r(2)] have "vis f' = (vis f)(final \<mapsto> data)" "crash f' final = {Some data}" by auto
  with linked show ?thesis by blast
qed simp

text \<open>A publication that fails shows the old file, or the complete new one where there was none.\<close>

lemma publish_fail:
  assumes "publishCacheFile fs dir final content f = (f', Some e)" "\<not> HasSuffix final ''.tmp''"
  shows "(vis f' final = vis f final \<or> vis f final = None \<and> (\<exists>data. content = Inr data \<and> vis f' final = Some data))
    \<and> crash f' final \<subseteq> crash f final \<union> {Some data | data. content = Inr data}
    \<and> (\<forall>q. q \<noteq> final \<longrightarrow> \<not> HasSuffix q ''.tmp'' \<longrightarrow> vis f' q = vis f q \<and> crash f' q \<in> {crash f q, {vis f q}})"
  using assms
proof (cases rule: publish_cases)
  case (unlinked tmp e')
  moreover have "final \<noteq> tmp" "\<And>q. \<not> HasSuffix q ''.tmp'' \<Longrightarrow> q \<noteq> tmp" using unlinked(2) assms(2) by auto
  ultimately show ?thesis by auto
next
  case (linked data tmp f5)
  have n: "final \<noteq> tmp" "\<And>q. \<not> HasSuffix q ''.tmp'' \<Longrightarrow> q \<noteq> tmp" using linked(4) assms(2) by auto
  have k: "vis f' q = vis f5 q \<and> crash f' q \<in> {crash f5 q, {vis f5 q}}" if "q \<noteq> tmp" for q
  proof -
    obtain f6 x where r: "fs_Remove fs f5 tmp = (f6, x)" by fastforce
    note m = remove_frame [OF r that]
    show ?thesis
    proof (cases x)
      case None
      then obtain e2 where y: "fs_SyncDir fs f6 dir = (f', Some e2)"
        using linked(10) r by (auto split: prod.splits option.splits)
      then have "vis f' = vis f6" "crash f' q \<in> {crash f6 q, {vis f6 q}}" using syncdir_fail by blast+
      then show ?thesis by (simp only: m simp_thms)
    next
      case (Some e2)
      then have "f' = publishCleanup fs True tmp f6" using linked(10) r by simp
      then show ?thesis using cleanup_frame [OF that] m by simp
    qed
  qed
  have "crash f' final \<subseteq> crash f final \<union> {Some data}" using k [of final] n(1) linked(6,9) by auto
  moreover have "vis f' q = vis f q \<and> crash f' q \<in> {crash f q, {vis f q}}" if "q \<noteq> final" "\<not> HasSuffix q ''.tmp''" for q
    using k [OF n(2) [OF that(2)]] linked(6) linked(8) [of q] that(1) n(2) [OF that(2)] by auto
  moreover have "vis f' final = Some data" using k [of final] n(1) linked(6) by auto
  ultimately show ?thesis using linked(1,2) by auto
qed

lemma publish_result:
  assumes "\<not> HasSuffix final ''.tmp''"
  shows "case publishCacheFile fs dir final content f of
      (f', None) \<Rightarrow> (\<exists>data. content = Inr data \<and> vis f final = None
          \<and> vis f' = (vis f)(final \<mapsto> data) \<and> crash f' final = {Some data})
    | (f', Some e) \<Rightarrow>
        (vis f' final = vis f final
           \<or> vis f final = None \<and> (\<exists>data. content = Inr data \<and> vis f' final = Some data))
        \<and> crash f' final \<subseteq> crash f final \<union> {Some data | data. content = Inr data}
        \<and> (\<forall>q. q \<noteq> final \<longrightarrow> \<not> HasSuffix q ''.tmp'' \<longrightarrow> vis f' q = vis f q \<and> crash f' q \<in> {crash f q, {vis f q}})"
  using publish_ok [OF _ assms] publish_fail [OF _ assms] by (auto split: prod.splits option.splits)

end

section \<open>A directory with faults\<close>

text \<open>
  Names with their contents and whether these are on disk, what a crash may leave, the schedule of
  faults, and the names \<^verbatim>\<open>CreateTemp\<close> will try.  A faulty write leaves part of the data.
\<close>

record dirState =
  ds_files :: "string \<Rightarrow> (bytes \<times> bool) option"
  ds_crash :: "string \<Rightarrow> bytes option set"
  ds_fault :: "nat \<Rightarrow> bool"
  ds_clock :: nat
  ds_name :: "nat \<Rightarrow> string"
  ds_isDir :: bool
  ds_perm :: u32

definition tick :: "dirState \<Rightarrow> dirState" where
  "tick f = f\<lparr>ds_clock := Suc (ds_clock f)\<rparr>"

definition faulty :: "dirState \<Rightarrow> bool" where
  "faulty f = ds_fault f (ds_clock f)"

abbreviation "io_error \<equiv> errors_New ''input/output error''"

definition dir_CreateTemp :: "dirState \<Rightarrow> string \<Rightarrow> string \<Rightarrow> dirState \<times> string result" where
  "dir_CreateTemp f dir pattern =
     (let n = dir @ ''/.preparams-'' @ ds_name f (ds_clock f) @ ''.tmp'' in
      if faulty f \<or> ds_files f n \<noteq> None then (tick f, Inl io_error)
      else ((tick f)\<lparr>ds_files := (ds_files f)(n \<mapsto> ([], False)), ds_crash := (ds_crash f)(n := UNIV)\<rparr>, Inr n))"

definition dir_Write :: "dirState \<Rightarrow> string \<Rightarrow> bytes \<Rightarrow> dirState \<times> error option" where
  "dir_Write f n data =
     (case ds_files f n of
        None \<Rightarrow> (tick f, Some io_error)
      | Some (old, _) \<Rightarrow>
          let c = (if faulty f then old @ take (length data div 2) data else old @ data) in
          ((tick f)\<lparr>ds_files := (ds_files f)(n \<mapsto> (c, False)), ds_crash := (ds_crash f)(n := UNIV)\<rparr>,
           if faulty f then Some io_error else None))"

definition dir_Sync :: "dirState \<Rightarrow> string \<Rightarrow> dirState \<times> error option" where
  "dir_Sync f n =
     (case ds_files f n of
        Some (c, _) \<Rightarrow>
          if faulty f then (tick f, Some io_error)
          else ((tick f)\<lparr>ds_files := (ds_files f)(n \<mapsto> (c, True))\<rparr>, None)
      | None \<Rightarrow> (tick f, Some io_error))"

definition dir_Close :: "dirState \<Rightarrow> string \<Rightarrow> dirState \<times> error option" where
  "dir_Close f n = (tick f, if faulty f then Some io_error else None)"

definition dir_Link :: "dirState \<Rightarrow> string \<Rightarrow> string \<Rightarrow> dirState \<times> error option" where
  "dir_Link f old new =
     (case ds_files f old of
        None \<Rightarrow> (tick f, Some io_error)
      | Some (c, d) \<Rightarrow>
          if faulty f \<or> ds_files f new \<noteq> None then (tick f, Some io_error)
          else ((tick f)\<lparr>ds_files := (ds_files f)(new \<mapsto> (c, d)),
                  ds_crash := (ds_crash f)(new := if d then insert (Some c) (ds_crash f new) else UNIV)\<rparr>, None))"

definition dir_Remove :: "dirState \<Rightarrow> string \<Rightarrow> dirState \<times> error option" where
  "dir_Remove f p =
     (if faulty f \<or> ds_files f p = None then (tick f, Some io_error)
      else ((tick f)\<lparr>ds_files := (ds_files f)(p := None), ds_crash := (ds_crash f)(p := insert None (ds_crash f p))\<rparr>,
            None))"

definition dir_OpenDir :: "dirState \<Rightarrow> string \<Rightarrow> dirState \<times> error option" where
  "dir_OpenDir f dir = (tick f, if faulty f then Some io_error else None)"

definition dir_SyncHandle :: "dirState \<Rightarrow> string \<Rightarrow> dirState \<times> error option" where
  "dir_SyncHandle f dir =
     (if faulty f then (tick f, Some io_error)
      else ((tick f)\<lparr>ds_crash := (\<lambda>q. case ds_files f q of
                None \<Rightarrow> {None} | Some (c, True) \<Rightarrow> {Some c} | Some (c, False) \<Rightarrow> ds_crash f q)\<rparr>, None))"

text \<open>Directory listings are sorted by name; names are the last elements of the paths.\<close>

definition dirOS :: "string list \<Rightarrow> dirState os_api" where
  "dirOS names =
     \<lparr>os_MkdirAll = (\<lambda>f dir perm. (tick f, if faulty f then Some io_error else None)),
      os_Stat = (\<lambda>f dir. (tick f, if faulty f then Inl io_error else Inr (ds_isDir f, ds_perm f))),
      os_ReadDir = (\<lambda>f dir. (tick f, if faulty f then Inl io_error
         else Inr (map (Pair True) (filter (\<lambda>n. ds_files f (filepath_Join [dir, n]) \<noteq> None) (sort names))))),
      os_Open = (\<lambda>f p. (tick f, case ds_files f p of
         Some (c, _) \<Rightarrow> if faulty f then Inl io_error else Inr c | None \<Rightarrow> Inl io_error)),
      os_CreateTemp = dir_CreateTemp, os_File = \<lparr>of_Write = dir_Write, of_Sync = dir_Sync, of_Close = dir_Close\<rparr>,
      os_Link = dir_Link, os_Remove = dir_Remove, os_OpenDir = dir_OpenDir, os_SyncHandle = dir_SyncHandle,
      os_CloseHandle = dir_Close\<rparr>"

definition dirFS :: "string list \<Rightarrow> dirState cacheFS" where
  "dirFS names = newOSCacheFS (dirOS names)"

definition dir_vis :: "dirState \<Rightarrow> string \<Rightarrow> bytes option" where
  "dir_vis f p = map_option fst (ds_files f p)"

definition dir_stable :: "dirState \<Rightarrow> string \<Rightarrow> bool" where
  "dir_stable f p = (case ds_files f p of None \<Rightarrow> False | Some (c, d) \<Rightarrow> d)"

lemmas dir_defs = dirFS_def dirOS_def newOSCacheFS_def SyncDir_def dir_CreateTemp_def dir_Write_def dir_Sync_def dir_Close_def
  dir_Link_def dir_Remove_def dir_OpenDir_def dir_SyncHandle_def tick_def dir_vis_def dir_stable_def Let_def

lemma never_Some_pair: "(\<forall>a b. x \<noteq> Some (a, b)) \<longleftrightarrow> x = None"
  by (cases x) auto

interpretation dir: cache_dir "dirFS names" dir_vis dir_stable ds_crash for names
  by unfold_locales
    (auto simp: dir_defs HasSuffix_iff fun_eq_iff never_Some_pair split: if_splits option.splits prod.splits bool.splits)


section \<open>Property\<close>


definition calm_dir :: dirState where
  "calm_dir = \<lparr>ds_files = Map.empty, ds_crash = (\<lambda>_. {None}), ds_fault = (\<lambda>_. False), ds_clock = 0,
     ds_name = (\<lambda>_. ''1''), ds_isDir = True, ds_perm = 448\<rparr>"

lemma calm_publish:
  "\<exists>f. publishCacheFile (dirFS []) ''/c'' ''/c/a.gob'' (Inr ''x'') calm_dir = (f, None)
     \<and> (\<exists>g. durablyRemoveCacheFile (dirFS []) ''/c'' ''/c/a.gob'' f = (g, None))"
  by (simp add: publishCacheFile_def durablyRemoveCacheFile_def dir_defs calm_dir_def faulty_def)


end
