(* ===== verification/Pool.thy ===== *)
theory Pool
  imports Cache_FS
begin

text \<open>
  The pool of pre-parameters (\<^verbatim>\<open>internal/preparams/pool.go\<close> and \<^verbatim>\<open>config.go\<close>).  tss-lib's pre-parameters are
  an opaque type \<open>'pre\<close> with its gob encoding and its proof check in \<open>poolEnv\<close>; the file system is the
  interface of \<open>Cache_FS\<close>.  What the generator, the clock and the contexts do at a call are arguments of
  the operations: the result of \<^verbatim>\<open>gen\<close>, elapsed nanoseconds, and which ready case a \<^verbatim>\<open>select\<close> took.  The
  buffered channel is a list; a call that would wait for an item yields \<open>None\<close>.  \<^verbatim>\<open>waitBackoff\<close> only
  passes time, and logging is left out.

  \<open>pool_step\<close> interleaves callers, generators and the refill loop at the granularity of the atomic
  variables, the channel and the refill mutex.  Shown: what each operation counts and returns, that an
  item is handed out only when it is valid and its file is durably gone, and that background generation
  never exceeds its bounds and stands still while paused.
\<close>

section \<open>Data\<close>

record Config =
  cf_Enabled :: bool
  cf_TargetSize :: int
  cf_MaxConcurrency :: int
  cf_GenerationParallelism :: int
  cf_GenerateTimeout :: int
  cf_AcquireTimeout :: int
  cf_RetryBackoff :: int
  cf_SyncFallbackOnEmpty :: bool
  cf_AutoRefillOnAcquire :: bool
  cf_FileCacheEnabled :: bool
  cf_FileCacheDir :: string

definition second :: int where
  "second = 10 ^ 9"

definition minute :: int where
  "minute = 60 * second"

definition DefaultConfig :: Config where
  "DefaultConfig =
     \<lparr>cf_Enabled = True, cf_TargetSize = 5, cf_MaxConcurrency = 1, cf_GenerationParallelism = 2,
      cf_GenerateTimeout = 7 * minute, cf_AcquireTimeout = 45 * second, cf_RetryBackoff = 2 * second,
      cf_SyncFallbackOnEmpty = True, cf_AutoRefillOnAcquire = True, cf_FileCacheEnabled = False,
      cf_FileCacheDir = filepath_Join [''.tmp'', ''tss-preparams'']\<rparr>"

record 'pre item =
  it_params :: "'pre option"
  it_cachePath :: string

record 'pre Pool =
  po_cfg :: Config
  po_ch :: "'pre item list"
  po_startDone :: bool
  po_startErr :: "error option"
  po_running :: bool
  po_refillCh :: bool
  po_closed :: bool
  po_refillPaused :: bool
  po_inFlight :: int
  po_generationsOK :: u64
  po_generationsFailed :: u64
  po_acquires :: u64
  po_acquireFailed :: u64
  po_acquireWaitNanos :: u64
  po_poolEmpty :: u64
  po_syncFallback :: u64
  po_lastGenerateNanos :: u64

record Snapshot =
  sn_Size :: int
  sn_InFlight :: int
  sn_GenerationsSuccess :: u64
  sn_GenerationsFailed :: u64
  sn_AcquireCount :: u64
  sn_AcquireFailedCount :: u64
  sn_AcquireWaitNanos :: u64
  sn_PoolEmptyCount :: u64
  sn_SyncFallbackCount :: u64
  sn_LastGenerateNanos :: u64
  sn_RefillPaused :: bool

record ('f, 'pre) poolEnv =
  pe_fs :: "'f cacheFS"
  pe_wd :: "string result"
  pe_Encode :: "'pre \<Rightarrow> bytes result"
  pe_Decode :: "bytes \<Rightarrow> 'pre result"
  pe_ValidateWithProof :: "'pre \<Rightarrow> bool"

definition NewPool :: "Config \<Rightarrow> 'pre Pool" where
  "NewPool cfg =
     (let cfg = (if cf_TargetSize cfg < 1 then cfg\<lparr>cf_TargetSize := 1\<rparr> else cfg);
          cfg = (if cf_MaxConcurrency cfg < 1 then cfg\<lparr>cf_MaxConcurrency := 1\<rparr> else cfg);
          cfg = (if cf_MaxConcurrency cfg > cf_TargetSize cfg
                 then cfg\<lparr>cf_MaxConcurrency := cf_TargetSize cfg\<rparr> else cfg);
          cfg = (if cf_GenerationParallelism cfg < 1 then cfg\<lparr>cf_GenerationParallelism := 2\<rparr> else cfg);
          cfg = (if cf_GenerateTimeout cfg \<le> 0 then cfg\<lparr>cf_GenerateTimeout := 7 * minute\<rparr> else cfg);
          cfg = (if cf_AcquireTimeout cfg \<le> 0 then cfg\<lparr>cf_AcquireTimeout := 45 * second\<rparr> else cfg);
          cfg = (if cf_RetryBackoff cfg \<le> 0 then cfg\<lparr>cf_RetryBackoff := 2 * second\<rparr> else cfg);
          cfg = (if cf_FileCacheDir cfg = []
                 then cfg\<lparr>cf_FileCacheDir := filepath_Join [''.tmp'', ''tss-preparams'']\<rparr> else cfg)
      in \<lparr>po_cfg = cfg, po_ch = [], po_startDone = False, po_startErr = None, po_running = False,
          po_refillCh = False, po_closed = False, po_refillPaused = False, po_inFlight = 0,
          po_generationsOK = 0, po_generationsFailed = 0, po_acquires = 0, po_acquireFailed = 0,
          po_acquireWaitNanos = 0, po_poolEmpty = 0, po_syncFallback = 0, po_lastGenerateNanos = 0\<rparr>)"

text \<open>The validator that \<^verbatim>\<open>NewPool\<close> installs.\<close>

definition pool_validate :: "('f, 'pre) poolEnv \<Rightarrow> 'pre option \<Rightarrow> bool" where
  "pool_validate env params = (case params of None \<Rightarrow> False | Some p \<Rightarrow> pe_ValidateWithProof env p)"

definition durationToNanos :: "int \<Rightarrow> u64" where
  "durationToNanos d = (if d \<le> 0 then 0 else word_of_int d)"

definition signalRefill :: "'pre Pool \<Rightarrow> 'pre Pool" where
  "signalRefill p = p\<lparr>po_refillCh := True\<rparr>"

section \<open>Acquiring\<close>

definition failAcquire :: "error \<Rightarrow> 'pre Pool \<Rightarrow> 'pre Pool \<times> 'pre option result" where
  "failAcquire err p = (p\<lparr>po_acquireFailed := po_acquireFailed p + 1\<rparr>, Inl err)"

definition finishSynchronousAcquire :: "'pre Pool \<times> 'pre option result \<Rightarrow> 'pre Pool \<times> 'pre option result" where
  "finishSynchronousAcquire g =
     (case g of
        (p, Inl err) \<Rightarrow> failAcquire err p
      | (p, Inr params) \<Rightarrow> (p\<lparr>po_acquires := po_acquires p + 1\<rparr>, Inr params))"

definition syncGenerate ::
  "('f, 'pre) poolEnv \<Rightarrow> 'pre option result \<Rightarrow> int \<Rightarrow> 'pre Pool \<Rightarrow> 'pre Pool \<times> 'pre option result" where
  "syncGenerate env gen elapsed p =
     (case gen of
        Inl err \<Rightarrow> (p, Inl err)
      | Inr params \<Rightarrow>
          if \<not> pool_validate env params then (p, Inl (errors_New ''generated preparams failed validation''))
          else (p\<lparr>po_lastGenerateNanos := word_of_int elapsed\<rparr>, Inr params))"

definition finishItem ::
  "('f, 'pre) poolEnv \<Rightarrow> 'pre item \<Rightarrow> 'pre Pool \<times> 'f \<Rightarrow> ('pre Pool \<times> 'f) \<times> 'pre option result" where
  "finishItem env it pf =
     (case pf of (p, f) \<Rightarrow>
      let failed = (\<lambda>f err. case failAcquire err p of (p', r) \<Rightarrow> ((p', f), r)) in
      if \<not> pool_validate env (it_params it) then failed f (Sentinel ErrInvalidCachedPreParams)
      else if cf_FileCacheEnabled (po_cfg p) \<and> it_cachePath it = [] then failed f (Sentinel ErrCachePathRequired)
      else (case (if it_cachePath it \<noteq> []
                  then durablyRemoveCacheFile (pe_fs env) (cf_FileCacheDir (po_cfg p)) (it_cachePath it) f
                  else (f, None)) of
              (f, Some err) \<Rightarrow> failed f err
            | (f, None) \<Rightarrow> ((p\<lparr>po_acquires := po_acquires p + 1\<rparr>, f), Inr (it_params it))))"

text \<open>
  \<open>timedOut\<close> is the error of the acquire context when the \<^verbatim>\<open>select\<close> took that case; otherwise the oldest
  item is taken, and the call waits while there is none.
\<close>

definition Acquire ::
  "('f, 'pre) poolEnv \<Rightarrow> error option \<Rightarrow> int \<Rightarrow> 'pre option result \<Rightarrow> int \<Rightarrow> 'pre Pool \<times> 'f
   \<Rightarrow> (('pre Pool \<times> 'f) \<times> 'pre option result) option" where
  "Acquire env timedOut waited gen elapsed pf =
     (case pf of (p, f) \<Rightarrow>
      let with_fs = (\<lambda>r. case r of (p', res) \<Rightarrow> Some ((p', f), res)) in
      if po_closed p then with_fs (failAcquire (Sentinel ErrPoolClosed) p)
      else if \<not> cf_Enabled (po_cfg p) then with_fs (finishSynchronousAcquire (syncGenerate env gen elapsed p))
      else if \<not> po_running p then
        let p = p\<lparr>po_poolEmpty := po_poolEmpty p + 1\<rparr> in
        if \<not> cf_SyncFallbackOnEmpty (po_cfg p)
        then with_fs (failAcquire (errorf ContextDeadlineExceeded ''acquire preparams from pool'') p)
        else with_fs (finishSynchronousAcquire
               (syncGenerate env gen elapsed (p\<lparr>po_syncFallback := po_syncFallback p + 1\<rparr>)))
      else (case timedOut of
              Some err \<Rightarrow>
                let p = p\<lparr>po_poolEmpty := po_poolEmpty p + 1,
                          po_acquireWaitNanos := po_acquireWaitNanos p + durationToNanos waited\<rparr> in
                if \<not> cf_SyncFallbackOnEmpty (po_cfg p)
                then with_fs (failAcquire (Wrap ''acquire preparams from pool'' err) p)
                else with_fs (finishSynchronousAcquire
                       (syncGenerate env gen elapsed (p\<lparr>po_syncFallback := po_syncFallback p + 1\<rparr>)))
            | None \<Rightarrow>
                (case po_ch p of
                   [] \<Rightarrow> None
                 | it # rest \<Rightarrow>
                     let p = p\<lparr>po_ch := rest, po_acquireWaitNanos := po_acquireWaitNanos p + durationToNanos waited\<rparr> in
                     (case finishItem env it (p, f) of
                        ((p, f), r) \<Rightarrow>
                          Some ((if cf_AutoRefillOnAcquire (po_cfg p) then signalRefill p else p, f), r)))))"

definition TryAcquire ::
  "('f, 'pre) poolEnv \<Rightarrow> error option \<Rightarrow> 'pre option result \<Rightarrow> int \<Rightarrow> 'pre Pool \<times> 'f
   \<Rightarrow> ('pre Pool \<times> 'f) \<times> 'pre option result" where
  "TryAcquire env ctxErr gen elapsed pf =
     (case pf of (p, f) \<Rightarrow>
      let with_fs = (\<lambda>r. case r of (p', res) \<Rightarrow> ((p', f), res)) in
      case ctxErr of
        Some err \<Rightarrow> with_fs (failAcquire err p)
      | None \<Rightarrow>
          if po_closed p then with_fs (failAcquire (Sentinel ErrPoolClosed) p)
          else if \<not> cf_Enabled (po_cfg p) then with_fs (finishSynchronousAcquire (syncGenerate env gen elapsed p))
          else (case po_ch p of
                  it # rest \<Rightarrow>
                    (case finishItem env it (p\<lparr>po_ch := rest\<rparr>, f) of
                       ((p, f), r) \<Rightarrow> ((if cf_AutoRefillOnAcquire (po_cfg p) then signalRefill p else p, f), r))
                | [] \<Rightarrow>
                    with_fs (failAcquire (Sentinel ErrPoolEmpty)
                               (signalRefill (p\<lparr>po_poolEmpty := po_poolEmpty p + 1\<rparr>)))))"

definition Pool_Size :: "'pre Pool \<Rightarrow> int" where
  "Pool_Size p = int (length (po_ch p))"

definition Pool_Snapshot :: "'pre Pool \<Rightarrow> Snapshot" where
  "Pool_Snapshot p =
     \<lparr>sn_Size = int (length (po_ch p)), sn_InFlight = po_inFlight p,
      sn_GenerationsSuccess = po_generationsOK p, sn_GenerationsFailed = po_generationsFailed p,
      sn_AcquireCount = po_acquires p, sn_AcquireFailedCount = po_acquireFailed p,
      sn_AcquireWaitNanos = po_acquireWaitNanos p, sn_PoolEmptyCount = po_poolEmpty p,
      sn_SyncFallbackCount = po_syncFallback p, sn_LastGenerateNanos = po_lastGenerateNanos p,
      sn_RefillPaused = po_refillPaused p\<rparr>"

section \<open>The cache\<close>

definition Ext :: "string \<Rightarrow> string" where
  "Ext path =
     (let tail = takeWhile (\<lambda>c. c \<noteq> CHR ''/'' \<and> c \<noteq> CHR ''.'') (rev path) in
      case drop (length tail) (rev path) of
        c # _ \<Rightarrow> if c = CHR ''.'' then c # rev tail else []
      | [] \<Rightarrow> [])"

text \<open>Closing the reader, whose error is dropped, is part of \<open>fs_Open\<close>, and so is a failing read.\<close>

definition loadOne :: "('f, 'pre) poolEnv \<Rightarrow> string \<Rightarrow> string \<Rightarrow> 'f \<Rightarrow> 'f \<times> 'pre option result" where
  "loadOne env baseDir path f =
     (case SafePathUnderDir (pe_wd env) baseDir path of
        Inl err \<Rightarrow> (f, Inl err)
      | Inr safePath \<Rightarrow>
          (case fs_Open (pe_fs env) f safePath of
             (f, Inl err) \<Rightarrow> (f, Inl err)
           | (f, Inr data) \<Rightarrow> (f, case pe_Decode env data of Inl err \<Rightarrow> Inl err | Inr p \<Rightarrow> Inr (Some p))))"

text \<open>The loop over the directory entries; the channel has room for \<^verbatim>\<open>TargetSize\<close> items.\<close>

fun loadEntries ::
  "('f, 'pre) poolEnv \<Rightarrow> int \<Rightarrow> (bool \<times> string) list \<Rightarrow> 'pre Pool \<times> 'f \<Rightarrow> ('pre Pool \<times> 'f) \<times> error option" where
  "loadEntries env limit [] pf = (pf, None)"
| "loadEntries env limit ((regular, name) # entries) (p, f) =
     (let dir = cf_FileCacheDir (po_cfg p) in
      if int (length (po_ch p)) \<ge> limit then ((p, f), None)
      else if \<not> regular \<or> Ext name \<noteq> ''.gob'' then loadEntries env limit entries (p, f)
      else
        let path = filepath_Join [dir, name] in
        (case loadOne env dir path f of
           (f, loaded) \<Rightarrow>
             if \<not> (is_ok loaded \<and> pool_validate env (projr loaded)) then
               (case durablyRemoveCacheFile (pe_fs env) dir path f of
                  (f, Some err) \<Rightarrow> ((p, f), Some (Wrap ''remove malformed preparams cache entry'' err))
                | (f, None) \<Rightarrow> loadEntries env limit entries (p, f))
             else if int (length (po_ch p)) < cf_TargetSize (po_cfg p) then
               loadEntries env limit entries
                 (p\<lparr>po_ch := po_ch p @ [\<lparr>it_params = projr loaded, it_cachePath = path\<rparr>]\<rparr>, f)
             else ((p, f), None)))"

definition loadFromCache ::
  "('f, 'pre) poolEnv \<Rightarrow> int \<Rightarrow> 'pre Pool \<times> 'f \<Rightarrow> ('pre Pool \<times> 'f) \<times> error option" where
  "loadFromCache env limit pf =
     (case pf of (p, f) \<Rightarrow>
      if \<not> cf_FileCacheEnabled (po_cfg p) then ((p, f), None)
      else (case fs_ReadDir (pe_fs env) f (cf_FileCacheDir (po_cfg p)) of
              (f, Inl err) \<Rightarrow> ((p, f), Some err)
            | (f, Inr entries) \<Rightarrow> loadEntries env limit entries (p, f)))"

definition saveToCache ::
  "('f, 'pre) poolEnv \<Rightarrow> string \<Rightarrow> 'pre \<Rightarrow> 'pre Pool \<Rightarrow> 'f \<Rightarrow> 'f \<times> string result" where
  "saveToCache env uuid params p f =
     (let dir = cf_FileCacheDir (po_cfg p) in
      if \<not> cf_FileCacheEnabled (po_cfg p) then (f, Inr [])
      else (case ensurePrivateCacheDir (pe_fs env) dir f of
              (f, Some err) \<Rightarrow> (f, Inl err)
            | (f, None) \<Rightarrow>
                (case SafePathUnderDir (pe_wd env) dir (filepath_Join [dir, uuid @ ''.gob'']) of
                   Inl err \<Rightarrow> (f, Inl err)
                 | Inr path \<Rightarrow>
                     (case publishCacheFile (pe_fs env) dir path (pe_Encode env params) f of
                        (f, Some err) \<Rightarrow> (f, Inl err)
                      | (f, None) \<Rightarrow> (f, Inr path)))))"

section \<open>Starting, pausing, closing\<close>

text \<open>\<open>startCache\<close> is the part of \<^verbatim>\<open>Start\<close> under \<^verbatim>\<open>FileCacheEnabled\<close>.\<close>

definition startCache ::
  "('f, 'pre) poolEnv \<Rightarrow> string \<Rightarrow> 'pre Pool \<times> 'f \<Rightarrow> ('pre Pool \<times> 'f) \<times> error option" where
  "startCache env uuid pf =
     (case pf of (p, f) \<Rightarrow>
      let dir = cf_FileCacheDir (po_cfg p) in
      if \<not> cf_FileCacheEnabled (po_cfg p) then ((p, f), None)
      else (case ensurePrivateCacheDir (pe_fs env) dir f of
              (f, Some err) \<Rightarrow> ((p, f), Some err)
            | (f, None) \<Rightarrow>
                (case validateCacheCapabilities (pe_fs env) dir uuid f of
                   (f, Some err) \<Rightarrow> ((p, f), Some err)
                 | (f, None) \<Rightarrow>
                     (case loadFromCache env (cf_TargetSize (po_cfg p)) (p, f) of
                        (pf, Some err) \<Rightarrow> (pf, Some (Wrap ''load preparams cache'' err))
                      | (pf, None) \<Rightarrow> (pf, None)))))"

definition Start ::
  "('f, 'pre) poolEnv \<Rightarrow> string \<Rightarrow> 'pre Pool \<times> 'f \<Rightarrow> ('pre Pool \<times> 'f) \<times> error option" where
  "Start env uuid pf =
     (case pf of (p, f) \<Rightarrow>
      if po_closed p then (pf, Some (Sentinel ErrPoolClosed))
      else if po_startDone p then (pf, po_startErr p)
      else
        let p = p\<lparr>po_startDone := True\<rparr> in
        if \<not> cf_Enabled (po_cfg p) then ((p, f), None)
        else (case startCache env uuid (p, f) of
                ((p, f), Some err) \<Rightarrow> ((p\<lparr>po_startErr := Some err\<rparr>, f), Some err)
              | ((p, f), None) \<Rightarrow> ((signalRefill (p\<lparr>po_running := True\<rparr>), f), po_startErr p)))"

definition PauseRefill :: "'pre Pool \<Rightarrow> 'pre Pool" where
  "PauseRefill p = p\<lparr>po_refillPaused := True\<rparr>"

definition ResumeRefill :: "'pre Pool \<Rightarrow> 'pre Pool" where
  "ResumeRefill p =
     (let resumed = po_refillPaused p; p = p\<lparr>po_refillPaused := False\<rparr>
      in if resumed then signalRefill p else p)"

text \<open>\<^verbatim>\<open>Close\<close> up to its wait for the goroutines.\<close>

definition Close :: "'pre Pool \<Rightarrow> 'pre Pool" where
  "Close p = p\<lparr>po_closed := True\<rparr>"

section \<open>Background generation\<close>

text \<open>
  \<^verbatim>\<open>ensureRefillWorkers\<close>, as it runs with nothing in between; \<open>refillAllowed\<close> and \<open>deficit\<close> are its tests.
\<close>

definition refillAllowed :: "'pre Pool \<Rightarrow> bool" where
  "refillAllowed p \<longleftrightarrow> \<not> (po_closed p \<or> po_refillPaused p)"

definition deficit :: "int \<Rightarrow> 'pre Pool \<Rightarrow> int" where
  "deficit inFlight p = cf_TargetSize (po_cfg p) - (int (length (po_ch p)) + inFlight)"

function ensureRefillWorkers :: "'pre Pool \<Rightarrow> 'pre Pool" where
  "ensureRefillWorkers p =
     (if \<not> refillAllowed p then p
      else if po_inFlight p \<ge> cf_MaxConcurrency (po_cfg p) then p
      else if deficit (po_inFlight p) p \<le> 0 then p
      else ensureRefillWorkers (p\<lparr>po_inFlight := po_inFlight p + 1\<rparr>))"
  by pat_completeness auto
termination
  by (relation "measure (\<lambda>p. nat (cf_MaxConcurrency (po_cfg p) - po_inFlight p))") auto

text \<open>
  \<^verbatim>\<open>generateOne\<close> up to its deferred calls.  \<open>gen\<close> is what the generator returns, \<open>runErr\<close> the error of the
  run context then, and \<open>tookDone\<close> tells whether the last \<^verbatim>\<open>select\<close> took the cancelled context.
\<close>

definition generateOne ::
  "('f, 'pre) poolEnv \<Rightarrow> string \<Rightarrow> 'pre option result \<Rightarrow> error option \<Rightarrow> int \<Rightarrow> bool
   \<Rightarrow> 'pre Pool \<times> 'f \<Rightarrow> 'pre Pool \<times> 'f" where
  "generateOne env uuid gen runErr elapsed tookDone pf =
     (case pf of (p, f) \<Rightarrow>
      let failed = (\<lambda>p. p\<lparr>po_generationsFailed := po_generationsFailed p + 1\<rparr>);
          cleanup = (\<lambda>path f. if path \<noteq> []
            then fst (durablyRemoveCacheFile (pe_fs env) (cf_FileCacheDir (po_cfg p)) path f) else f) in
      if \<not> po_running p then (p, f)
      else (case gen of
              Inl err \<Rightarrow>
                if runErr \<noteq> None \<and> (errors_Is err ContextCanceled \<or> errors_Is err ContextDeadlineExceeded)
                then (p, f) else (failed p, f)
            | Inr params \<Rightarrow>
                if \<not> pool_validate env params then (failed p, f)
                else
                  let p = p\<lparr>po_lastGenerateNanos := word_of_int elapsed\<rparr> in
                  (case saveToCache env uuid (the params) p f of
                     (f, Inl err) \<Rightarrow> (failed p, f)
                   | (f, Inr cachePath) \<Rightarrow>
                       if tookDone then (p, cleanup cachePath f)
                       else if int (length (po_ch p)) < cf_TargetSize (po_cfg p) then
                         (p\<lparr>po_ch := po_ch p @ [\<lparr>it_params = params, it_cachePath = cachePath\<rparr>],
                            po_generationsOK := po_generationsOK p + 1\<rparr>, f)
                       else (p, cleanup cachePath f))))"

definition generateLeave :: "'pre Pool \<Rightarrow> 'pre Pool" where
  "generateLeave p = signalRefill (p\<lparr>po_inFlight := po_inFlight p - 1\<rparr>)"

text \<open>
  What the generator is given and how long a failed generation waits.  A context is its deadline, if it
  has one; \<open>generate\<close> is \<^verbatim>\<open>generatePreParams\<close>, and \<open>doneIn\<close> tells when the run context ends.
\<close>

definition WithTimeout :: "int \<Rightarrow> int option \<Rightarrow> int \<Rightarrow> int option" where
  "WithTimeout now parent timeout =
     Some (case parent of None \<Rightarrow> now + timeout | Some deadline \<Rightarrow> min deadline (now + timeout))"

definition defaultGenerator ::
  "(int option \<Rightarrow> int \<Rightarrow> 'pre option result) \<Rightarrow> int \<Rightarrow> int option \<Rightarrow> 'pre Pool \<Rightarrow> 'pre option result" where
  "defaultGenerator generate now parent p =
     (let ctx = (if cf_GenerateTimeout (po_cfg p) > 0 then WithTimeout now parent (cf_GenerateTimeout (po_cfg p)) else parent)
      in generate ctx (cf_GenerationParallelism (po_cfg p)))"

definition waitBackoff :: "int option \<Rightarrow> 'pre Pool \<Rightarrow> int" where
  "waitBackoff doneIn p =
     (if cf_RetryBackoff (po_cfg p) \<le> 0 \<or> \<not> po_running p then 0
      else (case doneIn of None \<Rightarrow> cf_RetryBackoff (po_cfg p) | Some d \<Rightarrow> min d (cf_RetryBackoff (po_cfg p))))"

text \<open>In a new pool every generation is bounded and a failed one is never retried at once.\<close>

lemma NewPool_generation:
  assumes "po_cfg p = po_cfg (NewPool cfg)"
  shows "\<exists>deadline n. defaultGenerator generate now parent p = generate (Some deadline) n
      \<and> deadline \<le> now + cf_GenerateTimeout (po_cfg p) \<and> 1 \<le> n"
    and "po_running p \<Longrightarrow> waitBackoff None p > 0"
proof -
  have c: "cf_GenerateTimeout (po_cfg p) > 0" "1 \<le> cf_GenerationParallelism (po_cfg p)" "cf_RetryBackoff (po_cfg p) > 0"
    unfolding assms by (simp_all add: NewPool_def Let_def second_def minute_def)
  then show "\<exists>deadline n. defaultGenerator generate now parent p = generate (Some deadline) n
      \<and> deadline \<le> now + cf_GenerateTimeout (po_cfg p) \<and> 1 \<le> n"
    by (intro exI [of _ "the (WithTimeout now parent (cf_GenerateTimeout (po_cfg p)))"]
          exI [of _ "cf_GenerationParallelism (po_cfg p)"])
       (simp add: defaultGenerator_def WithTimeout_def split: option.split)
  show "waitBackoff None p > 0" if "po_running p" using that c(3) by (simp add: waitBackoff_def)
qed

section \<open>Paths of the cache\<close>

lemma Join_rooted:
  assumes "IsAbs dir" shows "filepath_Join [dir, name] = Clean (filepath_Join [dir, name])" "IsAbs (filepath_Join [dir, name])"
proof -
  let ?s = "dir @ CHR ''/'' # name"
  have a: "IsAbs ?s" "dir \<noteq> []" using assms by (auto simp: IsAbs_def HasPrefix_iff)
  then have j: "filepath_Join [dir, name] = Clean ?s" by (auto simp: filepath_Join_def)
  show "filepath_Join [dir, name] = Clean (filepath_Join [dir, name])" "IsAbs (filepath_Join [dir, name])"
    unfolding j Clean_rooted [OF a(1)] by (simp_all add: Clean_of_elements elements_plain [OF a(1)])
qed

lemma Join_ends:
  assumes "IsAbs dir" "plain name" shows "\<exists>pre. filepath_Join [dir, name] = pre @ name"
proof -
  have d: "dir \<noteq> []" "name \<noteq> []" "IsAbs (dir @ CHR ''/'' # name)" using assms by (auto simp: IsAbs_def HasPrefix_iff plain_def)
  have "Split name (CHR ''/'') = [name]" using assms(2) Split_plain [of "[name]"] by simp
  then have e: "elements (dir @ CHR ''/'' # name) = elements dir @ [name]"
    using assms d by (simp add: elements_def Split_append plain_def)
  have "Join (es @ [name]) ''/'' = (if es = [] then name else Join es ''/'' @ ''/'' @ name)" for es
    by (induction es rule: induct_list012) auto
  then show ?thesis
    using d by (auto simp: filepath_Join_def Clean_rooted e of_elements_def)
qed

lemma Safe_Join:
  assumes "IsAbs dir" "SafePathUnderDir wd base (filepath_Join [dir, name]) = Inr q"
  shows "q = filepath_Join [dir, name]"
  using assms(2) Join_rooted [OF assms(1), of name]
  by (auto simp: SafePathUnderDir_def filepath_Abs_def split: sum.splits if_splits)

section \<open>What callers get\<close>

lemma finishItem_ok:
  assumes "finishItem env it (p, f) = ((p', f'), Inr params)"
  shows "params = it_params it" "pool_validate env params" "p' = p\<lparr>po_acquires := po_acquires p + 1\<rparr>"
    "cf_FileCacheEnabled (po_cfg p) \<Longrightarrow> it_cachePath it \<noteq> []"
    "it_cachePath it \<noteq> [] \<Longrightarrow>
       durablyRemoveCacheFile (pe_fs env) (cf_FileCacheDir (po_cfg p)) (it_cachePath it) f = (f', None)"
  using assms by (auto simp: finishItem_def failAcquire_def Let_def split: if_splits prod.splits option.splits)

text \<open>What a call leaves alone, and that taking an item wakes the refill loop.\<close>

definition consumed :: "'pre Pool \<Rightarrow> 'pre Pool \<Rightarrow> bool" where
  "consumed p p' \<longleftrightarrow> po_cfg p' = po_cfg p \<and> po_closed p' = po_closed p \<and> po_refillPaused p' = po_refillPaused p
     \<and> po_inFlight p' = po_inFlight p \<and> po_running p' = po_running p \<and> (po_refillCh p \<longrightarrow> po_refillCh p')
     \<and> (po_ch p' = po_ch p
        \<or> po_ch p \<noteq> [] \<and> po_ch p' = tl (po_ch p) \<and> (cf_AutoRefillOnAcquire (po_cfg p) \<longrightarrow> po_refillCh p'))"

definition untouched :: "'pre Pool \<Rightarrow> 'pre Pool \<Rightarrow> bool" where
  "untouched p p' \<longleftrightarrow> po_cfg p' = po_cfg p \<and> po_closed p' = po_closed p \<and> po_refillPaused p' = po_refillPaused p
     \<and> po_inFlight p' = po_inFlight p \<and> po_running p' = po_running p \<and> po_refillCh p' = po_refillCh p \<and> po_ch p' = po_ch p"

lemma finishItem_untouched: "finishItem env it (p, f) = ((p', f'), r) \<Longrightarrow> untouched p p'"
  by (auto simp: finishItem_def failAcquire_def Let_def untouched_def split: if_splits prod.splits option.splits)

lemma synchronous_untouched:
  "finishSynchronousAcquire (syncGenerate env gen elapsed p) = (p', r) \<Longrightarrow> untouched p p'"
  by (auto simp: finishSynchronousAcquire_def syncGenerate_def failAcquire_def untouched_def split: if_splits sum.splits)

lemma TryAcquire_consumed:
  "TryAcquire env ctxErr gen elapsed (p, f) = ((p', f'), r) \<Longrightarrow> consumed p p'"
  by (auto simp: TryAcquire_def failAcquire_def signalRefill_def Let_def
      dest!: finishItem_untouched synchronous_untouched split: if_splits option.splits prod.splits list.splits)
    (auto simp: untouched_def consumed_def)

lemma Acquire_consumed:
  "Acquire env timedOut waited gen elapsed (p, f) = Some ((p', f'), r) \<Longrightarrow> consumed p p'"
  by (auto simp: Acquire_def failAcquire_def signalRefill_def Let_def
      dest!: finishItem_untouched synchronous_untouched split: if_splits option.splits prod.splits list.splits)
    (auto simp: untouched_def consumed_def)

section \<open>What is loaded\<close>

text \<open>An item that is valid and decoded from the file it names.\<close>

definition backed :: "('f \<Rightarrow> string \<Rightarrow> bytes option) \<Rightarrow> ('f, 'pre) poolEnv \<Rightarrow> 'f \<Rightarrow> 'pre item \<Rightarrow> bool" where
  "backed vis env f it \<longleftrightarrow> pool_validate env (it_params it)
     \<and> (\<exists>c q. vis f (it_cachePath it) = Some c \<and> pe_Decode env c = Inr q \<and> it_params it = Some q)"

text \<open>The laws of reading the directory, which the pool relies on besides those of \<open>cache_dir\<close>.\<close>

locale cache_pool = cache_dir fs vis stable crash
  for fs :: "'f cacheFS" and vis stable crash +
  fixes env :: "('f, 'pre) poolEnv"
  assumes env_fs: "pe_fs env = fs"
    and open_file: "fs_Open fs f path = (f', opened) \<Longrightarrow>
      vis f' = vis f \<and> (case opened of Inl e \<Rightarrow> True | Inr c \<Rightarrow> vis f path = Some c)"
    and readdir_keeps: "fs_ReadDir fs f dir = (f', listed) \<Longrightarrow> vis f' = vis f"
    and mkdir_keeps: "fs_MkdirAll fs f dir mode = (f', made) \<Longrightarrow> vis f' = vis f"
    and stat_keeps: "fs_Stat fs f dir = (f', info) \<Longrightarrow> vis f' = vis f"
begin

lemma backed_mono: "backed vis env f' it \<Longrightarrow> vis f' \<subseteq>\<^sub>m vis f \<Longrightarrow> backed vis env f it"
  unfolding backed_def map_le_def by (metis domI)

lemma removal_shrinks: "durablyRemoveCacheFile fs dir path f = (f', r) \<Longrightarrow> vis f' \<subseteq>\<^sub>m vis f"
  unfolding durablyRemoveCacheFile_def
  by (auto simp: map_le_def split: prod.splits option.splits if_splits dest!: remove_ok remove_fail syncdir_ok syncdir_fail)

lemma loadOne_backed:
  assumes "loadOne env dir (filepath_Join [dir, name]) f = (f', r)" "IsAbs dir"
  shows "vis f' = vis f"
    and "r = Inr v \<Longrightarrow> pool_validate env v \<Longrightarrow> backed vis env f \<lparr>it_params = v, it_cachePath = filepath_Join [dir, name]\<rparr>"
  using assms(1) open_file Safe_Join [OF assms(2), of _ dir name]
  by (fastforce simp: loadOne_def env_fs backed_def split: sum.splits prod.splits)+

lemma loadEntries_backed:
  assumes "loadEntries env limit entries (p, f) = ((p', f'), r)" "IsAbs (cf_FileCacheDir (po_cfg p))"
  shows "vis f' \<subseteq>\<^sub>m vis f \<and> (\<exists>new. p' = p\<lparr>po_ch := po_ch p @ new\<rparr> \<and> list_all (backed vis env f) new)"
  using assms
proof (induction entries arbitrary: p f)
  case Nil
  then show ?case by (auto intro: exI [of _ "[]"])
next
  case (Cons e entries)
  obtain regular name where e: "e = (regular, name)" by fastforce
  let ?dir = "cf_FileCacheDir (po_cfg p)"
  let ?path = "filepath_Join [?dir, name]"
  obtain f1 l where l: "loadOne env ?dir ?path f = (f1, l)" by fastforce
  obtain f2 d where d: "durablyRemoveCacheFile fs ?dir ?path f1 = (f2, d)" by fastforce
  note f1 = loadOne_backed [OF l Cons.prems(2)]
  have f2: "vis f2 \<subseteq>\<^sub>m vis f" using removal_shrinks [OF d] f1(1) by simp
  let ?p = "p\<lparr>po_ch := po_ch p @ [\<lparr>it_params = projr l, it_cachePath = ?path\<rparr>]\<rparr>"
  consider (stop) "p' = p" "vis f' \<subseteq>\<^sub>m vis f" | (skip) "loadEntries env limit entries (p, f) = ((p', f'), r)"
    | (bad) "loadEntries env limit entries (p, f2) = ((p', f'), r)"
    | (good) "loadEntries env limit entries (?p, f1) = ((p', f'), r)" "is_ok l" "pool_validate env (projr l)"
    using Cons.prems(1) f1(1) f2
    by (auto simp: e l d env_fs Let_def split: if_splits option.splits)
  then show ?case
  proof cases
    case stop
    then show ?thesis by (auto intro!: exI [of _ "[]"])
  next
    case skip
    then show ?thesis using Cons.IH Cons.prems(2) by blast
  next
    case bad
    from Cons.IH [OF this Cons.prems(2)] f2 show ?thesis
      by (auto intro: map_le_trans backed_mono simp: list_all_iff)
  next
    case good
    have b: "backed vis env f \<lparr>it_params = projr l, it_cachePath = ?path\<rparr>"
      using f1(2) good(2,3) by (cases l) simp_all
    obtain new where n: "vis f' \<subseteq>\<^sub>m vis f1" "p' = ?p\<lparr>po_ch := po_ch ?p @ new\<rparr>" "list_all (backed vis env f1) new"
      using Cons.IH [OF good(1)] Cons.prems(2) by auto
    then have "p' = p\<lparr>po_ch := po_ch p @ \<lparr>it_params = projr l, it_cachePath = ?path\<rparr> # new\<rparr>" by simp
    moreover have "list_all (backed vis env f) new" using n(3) f1(1) by (simp add: backed_def list_all_iff)
    ultimately show ?thesis using n(1) b f1(1) by (auto intro!: exI [of _ "_ # new"])
  qed
qed

lemma probe_not_temporary:
  assumes "IsAbs dir" "CHR ''/'' \<notin> set uuid" "\<not> HasSuffix uuid ''.tmp''"
  shows "\<not> HasSuffix (filepath_Join [dir, ''.capability-'' @ uuid]) ''.tmp''"
proof
  assume "HasSuffix (filepath_Join [dir, ''.capability-'' @ uuid]) ''.tmp''"
  moreover obtain pre where "filepath_Join [dir, ''.capability-'' @ uuid] = pre @ ''.capability-'' @ uuid"
    using Join_ends [OF assms(1), of "''.capability-'' @ uuid"] assms(2) by (auto simp: plain_def)
  ultimately obtain x where "(pre @ ''.capability-'') @ uuid = x @ ''.tmp''" by (auto simp: HasSuffix_iff)
  then obtain us where "pre @ ''.capability-'' = x @ us \<and> us @ uuid = ''.tmp'' \<or> uuid = us @ ''.tmp''"
    unfolding append_eq_append_conv2 by auto
  then have u: "pre @ ''.capability-'' = x @ us" "us @ uuid = ''.tmp''" "us \<noteq> []"
    using assms(3) by (auto simp: HasSuffix_iff)
  have "last us = last (x @ us)" using u(3) by simp
  also have "\<dots> = CHR ''-''" unfolding u(1) [symmetric] by simp
  finally have "CHR ''-'' \<in> set (us @ uuid)" using last_in_set [OF u(3)] by simp
  then show False unfolding u(2) by simp
qed

lemma validated_shrinks:
  assumes "validateCacheCapabilities fs dir uuid f = (f', None)" "IsAbs dir" "CHR ''/'' \<notin> set uuid" "\<not> HasSuffix uuid ''.tmp''"
  shows "vis f' \<subseteq>\<^sub>m vis f"
proof -
  let ?probe = "filepath_Join [dir, ''.capability-'' @ uuid]"
  obtain f1 f2 where s: "publishCacheFile fs dir ?probe (Inr ''preparams-cache-capability-v1'') f = (f1, None)"
      "fs_Remove fs f1 ?probe = (f2, None)" "fs_SyncDir fs f2 dir = (f', None)"
    using assms(1) by (auto simp: validateCacheCapabilities_def Let_def split: prod.splits option.splits)
  from publish_ok [OF s(1) probe_not_temporary [OF assms(2-4)]] remove_ok [OF s(2)] syncdir_ok [OF s(3)]
  show ?thesis by (auto simp: map_le_def split: if_splits)
qed

lemma ensured_keeps: "ensurePrivateCacheDir fs dir f = (f', r) \<Longrightarrow> vis f' = vis f"
  by (auto simp: ensurePrivateCacheDir_def split: prod.splits option.splits sum.splits if_splits
      dest!: mkdir_keeps stat_keeps)

lemma startCache_backed:
  assumes "startCache env uuid (p, f) = ((p', f'), r)"
    and "IsAbs (cf_FileCacheDir (po_cfg p))" "CHR ''/'' \<notin> set uuid" "\<not> HasSuffix uuid ''.tmp''" "po_ch p = []"
  shows "\<exists>new. p' = p\<lparr>po_ch := new\<rparr> \<and> list_all (backed vis env f) new"
proof -
  let ?dir = "cf_FileCacheDir (po_cfg p)"
  consider (none) "p' = p"
    | (load) f1 f2 r' where "ensurePrivateCacheDir fs ?dir f = (f1, None)" "validateCacheCapabilities fs ?dir uuid f1 = (f2, None)"
        "loadFromCache env (cf_TargetSize (po_cfg p)) (p, f2) = ((p', f'), r')"
    using assms(1) by (auto simp: startCache_def env_fs Let_def split: if_splits prod.splits option.splits)
  then show ?thesis
  proof cases
    case none
    then show ?thesis using assms(5) by (intro exI [of _ "[]"]) (cases p, simp)
  next
    case load
    have v: "vis f2 \<subseteq>\<^sub>m vis f"
      using validated_shrinks [OF load(2) assms(2-4)] ensured_keeps [OF load(1)] by simp
    consider "p' = p"
      | f3 entries where "vis f3 = vis f2" "loadEntries env (cf_TargetSize (po_cfg p)) entries (p, f3) = ((p', f'), r')"
      using load(3) by (auto simp: loadFromCache_def env_fs split: if_splits prod.splits sum.splits dest!: readdir_keeps)
    then show ?thesis
    proof cases
      case 1
      then show ?thesis using assms(5) by (intro exI [of _ "[]"]) (cases p, simp)
    next
      case 2
      have "backed vis env f3 it \<Longrightarrow> backed vis env f it" for it using backed_mono [of f3 it f] v 2(1) by simp
      with loadEntries_backed [OF 2(2) assms(2)] assms(5) show ?thesis
        by (auto simp: list_all_iff)
    qed
  qed
qed

end

lemma NewPool_cfg [simp]:
  "0 \<le> cf_TargetSize (po_cfg (NewPool cfg))" "1 \<le> cf_TargetSize (po_cfg (NewPool cfg))" "1 \<le> cf_MaxConcurrency (po_cfg (NewPool cfg))"
  "cf_MaxConcurrency (po_cfg (NewPool cfg)) \<le> cf_TargetSize (po_cfg (NewPool cfg))"
  "cf_Enabled (po_cfg (NewPool cfg)) = cf_Enabled cfg" "cf_FileCacheEnabled (po_cfg (NewPool cfg)) = cf_FileCacheEnabled cfg"
  "cf_FileCacheDir cfg \<noteq> [] \<Longrightarrow> cf_FileCacheDir (po_cfg (NewPool cfg)) = cf_FileCacheDir cfg"
  by (simp_all add: NewPool_def Let_def)

lemma NewPool_state [simp]:
  "po_ch (NewPool cfg) = []" "po_startDone (NewPool cfg) = False" "po_closed (NewPool cfg) = False"
  "po_inFlight (NewPool cfg) = 0" "po_refillPaused (NewPool cfg) = False" "po_running (NewPool cfg) = False"
  "po_startErr (NewPool cfg) = None" "po_refillCh (NewPool cfg) = False"
  by (simp_all add: NewPool_def Let_def)

context cache_pool begin

lemma Start_backed:
  assumes "Start env uuid (NewPool cfg, f) = ((p', f'), r)"
    and "IsAbs (cf_FileCacheDir cfg)" "CHR ''/'' \<notin> set uuid" "\<not> HasSuffix uuid ''.tmp''"
  shows "list_all (backed vis env f) (po_ch p')"
proof -
  have d: "cf_FileCacheDir cfg \<noteq> []" using assms(2) by (auto simp: IsAbs_def HasPrefix_iff)
  show ?thesis
  proof (cases "cf_Enabled cfg")
    case False
    then show ?thesis using assms(1) by (auto simp: Start_def Let_def) 
  next
    case True
    obtain p1 f1 r1 where s: "startCache env uuid (NewPool cfg\<lparr>po_startDone := True\<rparr>, f) = ((p1, f1), r1)" by (metis prod.exhaust)
    have "p' = p1\<lparr>po_startErr := Some e\<rparr> \<or> p' = signalRefill (p1\<lparr>po_running := True\<rparr>)" if "r1 = Some e \<or> r1 = None" for e
      using assms(1) True s that by (auto simp: Start_def Let_def)
    then have "\<exists>e. p' = p1\<lparr>po_startErr := Some e\<rparr> \<or> p' = signalRefill (p1\<lparr>po_running := True\<rparr>)" by (cases r1) blast+
    then have "po_ch p' = po_ch p1 \<and> po_cfg p' = po_cfg p1" by (auto simp: signalRefill_def)
    with startCache_backed [OF s] d assms(2-4) show ?thesis by auto
  qed
qed

end

interpretation dir_pool: cache_pool "dirFS names" dir_vis dir_stable ds_crash "env\<lparr>pe_fs := dirFS names\<rparr>" for names env
  by unfold_locales (auto simp: dir_defs split: if_splits option.splits prod.splits)

lemma TryAcquire_item:
  assumes "TryAcquire env ctxErr gen elapsed (p, f) = ((p', f'), Inr params)" "po_ch p = it # rest" "po_ch p' = rest"
  shows "\<exists>p0. po_cfg p0 = po_cfg p \<and> (\<exists>p1. finishItem env it (p0, f) = ((p1, f'), Inr params))"
  using assms
  by (auto simp: TryAcquire_def failAcquire_def Let_def dest!: synchronous_untouched
      split: if_splits option.splits prod.splits list.splits)
    (auto simp: untouched_def intro: exI [of _ "p\<lparr>po_ch := rest\<rparr>"])

lemma Acquire_item:
  assumes "Acquire env timedOut waited gen elapsed (p, f) = Some ((p', f'), Inr params)" "po_ch p = it # rest" "po_ch p' = rest"
  shows "\<exists>p0. po_cfg p0 = po_cfg p \<and> (\<exists>p1. finishItem env it (p0, f) = ((p1, f'), Inr params))"
  using assms
  by (auto simp: Acquire_def failAcquire_def Let_def dest!: synchronous_untouched
      split: if_splits option.splits prod.splits list.splits)
    (auto simp: untouched_def
      intro: exI [of _ "p\<lparr>po_ch := rest, po_acquireWaitNanos := po_acquireWaitNanos p + durationToNanos waited\<rparr>"])

section \<open>Properties\<close>


definition pool_env :: "(dirState, bytes) poolEnv" where
  "pool_env = \<lparr>pe_fs = dirFS [], pe_wd = Inr ''/'', pe_Encode = Inr, pe_Decode = Inr, pe_ValidateWithProof = (\<lambda>_. True)\<rparr>"

definition pool_cfg :: Config where
  "pool_cfg = DefaultConfig\<lparr>cf_FileCacheEnabled := True, cf_FileCacheDir := ''/c''\<rparr>"

definition cached_pool :: "bytes Pool \<times> dirState" where
  "cached_pool = (NewPool pool_cfg\<lparr>po_ch := [\<lparr>it_params = Some ''x'', it_cachePath = ''/c/a.gob''\<rparr>]\<rparr>,
     calm_dir\<lparr>ds_files := [''/c/a.gob'' \<mapsto> (''x'', True)]\<rparr>)"


end
