(* ===== verification/Pool_Runs.thy ===== *)
theory Pool_Runs
  imports Pool
begin

text \<open>
  The pool in operation (\<^verbatim>\<open>internal/preparams/pool.go\<close>).  \<open>pool_step\<close> interleaves the callers of the pool,
  its generators and the refill loop at their accesses to the atomic variables, the channel and the
  signal channel; the refill mutex keeps \<^verbatim>\<open>PauseRefill\<close> and \<^verbatim>\<open>ResumeRefill\<close> out of \<^verbatim>\<open>ensureRefillWorkers\<close>.
  A call of \<^verbatim>\<open>Acquire\<close> or \<^verbatim>\<open>TryAcquire\<close> and the work of one generator are one step each, at their
  channel operation.  \<^verbatim>\<open>inFlight\<close>, an \<^verbatim>\<open>int32\<close> in the code, is an integer that stays between 0 and
  \<^verbatim>\<open>MaxConcurrency\<close>.

  Shown: the bounds on inventory and concurrency, that no generation starts while refilling is paused
  or after \<^verbatim>\<open>Close\<close> has returned, that no generated item is thrown away for lack of room, and that the
  refill loop does not sleep while items are missing.
\<close>

section \<open>Refilling in one go\<close>

declare ensureRefillWorkers.simps [simp del]

text \<open>
  C26.  Undisturbed, \<^verbatim>\<open>ensureRefillWorkers\<close> ends with exactly as many generators in flight as the
  inventory lacks and the limit allows, never fewer than before, and starts none while the pool is
  closed or refilling is paused.
\<close>

theorem ensureRefillWorkers_exact:
  "ensureRefillWorkers p =
     (if refillAllowed p
      then p\<lparr>po_inFlight := max (po_inFlight p)
               (min (cf_MaxConcurrency (po_cfg p)) (cf_TargetSize (po_cfg p) - int (length (po_ch p))))\<rparr>
      else p)"
proof (induction p rule: ensureRefillWorkers.induct)
  case (1 p)
  show ?case
  proof (cases "refillAllowed p \<and> po_inFlight p < cf_MaxConcurrency (po_cfg p) \<and> 0 < deficit (po_inFlight p) p")
    case True
    then show ?thesis
      using 1 by (subst ensureRefillWorkers.simps) (auto simp: deficit_def refillAllowed_def max_def min_def)
  next
    case False
    then show ?thesis
      by (subst ensureRefillWorkers.simps) (cases p, auto simp: deficit_def max_def min_def)
  qed
qed

section \<open>The transition system\<close>

text \<open>Where the refill loop is; \<open>Got a\<close> holds the number of generators it read.\<close>

datatype refillPc = Waiting | Looping | Checked | Got int | Spawning | Exited

text \<open>
  \<open>ru_pending\<close> counts the generators that have not reached the end of their work, \<open>ru_leaving\<close> those that
  have yet to run their deferred calls; \<open>ru_cancelled\<close> tells that the run context is done and
  \<open>ru_stopped\<close> that \<^verbatim>\<open>Close\<close> has returned.
\<close>

record ('f, 'pre) poolRun =
  ru_pool :: "'pre Pool"
  ru_fs :: 'f
  ru_pending :: nat
  ru_leaving :: nat
  ru_pc :: refillPc
  ru_cancelled :: bool
  ru_stopped :: bool

datatype poolLabel = Caller | Control | Refill | Generator

text \<open>The refill mutex is free.\<close>

definition unlocked :: "('f, 'pre) poolRun \<Rightarrow> bool" where
  "unlocked s \<longleftrightarrow> ru_pc s = Waiting \<or> ru_pc s = Exited"

inductive pool_step :: "('f, 'pre) poolEnv \<Rightarrow> ('f, 'pre) poolRun \<Rightarrow> poolLabel \<Rightarrow> ('f, 'pre) poolRun \<Rightarrow> bool" for env where
  step_acquire: "Acquire env timedOut waited gen elapsed (ru_pool s, ru_fs s) = Some ((p', f'), r) \<Longrightarrow>
    pool_step env s Caller (s\<lparr>ru_pool := p', ru_fs := f'\<rparr>)"
| step_try: "TryAcquire env ctxErr gen elapsed (ru_pool s, ru_fs s) = ((p', f'), r) \<Longrightarrow>
    pool_step env s Caller (s\<lparr>ru_pool := p', ru_fs := f'\<rparr>)"
| step_pause: "unlocked s \<Longrightarrow> pool_step env s Control (s\<lparr>ru_pool := PauseRefill (ru_pool s)\<rparr>)"
| step_resume: "unlocked s \<Longrightarrow> pool_step env s Control (s\<lparr>ru_pool := ResumeRefill (ru_pool s)\<rparr>)"
| step_cancel: "pool_step env s Control (s\<lparr>ru_cancelled := True\<rparr>)"
| step_close: "pool_step env s Control (s\<lparr>ru_pool := Close (ru_pool s)\<rparr>)"
| step_closed: "po_closed (ru_pool s) \<Longrightarrow> ru_pending s = 0 \<Longrightarrow> ru_leaving s = 0 \<Longrightarrow> ru_pc s = Exited \<Longrightarrow>
    pool_step env s Control (s\<lparr>ru_stopped := True\<rparr>)"
| step_check: "ru_pc s = Looping \<Longrightarrow>
    pool_step env s Refill (s\<lparr>ru_pc := if refillAllowed (ru_pool s) then Checked else Waiting\<rparr>)"
| step_read: "ru_pc s = Checked \<Longrightarrow> a = po_inFlight (ru_pool s) \<Longrightarrow>
    pool_step env s Refill (s\<lparr>ru_pc := if a \<ge> cf_MaxConcurrency (po_cfg (ru_pool s)) then Waiting else Got a\<rparr>)"
| step_deficit: "ru_pc s = Got a \<Longrightarrow>
    pool_step env s Refill (s\<lparr>ru_pc := if deficit a (ru_pool s) \<le> 0 then Waiting else Spawning\<rparr>)"
| step_spawn: "ru_pc s = Spawning \<Longrightarrow> p = ru_pool s \<Longrightarrow>
    pool_step env s Refill
      (s\<lparr>ru_pool := p\<lparr>po_inFlight := po_inFlight p + 1\<rparr>, ru_pending := ru_pending s + 1, ru_pc := Looping\<rparr>)"
| step_signal: "ru_pc s = Waiting \<Longrightarrow> po_refillCh (ru_pool s) \<Longrightarrow>
    pool_step env s Refill (s\<lparr>ru_pool := (ru_pool s)\<lparr>po_refillCh := False\<rparr>, ru_pc := Looping\<rparr>)"
| step_exit: "ru_pc s = Waiting \<Longrightarrow> ru_cancelled s \<Longrightarrow> pool_step env s Refill (s\<lparr>ru_pc := Exited\<rparr>)"
| step_generate: "ru_pending s > 0 \<Longrightarrow> (runErr \<noteq> None \<or> tookDone \<longrightarrow> ru_cancelled s) \<Longrightarrow>
    generateOne env uuid gen runErr elapsed tookDone (ru_pool s, ru_fs s) = (p', f') \<Longrightarrow>
    pool_step env s Generator
      (s\<lparr>ru_pool := p', ru_fs := f', ru_pending := ru_pending s - 1, ru_leaving := ru_leaving s + 1\<rparr>)"
| step_leave: "ru_leaving s > 0 \<Longrightarrow>
    pool_step env s Generator (s\<lparr>ru_pool := generateLeave (ru_pool s), ru_leaving := ru_leaving s - 1\<rparr>)"

definition pool_started :: "('f, 'pre) poolEnv \<Rightarrow> ('f, 'pre) poolRun \<Rightarrow> bool" where
  "pool_started env s \<longleftrightarrow>
     (\<exists>cfg uuid f. Start env uuid (NewPool cfg, f) = ((ru_pool s, ru_fs s), None))
     \<and> ru_pending s = 0 \<and> ru_leaving s = 0 \<and> \<not> ru_cancelled s \<and> \<not> ru_stopped s
     \<and> ru_pc s = (if po_running (ru_pool s) then Looping else Exited)"

section \<open>The invariant\<close>

text \<open>What the position of the refill loop says of the pool.\<close>

fun pc_inv :: "refillPc \<Rightarrow> nat \<Rightarrow> 'pre Pool \<Rightarrow> bool" where
  "pc_inv Waiting pending p \<longleftrightarrow>
     (\<not> po_refillCh p \<and> refillAllowed p \<and> cf_AutoRefillOnAcquire (po_cfg p) \<longrightarrow>
        po_inFlight p \<ge> cf_MaxConcurrency (po_cfg p) \<or> deficit (po_inFlight p) p \<le> 0)"
| "pc_inv Looping pending p \<longleftrightarrow> True"
| "pc_inv Checked pending p \<longleftrightarrow> \<not> po_refillPaused p"
| "pc_inv (Got b) pending p \<longleftrightarrow> \<not> po_refillPaused p \<and> po_inFlight p \<le> b \<and> b < cf_MaxConcurrency (po_cfg p)
     \<and> (\<not> po_refillCh p \<longrightarrow> po_inFlight p = b)"
| "pc_inv Spawning pending p \<longleftrightarrow> \<not> po_refillPaused p \<and> po_inFlight p < cf_MaxConcurrency (po_cfg p)
     \<and> int (length (po_ch p)) + int pending < cf_TargetSize (po_cfg p)"
| "pc_inv Exited pending p \<longleftrightarrow> True"

definition pool_inv :: "('f, 'pre) poolRun \<Rightarrow> bool" where
  "pool_inv s \<longleftrightarrow>
     po_inFlight (ru_pool s) = int (ru_pending s) + int (ru_leaving s)
     \<and> po_inFlight (ru_pool s) \<le> cf_MaxConcurrency (po_cfg (ru_pool s))
     \<and> int (length (po_ch (ru_pool s))) + int (ru_pending s) \<le> cf_TargetSize (po_cfg (ru_pool s))
     \<and> (ru_stopped s \<longrightarrow> ru_pc s = Exited \<and> po_inFlight (ru_pool s) = 0 \<and> po_closed (ru_pool s))
     \<and> pc_inv (ru_pc s) (ru_pending s) (ru_pool s)"

lemma generateOne_effect:
  assumes "generateOne env uuid gen runErr elapsed tookDone (p, f) = (p', f')"
  shows "po_cfg p' = po_cfg p" "po_closed p' = po_closed p" "po_refillPaused p' = po_refillPaused p"
    "po_inFlight p' = po_inFlight p" "po_refillCh p' = po_refillCh p" "po_running p' = po_running p"
    "length (po_ch p) \<le> length (po_ch p')" "length (po_ch p') \<le> Suc (length (po_ch p))"
  using assms by (auto simp: generateOne_def Let_def split: if_splits sum.splits prod.splits)

lemma consumedD:
  assumes "consumed p p'"
  shows "po_cfg p' = po_cfg p" "po_closed p' = po_closed p" "po_refillPaused p' = po_refillPaused p"
    "po_inFlight p' = po_inFlight p" "po_running p' = po_running p" "\<not> po_refillCh p' \<Longrightarrow> \<not> po_refillCh p"
    "length (po_ch p') \<le> length (po_ch p)"
    "\<not> po_refillCh p' \<Longrightarrow> cf_AutoRefillOnAcquire (po_cfg p) \<Longrightarrow> length (po_ch p') = length (po_ch p)"
  using assms by (auto simp: consumed_def)

lemma pool_inv_caller:
  assumes "pool_inv s" "consumed (ru_pool s) p'"
  shows "pool_inv (s\<lparr>ru_pool := p', ru_fs := f'\<rparr>)"
  using assms(1) consumedD [OF assms(2)]
  by (cases "ru_pc s") (auto simp: pool_inv_def refillAllowed_def deficit_def)

lemma pool_inv_generate:
  assumes "pool_inv s" "ru_pending s > 0"
    and "generateOne env uuid gen runErr elapsed tookDone (ru_pool s, ru_fs s) = (p', f')"
  shows "pool_inv (s\<lparr>ru_pool := p', ru_fs := f', ru_pending := ru_pending s - 1, ru_leaving := ru_leaving s + 1\<rparr>)"
  using assms(1,2) generateOne_effect [OF assms(3)]
  by (cases "ru_pc s") (auto simp: pool_inv_def refillAllowed_def deficit_def)

lemma pool_inv_step:
  assumes "pool_inv s" "pool_step env s l s'" shows "pool_inv s'"
  using assms(2)
proof cases
  case (step_acquire timedOut waited gen elapsed p' f' r)
  then show ?thesis using pool_inv_caller [OF assms(1) Acquire_consumed [OF step_acquire(3)]] by simp
next
  case (step_try ctxErr gen elapsed p' f' r)
  then show ?thesis using pool_inv_caller [OF assms(1) TryAcquire_consumed [OF step_try(3)]] by simp
next
  case (step_generate runErr tookDone uuid gen elapsed p' f')
  then show ?thesis using pool_inv_generate [OF assms(1)] by blast
next
  case step_close
  then show ?thesis using assms(1) by (cases "ru_pc s") (auto simp: pool_inv_def Close_def refillAllowed_def)
next
  case step_leave
  then show ?thesis
    using assms(1) by (cases "ru_pc s") (auto simp: pool_inv_def generateLeave_def signalRefill_def)
qed (use assms(1) in \<open>auto simp: pool_inv_def unlocked_def PauseRefill_def ResumeRefill_def
      signalRefill_def refillAllowed_def deficit_def Let_def\<close>)

text \<open>Starting loads at most as many items as the channel holds.\<close>

definition filled :: "'pre Pool \<Rightarrow> 'pre Pool \<Rightarrow> bool" where
  "filled p p' \<longleftrightarrow> (\<exists>ch. p' = p\<lparr>po_ch := ch\<rparr> \<and> int (length ch) \<le> cf_TargetSize (po_cfg p))"

lemma filled_refl: "int (length (po_ch p)) \<le> cf_TargetSize (po_cfg p) \<Longrightarrow> filled p p"
  unfolding filled_def by (intro exI [of _ "po_ch p"]) simp

lemma filled_upd [simp]: "filled (p\<lparr>po_ch := ch\<rparr>) p' \<longleftrightarrow> filled p p'"
  by (simp add: filled_def)

lemma loadEntries_filled:
  assumes "loadEntries env limit entries (p, f) = ((p', f'), r)" "int (length (po_ch p)) \<le> cf_TargetSize (po_cfg p)"
  shows "filled p p'"
  using assms
proof (induction entries arbitrary: p f)
  case (Cons e entries)
  obtain regular name where "e = (regular, name)" by fastforce
  then show ?case
    using Cons.prems by (auto simp: Let_def filled_refl split: if_splits prod.splits option.splits dest!: Cons.IH)
qed (simp add: filled_refl)

lemma startCache_filled:
  assumes "startCache env uuid (p, f) = ((p', f'), r)" "int (length (po_ch p)) \<le> cf_TargetSize (po_cfg p)"
  shows "filled p p'"
  using assms
  by (auto simp: startCache_def loadFromCache_def Let_def filled_refl
      split: if_splits prod.splits option.splits sum.splits dest!: loadEntries_filled)

lemma started_inv:
  fixes s :: "('f, 'pre) poolRun"
  assumes "pool_started env s" shows "pool_inv s"
proof -
  obtain cfg uuid f where s: "Start env uuid (NewPool cfg, f) = ((ru_pool s, ru_fs s), None)"
    and 0: "ru_pending s = 0" "ru_leaving s = 0" "\<not> ru_stopped s" "ru_pc s = Looping \<or> ru_pc s = Exited"
    using assms by (auto simp: pool_started_def split: if_splits)
  let ?p = "NewPool cfg\<lparr>po_startDone := True\<rparr> :: 'pre Pool"
  have f: "filled ?p p'" if "startCache env uuid (?p, f) = ((p', f'), r)" for p' f' r
    using startCache_filled [OF that] by simp
  have p: "filled ?p (ru_pool s) \<or> (\<exists>p'. filled ?p p' \<and> ru_pool s = signalRefill (p'\<lparr>po_running := True\<rparr>))"
  proof (cases "cf_Enabled cfg")
    case False
    then have "ru_pool s = ?p" using s by (simp add: Start_def Let_def)
    then show ?thesis using filled_refl [of ?p] by simp
  next
    case True
    then show ?thesis using s by (auto simp: Start_def Let_def split: prod.splits option.splits dest!: f)
  qed
  have "po_inFlight (ru_pool s) = 0" "cf_MaxConcurrency (po_cfg (ru_pool s)) \<ge> 1"
      "int (length (po_ch (ru_pool s))) \<le> cf_TargetSize (po_cfg (ru_pool s))"
    using p by (auto simp: filled_def signalRefill_def)
  then show ?thesis using 0 by (auto simp: pool_inv_def)
qed

interpretation pool_runs: invariant_system "pool_started env" "pool_step env" pool_inv for env
  by unfold_locales (auto intro: started_inv pool_inv_step)

section \<open>Properties\<close>

lemma pool_inv_facts:
  assumes "pool_inv s"
  shows "0 \<le> po_inFlight (ru_pool s)" "po_inFlight (ru_pool s) \<le> cf_MaxConcurrency (po_cfg (ru_pool s))"
    "int (length (po_ch (ru_pool s))) + int (ru_pending s) \<le> cf_TargetSize (po_cfg (ru_pool s))"
    "ru_stopped s \<Longrightarrow> po_inFlight (ru_pool s) = 0 \<and> ru_pending s = 0 \<and> ru_pc s = Exited"
  using assms by (auto simp: pool_inv_def)

text \<open>Only the refill loop starts generators, and only when it is not paused.\<close>

lemma more_in_flight:
  assumes "pool_step env s l s'" "pool_inv s" "po_inFlight (ru_pool s') > po_inFlight (ru_pool s)"
  shows "ru_pc s = Spawning" "\<not> po_refillPaused (ru_pool s)" "\<not> ru_stopped s"
proof -
  show "ru_pc s = Spawning"
    using assms(1)
  proof cases
    case (step_acquire timedOut waited gen elapsed p' f' r)
    then show ?thesis using assms(3) consumedD(4) [OF Acquire_consumed [OF step_acquire(3)]] by simp
  next
    case (step_try ctxErr gen elapsed p' f' r)
    then show ?thesis using assms(3) consumedD(4) [OF TryAcquire_consumed [OF step_try(3)]] by simp
  next
    case (step_generate runErr tookDone uuid gen elapsed p' f')
    then show ?thesis using assms(3) generateOne_effect(4) [OF step_generate(5)] by simp
  qed (use assms(3) in \<open>auto simp: PauseRefill_def ResumeRefill_def Close_def generateLeave_def signalRefill_def Let_def
      split: if_splits\<close>)
  with assms(2) show "\<not> po_refillPaused (ru_pool s)" "\<not> ru_stopped s" by (auto simp: pool_inv_def)
qed

text \<open>
  C24.  The pool's bounds, in every state its goroutines can reach from a successful start: between 0
  and \<^verbatim>\<open>MaxConcurrency\<close> generators are in flight and the inventory together with what is being generated
  never exceeds \<^verbatim>\<open>TargetSize\<close>, so a generator that is about to deliver finds room in the channel; a new
  generator starts only in the refill loop, never while refilling is paused and never after
  \<^verbatim>\<open>Close\<close> has returned, when none is left.
\<close>

theorem pool_bounds:
  assumes "executes (pool_step env) s0 ls s" "pool_started env s0"
  shows "0 \<le> sn_InFlight (Pool_Snapshot (ru_pool s))
    \<and> sn_InFlight (Pool_Snapshot (ru_pool s)) \<le> cf_MaxConcurrency (po_cfg (ru_pool s))
    \<and> Pool_Size (ru_pool s) + int (ru_pending s) \<le> cf_TargetSize (po_cfg (ru_pool s))
    \<and> (ru_pending s > 0 \<longrightarrow> Pool_Size (ru_pool s) < cf_TargetSize (po_cfg (ru_pool s)))
    \<and> (ru_stopped s \<longrightarrow> po_inFlight (ru_pool s) = 0)
    \<and> (\<forall>l s'. pool_step env s l s' \<and> (po_refillPaused (ru_pool s) \<or> ru_stopped s) \<longrightarrow>
         po_inFlight (ru_pool s') \<le> po_inFlight (ru_pool s))"
proof -
  have inv: "pool_inv s" by (rule pool_runs.reachable_inv [OF assms(2,1)])
  have "po_inFlight (ru_pool s') \<le> po_inFlight (ru_pool s)"
    if "pool_step env s l s'" "po_refillPaused (ru_pool s) \<or> ru_stopped s" for l s'
    using more_in_flight [OF that(1) inv] that(2) by linarith
  with pool_inv_facts [OF inv] show ?thesis by (auto simp: Pool_Snapshot_def Pool_Size_def)
qed


text \<open>The next step of the refill loop, if it has one, and a pool of one item without file cache.\<close>

definition refill_turn :: "('f, 'pre) poolRun \<Rightarrow> ('f, 'pre) poolRun" where
  "refill_turn s =
     (let p = ru_pool s in
      case ru_pc s of
        Looping \<Rightarrow> s\<lparr>ru_pc := if refillAllowed p then Checked else Waiting\<rparr>
      | Checked \<Rightarrow> s\<lparr>ru_pc := if po_inFlight p \<ge> cf_MaxConcurrency (po_cfg p) then Waiting else Got (po_inFlight p)\<rparr>
      | Got a \<Rightarrow> s\<lparr>ru_pc := if deficit a p \<le> 0 then Waiting else Spawning\<rparr>
      | Spawning \<Rightarrow> s\<lparr>ru_pool := p\<lparr>po_inFlight := po_inFlight p + 1\<rparr>, ru_pending := ru_pending s + 1, ru_pc := Looping\<rparr>
      | Waiting \<Rightarrow> if po_refillCh p then s\<lparr>ru_pool := p\<lparr>po_refillCh := False\<rparr>, ru_pc := Looping\<rparr> else s
      | Exited \<Rightarrow> s)"

lemma refill_turn_step: "refill_turn s = s \<or> pool_step env s Refill (refill_turn s)"
proof (cases "ru_pc s")
  case Looping
  then show ?thesis using step_check [of s env] by (simp add: refill_turn_def)
next
  case Checked
  then show ?thesis using step_read [of s _ env] by (simp add: refill_turn_def Let_def)
next
  case (Got a)
  then show ?thesis using step_deficit [of s a env] by (simp add: refill_turn_def)
next
  case Spawning
  then show ?thesis using step_spawn [of s _ env] by (simp add: refill_turn_def Let_def)
next
  case Waiting
  then show ?thesis using step_signal [of s env] by (simp add: refill_turn_def Let_def)
qed (simp add: refill_turn_def)

lemma refill_turns: "\<exists>ls. executes (pool_step env) s ls ((refill_turn ^^ n) s)"
proof (induction n)
  case (Suc n)
  then obtain ls where ls: "executes (pool_step env) s ls ((refill_turn ^^ n) s)" by blast
  show ?case
    using refill_turn_step [of "(refill_turn ^^ n) s" env]
  proof
    assume "pool_step env ((refill_turn ^^ n) s) Refill (refill_turn ((refill_turn ^^ n) s))"
    from executes.executes_snoc [OF ls this] show ?thesis by auto
  qed (use ls in auto)
qed (auto intro: executes.executes_nil)

definition started_pool :: "bytes Pool" where
  "started_pool = signalRefill (NewPool (DefaultConfig\<lparr>cf_TargetSize := 1\<rparr>)\<lparr>po_startDone := True, po_running := True\<rparr>)"

definition fresh_run :: "(dirState, bytes) poolRun" where
  "fresh_run = \<lparr>ru_pool = started_pool, ru_fs = calm_dir, ru_pending = 0, ru_leaving = 0, ru_pc = Looping,
     ru_cancelled = False, ru_stopped = False\<rparr>"

lemma started_pool_state:
  "po_running started_pool" "po_refillCh started_pool" "refillAllowed started_pool" "po_inFlight started_pool = 0"
  "cf_MaxConcurrency (po_cfg started_pool) = 1" "cf_TargetSize (po_cfg started_pool) = 1" "po_ch started_pool = []"
  "cf_AutoRefillOnAcquire (po_cfg started_pool)"
  by (simp_all add: started_pool_def signalRefill_def refillAllowed_def NewPool_def Let_def DefaultConfig_def)

lemma sample_started: "pool_started pool_env fresh_run"
proof -
  have "Start pool_env ''1'' (NewPool (DefaultConfig\<lparr>cf_TargetSize := 1\<rparr>), calm_dir) = ((started_pool, calm_dir), None)"
    by (simp add: Start_def startCache_def started_pool_def DefaultConfig_def Let_def)
  then show ?thesis unfolding pool_started_def by (auto simp: fresh_run_def started_pool_state)
qed

text \<open>The loop starts one generator, finds the limit reached, takes the pending signal and sleeps.\<close>

lemma sample_turns:
  "(refill_turn ^^ 4) fresh_run = fresh_run\<lparr>ru_pool := started_pool\<lparr>po_inFlight := 1\<rparr>, ru_pending := 1\<rparr>"
  "(refill_turn ^^ 9) fresh_run =
     fresh_run\<lparr>ru_pool := started_pool\<lparr>po_inFlight := 1, po_refillCh := False\<rparr>, ru_pending := 1, ru_pc := Waiting\<rparr>"
  using started_pool_state(3)
  by (simp_all add: numeral_eq_Suc refill_turn_def fresh_run_def started_pool_state deficit_def refillAllowed_def)

theorem pool_bounds_witness:
  "\<exists>ls s. executes (pool_step pool_env) fresh_run ls s \<and> ru_pending s = 1 \<and> sn_InFlight (Pool_Snapshot (ru_pool s)) \<le> 1"
proof -
  obtain ls where e: "executes (pool_step pool_env) fresh_run ls ((refill_turn ^^ 4) fresh_run)" using refill_turns by blast
  have c: "ru_pending ((refill_turn ^^ 4) fresh_run) = 1"
      "cf_MaxConcurrency (po_cfg (ru_pool ((refill_turn ^^ 4) fresh_run))) = 1"
    unfolding sample_turns by (simp_all add: started_pool_state)
  from pool_bounds [OF e sample_started] have
    "sn_InFlight (Pool_Snapshot (ru_pool ((refill_turn ^^ 4) fresh_run))) \<le> 1" unfolding c(2) by blast
  with e c(1) show ?thesis by blast
qed


end
