(* ===== verification/Config_Env.thy ===== *)
theory Config_Env
  imports Pool Execution
begin

text \<open>
  Configuration from the environment: \<^verbatim>\<open>internal/tssbnb/utils/config.go\<close> for the runner and
  \<^verbatim>\<open>tss/preparams_config.go\<close> for the pool.  \<open>getenv\<close> is \<^verbatim>\<open>os.Getenv\<close>, which yields the empty string for
  an unset variable.  \<^verbatim>\<open>strconv.Atoi\<close> and \<^verbatim>\<open>strconv.ParseBool\<close> are written out; \<^verbatim>\<open>time.ParseDuration\<close>, which
  computes fractions in floating point, is the argument \<open>parse\<close>.  Durations are nanoseconds and their
  sums wrap around at 64 bits.

  Shown: whatever the environment holds, a loaded configuration is one its consumer can work with.
\<close>

section \<open>Reading variables\<close>

definition Atoi :: "string \<Rightarrow> int option" where
  "Atoi s =
     (let (neg, digits) =
        (case s of [] \<Rightarrow> (False, [])
         | c # rest \<Rightarrow> if c = CHR ''-'' then (True, rest) else if c = CHR ''+'' then (False, rest) else (False, s))
      in if digits = [] \<or> \<not> list_all is_digit digits then None
         else
           let n = int (dec_value 0 digits); v = (if neg then - n else n) in
           if - (2 ^ 63) \<le> v \<and> v < 2 ^ 63 then Some v else None)"

definition ParseBool :: "string \<Rightarrow> bool option" where
  "ParseBool s =
     (if s \<in> {''1'', ''t'', ''T'', ''TRUE'', ''true'', ''True''} then Some True
      else if s \<in> {''0'', ''f'', ''F'', ''FALSE'', ''false'', ''False''} then Some False
      else None)"

type_synonym env = "string \<Rightarrow> string"
type_synonym parse_duration = "string \<Rightarrow> int option"

definition tss_envDuration :: "parse_duration \<Rightarrow> env \<Rightarrow> string \<Rightarrow> int \<Rightarrow> int" where
  "tss_envDuration parse getenv key fallback =
     (let v = getenv key in
      if v = [] then fallback else (case parse v of None \<Rightarrow> fallback | Some d \<Rightarrow> d))"

definition tss_envInt :: "env \<Rightarrow> string \<Rightarrow> int \<Rightarrow> int" where
  "tss_envInt getenv key fallback =
     (let v = getenv key in
      if v = [] then fallback else (case Atoi v of None \<Rightarrow> fallback | Some n \<Rightarrow> n))"

definition envBool :: "env \<Rightarrow> string \<Rightarrow> bool \<Rightarrow> bool" where
  "envBool getenv key fallback =
     (let v = getenv key in
      if v = [] then fallback else (case ParseBool v of None \<Rightarrow> fallback | Some b \<Rightarrow> b))"

definition envString :: "env \<Rightarrow> string \<Rightarrow> string \<Rightarrow> string" where
  "envString getenv key fallback = (let v = getenv key in if v = [] then fallback else v)"

text \<open>The runner's versions refuse values that are not positive.\<close>

definition utils_envDuration :: "parse_duration \<Rightarrow> env \<Rightarrow> string \<Rightarrow> int \<Rightarrow> int" where
  "utils_envDuration parse getenv key fallback =
     (let v = getenv key in
      if v = [] then fallback
      else (case parse v of None \<Rightarrow> fallback | Some d \<Rightarrow> if d \<le> 0 then fallback else d))"

definition utils_envInt :: "env \<Rightarrow> string \<Rightarrow> int \<Rightarrow> int" where
  "utils_envInt getenv key fallback =
     (let v = getenv key in
      if v = [] then fallback
      else (case Atoi v of None \<Rightarrow> fallback | Some n \<Rightarrow> if n \<le> 0 then fallback else n))"

section \<open>The runner\<close>

definition duration_add :: "int \<Rightarrow> int \<Rightarrow> int" where
  "duration_add a b = (a + b + 2 ^ 63) mod 2 ^ 64 - 2 ^ 63"

definition DefaultRunnerConfig :: RunnerConfig where
  "DefaultRunnerConfig =
     \<lparr>rc_StallWarn = 30 * second, rc_StallFail = 120 * second, rc_StallWarnEvery = 30 * second,
      rc_WatchdogTick = 5 * second, rc_MaxFrameBytes = 2 * 2 ^ 20, rc_InboundQueueCap = 256,
      rc_DedupTTL = 10 * minute, rc_DedupMaxEntries = 10000\<rparr>"

text \<open>The corrections at the end of \<^verbatim>\<open>LoadRunnerConfigFromEnv\<close>.\<close>

definition adjustRunnerConfig :: "RunnerConfig \<Rightarrow> RunnerConfig" where
  "adjustRunnerConfig cfg =
     (let cfg = (if rc_InboundQueueCap cfg < 1 then cfg\<lparr>rc_InboundQueueCap := 1\<rparr> else cfg);
          cfg = (if rc_DedupMaxEntries cfg < 100 then cfg\<lparr>rc_DedupMaxEntries := 100\<rparr> else cfg);
          cfg = (if rc_StallFail cfg \<le> rc_StallWarn cfg
                 then cfg\<lparr>rc_StallFail := duration_add (rc_StallWarn cfg) (30 * second)\<rparr> else cfg);
          cfg = (if rc_StallWarnEvery cfg \<le> 0 then cfg\<lparr>rc_StallWarnEvery := 30 * second\<rparr> else cfg)
      in cfg)"

definition LoadRunnerConfigFromEnv :: "parse_duration \<Rightarrow> env \<Rightarrow> RunnerConfig" where
  "LoadRunnerConfigFromEnv parse getenv =
     (let cfg = DefaultRunnerConfig in
      adjustRunnerConfig
       (cfg\<lparr>rc_StallWarn := utils_envDuration parse getenv ''TSS_STALL_WARN'' (rc_StallWarn cfg),
            rc_StallFail := utils_envDuration parse getenv ''TSS_STALL_FAIL'' (rc_StallFail cfg),
            rc_StallWarnEvery := utils_envDuration parse getenv ''TSS_STALL_WARN_EVERY'' (rc_StallWarnEvery cfg),
            rc_WatchdogTick := utils_envDuration parse getenv ''TSS_WATCHDOG_TICK'' (rc_WatchdogTick cfg),
            rc_DedupTTL := utils_envDuration parse getenv ''TSS_DEDUP_TTL'' (rc_DedupTTL cfg),
            rc_MaxFrameBytes := utils_envInt getenv ''TSS_MAX_FRAME_BYTES'' (rc_MaxFrameBytes cfg),
            rc_InboundQueueCap := utils_envInt getenv ''TSS_INBOUND_QUEUE_CAP'' (rc_InboundQueueCap cfg),
            rc_DedupMaxEntries := utils_envInt getenv ''TSS_DEDUP_MAX_ENTRIES'' (rc_DedupMaxEntries cfg)\<rparr>))"

section \<open>The pool\<close>

record PreParamsConfig =
  pc_Enabled :: bool
  pc_TargetSize :: int
  pc_MaxConcurrency :: int
  pc_GenerationParallelism :: int
  pc_GenerateTimeout :: int
  pc_AcquireTimeout :: int
  pc_RetryBackoff :: int
  pc_SyncFallbackOnEmpty :: bool
  pc_AutoRefillOnAcquire :: bool
  pc_FileCacheEnabled :: bool
  pc_FileCacheDir :: string

definition DefaultPreParamsConfig :: PreParamsConfig where
  "DefaultPreParamsConfig =
     \<lparr>pc_Enabled = True, pc_TargetSize = 5, pc_MaxConcurrency = 1, pc_GenerationParallelism = 2,
      pc_GenerateTimeout = 7 * minute, pc_AcquireTimeout = 45 * second, pc_RetryBackoff = 2 * second,
      pc_SyncFallbackOnEmpty = True, pc_AutoRefillOnAcquire = True, pc_FileCacheEnabled = False,
      pc_FileCacheDir = filepath_Join [''.tmp'', ''tss-preparams'']\<rparr>"

definition normalizePreParamsConfig :: "PreParamsConfig \<Rightarrow> PreParamsConfig" where
  "normalizePreParamsConfig cfg =
     (let cfg = (if pc_TargetSize cfg < 1 then cfg\<lparr>pc_TargetSize := 1\<rparr> else cfg);
          cfg = (if pc_MaxConcurrency cfg < 1 then cfg\<lparr>pc_MaxConcurrency := 1\<rparr> else cfg);
          cfg = (if pc_MaxConcurrency cfg > pc_TargetSize cfg
                 then cfg\<lparr>pc_MaxConcurrency := pc_TargetSize cfg\<rparr> else cfg);
          cfg = (if pc_GenerationParallelism cfg < 1 then cfg\<lparr>pc_GenerationParallelism := 2\<rparr> else cfg);
          cfg = (if pc_GenerateTimeout cfg \<le> 0 then cfg\<lparr>pc_GenerateTimeout := 7 * minute\<rparr> else cfg);
          cfg = (if pc_AcquireTimeout cfg \<le> 0 then cfg\<lparr>pc_AcquireTimeout := 45 * second\<rparr> else cfg);
          cfg = (if pc_RetryBackoff cfg \<le> 0 then cfg\<lparr>pc_RetryBackoff := 2 * second\<rparr> else cfg);
          cfg = (if pc_FileCacheDir cfg = []
                 then cfg\<lparr>pc_FileCacheDir := filepath_Join [''.tmp'', ''tss-preparams'']\<rparr> else cfg)
      in cfg)"

definition LoadPreParamsConfigFromEnv :: "parse_duration \<Rightarrow> env \<Rightarrow> PreParamsConfig" where
  "LoadPreParamsConfigFromEnv parse getenv =
     (let cfg = DefaultPreParamsConfig in
      normalizePreParamsConfig
       (cfg\<lparr>pc_Enabled := envBool getenv ''TSS_PREPARAMS_ENABLED'' (pc_Enabled cfg),
            pc_TargetSize := tss_envInt getenv ''TSS_PREPARAMS_TARGET_SIZE'' (pc_TargetSize cfg),
            pc_MaxConcurrency := tss_envInt getenv ''TSS_PREPARAMS_MAX_CONCURRENCY'' (pc_MaxConcurrency cfg),
            pc_GenerationParallelism :=
              tss_envInt getenv ''TSS_PREPARAMS_GENERATION_PARALLELISM'' (pc_GenerationParallelism cfg),
            pc_GenerateTimeout := tss_envDuration parse getenv ''TSS_PREPARAMS_GENERATE_TIMEOUT'' (pc_GenerateTimeout cfg),
            pc_AcquireTimeout := tss_envDuration parse getenv ''TSS_PREPARAMS_ACQUIRE_TIMEOUT'' (pc_AcquireTimeout cfg),
            pc_RetryBackoff := tss_envDuration parse getenv ''TSS_PREPARAMS_RETRY_BACKOFF'' (pc_RetryBackoff cfg),
            pc_SyncFallbackOnEmpty :=
              envBool getenv ''TSS_PREPARAMS_SYNC_FALLBACK_ON_EMPTY'' (pc_SyncFallbackOnEmpty cfg),
            pc_AutoRefillOnAcquire :=
              envBool getenv ''TSS_PREPARAMS_AUTO_REFILL_ON_ACQUIRE'' (pc_AutoRefillOnAcquire cfg),
            pc_FileCacheEnabled := envBool getenv ''TSS_PREPARAMS_FILE_CACHE_ENABLED'' (pc_FileCacheEnabled cfg),
            pc_FileCacheDir := envString getenv ''TSS_PREPARAMS_FILE_CACHE_DIR'' (pc_FileCacheDir cfg)\<rparr>))"

text \<open>The conversion in \<^verbatim>\<open>newPreParamsPool\<close>.\<close>

definition poolConfig :: "PreParamsConfig \<Rightarrow> Config" where
  "poolConfig cfg =
     \<lparr>cf_Enabled = pc_Enabled cfg, cf_TargetSize = pc_TargetSize cfg, cf_MaxConcurrency = pc_MaxConcurrency cfg,
      cf_GenerationParallelism = pc_GenerationParallelism cfg, cf_GenerateTimeout = pc_GenerateTimeout cfg,
      cf_AcquireTimeout = pc_AcquireTimeout cfg, cf_RetryBackoff = pc_RetryBackoff cfg,
      cf_SyncFallbackOnEmpty = pc_SyncFallbackOnEmpty cfg, cf_AutoRefillOnAcquire = pc_AutoRefillOnAcquire cfg,
      cf_FileCacheEnabled = pc_FileCacheEnabled cfg, cf_FileCacheDir = pc_FileCacheDir cfg\<rparr>"

section \<open>Properties\<close>

lemma second_pos [simp]: "0 < second" "0 < minute"
  by (simp_all add: second_def minute_def)

lemma utils_env_pos [simp]:
  "0 < fallback \<Longrightarrow> 0 < utils_envDuration parse getenv key fallback"
  "0 < fallback \<Longrightarrow> 0 < utils_envInt getenv key fallback"
  by (auto simp: utils_envDuration_def utils_envInt_def Let_def split: option.splits)

lemma duration_add_small: "0 \<le> a \<Longrightarrow> 0 \<le> b \<Longrightarrow> a + b < 2 ^ 63 \<Longrightarrow> duration_add a b = a + b"
  by (simp add: duration_add_def)

lemma normalized_unchanged:
  "po_cfg (NewPool (poolConfig (normalizePreParamsConfig cfg))) = poolConfig (normalizePreParamsConfig cfg)"
proof -
  let ?n = "normalizePreParamsConfig cfg"
  have d: "filepath_Join [''.tmp'', ''tss-preparams''] \<noteq> []" by code_simp
  have "1 \<le> pc_TargetSize ?n" "1 \<le> pc_MaxConcurrency ?n" "pc_MaxConcurrency ?n \<le> pc_TargetSize ?n"
      "1 \<le> pc_GenerationParallelism ?n" "0 < pc_GenerateTimeout ?n" "0 < pc_AcquireTimeout ?n" "0 < pc_RetryBackoff ?n"
      "pc_FileCacheDir ?n \<noteq> []"
    using d by (simp_all add: normalizePreParamsConfig_def Let_def)
  then show ?thesis by (simp add: NewPool_def poolConfig_def)
qed

lemma adjusted_fields:
  "rc_StallWarn (adjustRunnerConfig cfg) = rc_StallWarn cfg" "rc_WatchdogTick (adjustRunnerConfig cfg) = rc_WatchdogTick cfg"
  "rc_DedupTTL (adjustRunnerConfig cfg) = rc_DedupTTL cfg" "rc_MaxFrameBytes (adjustRunnerConfig cfg) = rc_MaxFrameBytes cfg"
  "1 \<le> rc_InboundQueueCap (adjustRunnerConfig cfg)" "100 \<le> rc_DedupMaxEntries (adjustRunnerConfig cfg)"
  "0 < rc_StallWarnEvery (adjustRunnerConfig cfg)"
  "rc_StallWarn cfg < rc_StallFail (adjustRunnerConfig cfg)
   \<or> rc_StallFail (adjustRunnerConfig cfg) = duration_add (rc_StallWarn cfg) (30 * second)"
  by (simp_all add: adjustRunnerConfig_def Let_def)

text \<open>
  C40.  Whatever the environment holds, the runner's configuration has positive limits and periods, a
  queue, and at least a hundred entries for the deduper, and it warns of a stall before it fails the
  session unless the warning period is within thirty seconds of the end of 64-bit time; and the
  pool takes a loaded configuration exactly as it is.
\<close>

theorem loaded_configuration_usable:
  "let c = LoadRunnerConfigFromEnv parse getenv in
     1 \<le> rc_InboundQueueCap c \<and> 100 \<le> rc_DedupMaxEntries c \<and> 0 < rc_MaxFrameBytes c \<and> 0 < rc_DedupTTL c
     \<and> 0 < rc_StallWarn c \<and> 0 < rc_StallWarnEvery c \<and> 0 < rc_WatchdogTick c
     \<and> (rc_StallWarn c < rc_StallFail c \<or> 2 ^ 63 \<le> rc_StallWarn c + 30 * second)
     \<and> po_cfg (NewPool (poolConfig (LoadPreParamsConfigFromEnv parse getenv)))
         = poolConfig (LoadPreParamsConfigFromEnv parse getenv)"
proof -
  let ?c = "LoadRunnerConfigFromEnv parse getenv"
  have p: "0 < rc_StallWarn ?c" "0 < rc_WatchdogTick ?c" "0 < rc_DedupTTL ?c" "0 < rc_MaxFrameBytes ?c"
    by (simp_all add: LoadRunnerConfigFromEnv_def Let_def adjusted_fields(1-4) DefaultRunnerConfig_def)
  have f: "1 \<le> rc_InboundQueueCap ?c" "100 \<le> rc_DedupMaxEntries ?c" "0 < rc_StallWarnEvery ?c"
      "rc_StallWarn ?c < rc_StallFail ?c \<or> rc_StallFail ?c = duration_add (rc_StallWarn ?c) (30 * second)"
    unfolding LoadRunnerConfigFromEnv_def Let_def adjusted_fields(1) by (rule adjusted_fields)+
  have "rc_StallWarn ?c < rc_StallFail ?c \<or> 2 ^ 63 \<le> rc_StallWarn ?c + 30 * second"
    using f(4) duration_add_small [of "rc_StallWarn ?c" "30 * second"] p(1) second_pos(1)
    by (cases "rc_StallWarn ?c + 30 * second < 2 ^ 63") linarith+
  with p f(1-3) show ?thesis
    unfolding Let_def by (simp add: LoadPreParamsConfigFromEnv_def normalized_unchanged Let_def)
qed

end
