(* ===== verification/Api.thy ===== *)
theory Api
  imports Key_Generation Pool_Runs Config_Env
begin

text \<open>
  The public package \<^verbatim>\<open>tss\<close>: \<^verbatim>\<open>service.go\<close>, \<^verbatim>\<open>derivation.go\<close> and \<^verbatim>\<open>preparams_handle.go\<close>, with the request
  checks of \<^verbatim>\<open>internal/tss/requests/validate.go\<close> and the pool management of \<^verbatim>\<open>internal/tss/service\<close>
  (\<^verbatim>\<open>service.go\<close>, \<^verbatim>\<open>snapshot.go\<close>).  A transport is a value \<open>'t\<close> and a nil one \<open>None\<close>.  Method names that also
  occur in the internal packages carry the prefix \<open>tss_\<close>.

  Shown: exactly which requests are accepted, that the public types lose nothing on the way to the
  internal ones and back, and that signing through the API always commits to the context it derives for.
\<close>

section \<open>Request checks\<close>

record SessionDescriptor =
  sd_SessionID :: string
  sd_OrgID :: string
  sd_KeyID :: string
  sd_Parties :: "string list"
  sd_Threshold :: u32

record DKGRequest =
  dr_Session :: SessionDescriptor
  dr_LocalPartyID :: string
  dr_HasTransport :: bool

record SignRequest =
  sr_Session :: SessionDescriptor
  sr_LocalPartyID :: string
  sr_Digest :: bytes
  sr_HasTransport :: bool

definition IsValidSessionDescriptor :: "SessionDescriptor \<Rightarrow> bool" where
  "IsValidSessionDescriptor session =
     (if sd_SessionID session = [] \<or> sd_OrgID session = [] then False
      else if length (sd_Parties session) = 0 \<or> sd_Threshold session = 0 then False
      else True)"

definition ValidateDKG :: "DKGRequest \<Rightarrow> error \<Rightarrow> error \<Rightarrow> error \<Rightarrow> error option" where
  "ValidateDKG req invalidSessionErr localPartyErr transportErr =
     (if \<not> IsValidSessionDescriptor (dr_Session req) then Some invalidSessionErr
      else if TrimSpace (dr_LocalPartyID req) = [] then Some localPartyErr
      else if \<not> dr_HasTransport req then Some transportErr
      else None)"

definition ValidateSign :: "SignRequest \<Rightarrow> error \<Rightarrow> error \<Rightarrow> error \<Rightarrow> error \<Rightarrow> error \<Rightarrow> error option" where
  "ValidateSign req invalidSessionErr localPartyErr keyIDErr digestErr transportErr =
     (if \<not> IsValidSessionDescriptor (sr_Session req) then Some invalidSessionErr
      else if TrimSpace (sr_LocalPartyID req) = [] then Some localPartyErr
      else if TrimSpace (sd_KeyID (sr_Session req)) = [] then Some keyIDErr
      else if length (sr_Digest req) = 0 then Some digestErr
      else if \<not> sr_HasTransport req then Some transportErr
      else None)"

section \<open>Derivation contexts\<close>

record DerivationContext =
  dc_ProfileID :: string
  dc_ProfileTemplateID :: string
  dc_Chain :: string
  dc_Algorithm :: string
  dc_Curve :: string
  dc_Scheme :: string
  dc_PublicKeyFormat :: string
  dc_AccountPath :: string
  dc_ChildPath :: string
  dc_FullPath :: string
  dc_AddressEncoding :: string
  dc_ExpectedAddress :: string
  dc_DerivedPublicKey :: string
  dc_Descriptor :: string
  dc_DescriptorVersion :: u32
  dc_ProfileVersion :: u32
  dc_KeyVersion :: u32

definition toCoreDerivationContext :: "DerivationContext \<Rightarrow> Context" where
  "toCoreDerivationContext inp =
     \<lparr>ctx_ProfileID = dc_ProfileID inp, ctx_ProfileTemplateID = dc_ProfileTemplateID inp,
      ctx_Chain = dc_Chain inp, ctx_Algorithm = dc_Algorithm inp, ctx_Curve = dc_Curve inp,
      ctx_Scheme = dc_Scheme inp, ctx_PublicKeyFormat = dc_PublicKeyFormat inp,
      ctx_AccountPath = dc_AccountPath inp, ctx_ChildPath = dc_ChildPath inp, ctx_FullPath = dc_FullPath inp,
      ctx_AddressEncoding = dc_AddressEncoding inp, ctx_ExpectedAddress = dc_ExpectedAddress inp,
      ctx_DerivedPublicKey = dc_DerivedPublicKey inp, ctx_Descriptor = dc_Descriptor inp,
      ctx_DescriptorVersion = dc_DescriptorVersion inp, ctx_ProfileVersion = dc_ProfileVersion inp,
      ctx_KeyVersion = dc_KeyVersion inp\<rparr>"

definition fromCoreDerivationContext :: "Context \<Rightarrow> DerivationContext" where
  "fromCoreDerivationContext inp =
     \<lparr>dc_ProfileID = ctx_ProfileID inp, dc_ProfileTemplateID = ctx_ProfileTemplateID inp,
      dc_Chain = ctx_Chain inp, dc_Algorithm = ctx_Algorithm inp, dc_Curve = ctx_Curve inp,
      dc_Scheme = ctx_Scheme inp, dc_PublicKeyFormat = ctx_PublicKeyFormat inp,
      dc_AccountPath = ctx_AccountPath inp, dc_ChildPath = ctx_ChildPath inp, dc_FullPath = ctx_FullPath inp,
      dc_AddressEncoding = ctx_AddressEncoding inp, dc_ExpectedAddress = ctx_ExpectedAddress inp,
      dc_DerivedPublicKey = ctx_DerivedPublicKey inp, dc_Descriptor = ctx_Descriptor inp,
      dc_DescriptorVersion = ctx_DescriptorVersion inp, dc_ProfileVersion = ctx_ProfileVersion inp,
      dc_KeyVersion = ctx_KeyVersion inp\<rparr>"

definition NormalizeDerivationContext :: "curve \<Rightarrow> DerivationContext \<Rightarrow> DerivationContext result" where
  "NormalizeDerivationContext c inp =
     (case NormalizeContext c (toCoreDerivationContext inp) of
        Inl err \<Rightarrow> Inl err
      | Inr out \<Rightarrow> Inr (fromCoreDerivationContext out))"

definition DerivationContextHashV1 :: "curve \<Rightarrow> DerivationContext \<Rightarrow> string result" where
  "DerivationContextHashV1 c inp = HashV1 c (toCoreDerivationContext inp)"

definition DeriveECDSAChildPublicKey ::
  "curve \<Rightarrow> ckd_fun \<Rightarrow> string \<Rightarrow> bytes \<Rightarrow> DerivationContext \<Rightarrow> string result" where
  "DeriveECDSAChildPublicKey c ckd accountPublicKey chainCode ctx =
     (case DecodeUncompressedSecp256k1Hex c accountPublicKey of
        Inl err \<Rightarrow> Inl err
      | Inr accountPub \<Rightarrow>
          (case DeriveECDSAChildKeyForContext c ckd (Some accountPub) chainCode (toCoreDerivationContext ctx) of
             Inl err \<Rightarrow> Inl err
           | Inr child \<Rightarrow> Inr (ck_PublicKeyHex child)))"

section \<open>Requests\<close>

record DKGSessionDescriptor =
  ds_SessionID :: string
  ds_OrgID :: string
  ds_KeyID :: string
  ds_Parties :: "string list"
  ds_Threshold :: u32
  ds_Algorithm :: string
  ds_Curve :: string

record SignSessionDescriptor =
  ss_SessionID :: string
  ss_OrgID :: string
  ss_KeyID :: string
  ss_Parties :: "string list"
  ss_Threshold :: u32
  ss_Algorithm :: string
  ss_Curve :: string
  ss_Chain :: string

record 't DKGSessionRequest =
  dq_Session :: DKGSessionDescriptor
  dq_LocalPartyID :: string
  dq_OpaqueDescriptorFingerprint :: bytes
  dq_DerivationMaterial :: "DKGDerivationMaterial option"
  dq_Transport :: "'t option"

record 't SignSessionRequest =
  sq_Session :: SignSessionDescriptor
  sq_LocalPartyID :: string
  sq_Digest :: bytes
  sq_DerivationContext :: "DerivationContext option"
  sq_Transport :: "'t option"

definition derivationMaterialChainCode :: "DKGDerivationMaterial option \<Rightarrow> string" where
  "derivationMaterialChainCode material = (case material of None \<Rightarrow> [] | Some m \<Rightarrow> dd_ChainCode m)"

definition derivationMaterialScheme :: "DKGDerivationMaterial option \<Rightarrow> string" where
  "derivationMaterialScheme material = (case material of None \<Rightarrow> [] | Some m \<Rightarrow> dd_DerivationScheme m)"

definition validateDerivationContextForSession ::
  "curve \<Rightarrow> DerivationContext \<Rightarrow> SignSessionDescriptor \<Rightarrow> unit result" where
  "validateDerivationContextForSession c ctx session =
     (case NormalizeContext c (toCoreDerivationContext ctx) of
        Inl err \<Rightarrow> Inl err
      | Inr normalized \<Rightarrow>
          MatchSession c normalized
            \<lparr>ses_Algorithm = ss_Algorithm session, ses_Curve = ss_Curve session, ses_Chain = ss_Chain session\<rparr>)"

definition DKG_Validate :: "'t DKGSessionRequest \<Rightarrow> unit result" where
  "DKG_Validate r =
     (case ValidateDKG
             \<lparr>dr_Session = \<lparr>sd_SessionID = ds_SessionID (dq_Session r), sd_OrgID = ds_OrgID (dq_Session r),
                sd_KeyID = ds_KeyID (dq_Session r), sd_Parties = ds_Parties (dq_Session r),
                sd_Threshold = ds_Threshold (dq_Session r)\<rparr>,
              dr_LocalPartyID = dq_LocalPartyID r, dr_HasTransport = (dq_Transport r \<noteq> None)\<rparr>
             (Sentinel ErrInvalidSessionDescriptor) (Sentinel ErrLocalPartyRequired) (Sentinel ErrTransportRequired) of
        Some err \<Rightarrow> Inl err
      | None \<Rightarrow>
          let algorithm0 = ToLower (TrimSpace (ds_Algorithm (dq_Session r)));
              algorithm = (if algorithm0 = [] then AlgorithmECDSA else algorithm0);
              curve0 = ToLower (TrimSpace (ds_Curve (dq_Session r)));
              curve = (if curve0 = [] \<and> algorithm = AlgorithmECDSA then CurveSecp256k1 else curve0)
          in if (algorithm \<noteq> AlgorithmECDSA \<or> curve \<noteq> CurveSecp256k1)
                \<and> (algorithm \<noteq> AlgorithmEdDSA \<or> curve \<noteq> CurveEd25519)
             then Inl (Sentinel ErrUnsupportedAlgorithmCurve)
             else if IsECDSAAlgorithm (ds_Algorithm (dq_Session r)) \<and> TrimSpace (ds_KeyID (dq_Session r)) = []
             then Inl (Sentinel ErrKeyIDRequired)
             else (case ValidateDKGMaterial (ds_Algorithm (dq_Session r))
                          \<lparr>dm_ChainCode = derivationMaterialChainCode (dq_DerivationMaterial r),
                           dm_DerivationScheme = derivationMaterialScheme (dq_DerivationMaterial r)\<rparr> of
                     Inl err \<Rightarrow> Inl err
                   | Inr _ \<Rightarrow> Inr ()))"

definition Sign_Validate :: "curve \<Rightarrow> 't SignSessionRequest \<Rightarrow> unit result" where
  "Sign_Validate c r =
     (case ValidateSign
             \<lparr>sr_Session = \<lparr>sd_SessionID = ss_SessionID (sq_Session r), sd_OrgID = ss_OrgID (sq_Session r),
                sd_KeyID = ss_KeyID (sq_Session r), sd_Parties = ss_Parties (sq_Session r),
                sd_Threshold = ss_Threshold (sq_Session r)\<rparr>,
              sr_LocalPartyID = sq_LocalPartyID r, sr_Digest = sq_Digest r,
              sr_HasTransport = (sq_Transport r \<noteq> None)\<rparr>
             (Sentinel ErrInvalidSessionDescriptor) (Sentinel ErrLocalPartyRequired) (Sentinel ErrKeyIDRequired)
             (Sentinel ErrDigestMissing) (Sentinel ErrTransportRequired) of
        Some err \<Rightarrow> Inl err
      | None \<Rightarrow>
          (case sq_DerivationContext r of
             None \<Rightarrow> Inl (Sentinel ErrDerivationContextRequired)
           | Some ctx \<Rightarrow> validateDerivationContextForSession c ctx (sq_Session r)))"

section \<open>Sessions\<close>

definition buildDKGInput :: "'t DKGSessionRequest \<Rightarrow> DKGInput" where
  "buildDKGInput req =
     (let material = (case dq_DerivationMaterial req of
            None \<Rightarrow> \<lparr>dd_ChainCode = [], dd_DerivationScheme = []\<rparr>
          | Some m \<Rightarrow> \<lparr>dd_ChainCode = dd_ChainCode m, dd_DerivationScheme = dd_DerivationScheme m\<rparr>)
      in \<lparr>di_SessionID = ds_SessionID (dq_Session req), di_LocalPartyID = dq_LocalPartyID req,
          di_OrgID = ds_OrgID (dq_Session req), di_KeyID = ds_KeyID (dq_Session req),
          di_OpaqueDescriptorFingerprint = [] @ dq_OpaqueDescriptorFingerprint req,
          di_Parties = ds_Parties (dq_Session req), di_Threshold = ds_Threshold (dq_Session req),
          di_Curve = ds_Curve (dq_Session req), di_Algorithm = ds_Algorithm (dq_Session req),
          di_DerivationMaterial = material, di_EmptyKeyErr = Some (Sentinel ErrKeyIDRequired),
          di_MissingPub = Some (Sentinel ErrMissingDKGPublicKey)\<rparr>)"

definition tss_RunDKGSession ::
  "('t, 'p, 'm, 'pre) libs \<Rightarrow> occurrence list \<Rightarrow> 't DKGSessionRequest
   \<Rightarrow> ('w, 'pre) Service \<times> 'w \<Rightarrow> ((('w, 'pre) Service \<times> 'w) \<times> DKGOutput result) option" where
  "tss_RunDKGSession lib occ req sw =
     (case DKG_Validate req of
        Inl err \<Rightarrow> Some (sw, Inl err)
      | Inr _ \<Rightarrow> RunDKGSession lib (the (dq_Transport req)) occ (buildDKGInput req) sw)"

text \<open>
  A public handle is an interface: nil, a value of a foreign type, or a pointer to the package's own
  type, which may be nil and may hold a nil internal handle.
\<close>

datatype DKGPreParamsHandle = NilInterface | ForeignType | Own "addr option option"

definition unwrapDKGPreParamsHandle :: "DKGPreParamsHandle \<Rightarrow> addr result" where
  "unwrapDKGPreParamsHandle handle =
     (case handle of
        Own (Some (Some a)) \<Rightarrow> Inr a
      | _ \<Rightarrow> Inl (Sentinel ErrInvalidPreParamsHandle))"

definition tss_Discard :: "'pre heap \<Rightarrow> addr option option \<Rightarrow> 'pre heap \<times> error option" where
  "tss_Discard h handle =
     (case handle of
        Some (Some a) \<Rightarrow> Discard h (Some a)
      | _ \<Rightarrow> (h, Some (Sentinel ErrInvalidPreParamsHandle)))"

definition tss_AcquireDKGPreParams ::
  "('w, 'pre) Service \<Rightarrow> 'pre heap \<times> 'w \<Rightarrow> ('pre heap \<times> 'w) \<times> DKGPreParamsHandle result" where
  "tss_AcquireDKGPreParams s hw =
     (case AcquireDKGPreParams s hw of
        (hw, Inl err) \<Rightarrow> (hw, Inl err)
      | (hw, Inr handle) \<Rightarrow> (hw, Inr (Own (Some (Some handle)))))"

definition tss_TryAcquireDKGPreParams ::
  "('w, 'pre) Service \<Rightarrow> 'pre heap \<times> 'w \<Rightarrow> ('pre heap \<times> 'w) \<times> DKGPreParamsHandle result" where
  "tss_TryAcquireDKGPreParams s hw =
     (case TryAcquireDKGPreParams s hw of
        (hw, Inl err) \<Rightarrow> (hw, Inl err)
      | (hw, Inr handle) \<Rightarrow> (hw, Inr (Own (Some (Some handle)))))"

definition tss_RunDKGSessionWithPreParams ::
  "('t, 'p, 'm, 'pre) libs \<Rightarrow> occurrence list \<Rightarrow> 't DKGSessionRequest \<Rightarrow> DKGPreParamsHandle \<Rightarrow> 'pre heap
   \<Rightarrow> ('w, 'pre) Service \<times> 'w \<Rightarrow> ('pre heap \<times> (('w, 'pre) Service \<times> 'w) \<times> DKGOutput result) option" where
  "tss_RunDKGSessionWithPreParams lib occ req handle h sw =
     (case DKG_Validate req of
        Inl err \<Rightarrow> Some (h, sw, Inl err)
      | Inr _ \<Rightarrow>
          (case unwrapDKGPreParamsHandle handle of
             Inl err \<Rightarrow> Some (h, sw, Inl err)
           | Inr internalHandle \<Rightarrow>
               RunDKGSessionWithPreParams lib (the (dq_Transport req)) occ (buildDKGInput req) (Some internalHandle) h sw))"

definition signInput :: "'t SignSessionRequest \<Rightarrow> DerivationContext \<Rightarrow> string \<Rightarrow> SignInput" where
  "signInput req normalized hash =
     \<lparr>sg_SessionID = ss_SessionID (sq_Session req), sg_LocalPartyID = sq_LocalPartyID req,
      sg_OrgID = ss_OrgID (sq_Session req), sg_KeyID = ss_KeyID (sq_Session req),
      sg_Parties = ss_Parties (sq_Session req), sg_Digest = sq_Digest req,
      sg_Algorithm = ss_Algorithm (sq_Session req), sg_Curve = ss_Curve (sq_Session req),
      sg_Chain = ss_Chain (sq_Session req), sg_DerivationContext = toCoreDerivationContext normalized,
      sg_DerivationContextHash = hash, sg_EmptyKeyErr = Some (Sentinel ErrShareNotFound)\<rparr>"

definition tss_RunSignSession ::
  "('t, 'p, 'm, 'pre) libs \<Rightarrow> occurrence list \<Rightarrow> 't SignSessionRequest
   \<Rightarrow> ('w, 'pre) Service \<times> 'w \<Rightarrow> ((('w, 'pre) Service \<times> 'w) \<times> error option) option" where
  "tss_RunSignSession lib occ req sw =
     (case Sign_Validate (lb_curve lib) req of
        Inl err \<Rightarrow> Some (sw, Some err)
      | Inr _ \<Rightarrow>
          (case NormalizeDerivationContext (lb_curve lib) (the (sq_DerivationContext req)) of
             Inl err \<Rightarrow> Some (sw, Some err)
           | Inr normalized \<Rightarrow>
               (case DerivationContextHashV1 (lb_curve lib) normalized of
                  Inl err \<Rightarrow> Some (sw, Some err)
                | Inr hash \<Rightarrow> RunSignSession lib (the (sq_Transport req)) occ (signInput req normalized hash) sw)))"

section \<open>Management of the pool\<close>

text \<open>
  The managed pool as the service sees it.  \<open>lp_Refill\<close> holds the two methods of a \<^verbatim>\<open>RefillController\<close> and
  \<open>lp_Snapshot\<close> that of a \<^verbatim>\<open>SnapshotProvider\<close>, if the pool is one.
\<close>

record ('w, 'pre) LifecyclePool = "('w, 'pre) PreParamsPool" +
  lp_Start :: "'w \<Rightarrow> 'w \<times> error option"
  lp_Close :: "'w \<Rightarrow> 'w \<times> error option"
  lp_Size :: "'w \<Rightarrow> int"
  lp_Refill :: "(('w \<Rightarrow> 'w) \<times> ('w \<Rightarrow> 'w)) option"
  lp_Snapshot :: "('w \<Rightarrow> Snapshot) option"

definition StartPreParamsPool :: "('w, 'pre) LifecyclePool option \<Rightarrow> 'w \<Rightarrow> 'w \<times> error option" where
  "StartPreParamsPool pool w = (case pool of None \<Rightarrow> (w, None) | Some p \<Rightarrow> lp_Start p w)"

definition StopPreParamsPool :: "('w, 'pre) LifecyclePool option \<Rightarrow> 'w \<Rightarrow> 'w \<times> error option" where
  "StopPreParamsPool pool w = (case pool of None \<Rightarrow> (w, None) | Some p \<Rightarrow> lp_Close p w)"

definition PausePreParamsRefill :: "('w, 'pre) LifecyclePool option \<Rightarrow> 'w \<Rightarrow> 'w" where
  "PausePreParamsRefill pool w =
     (case pool of None \<Rightarrow> w | Some p \<Rightarrow> (case lp_Refill p of None \<Rightarrow> w | Some (pause, resume) \<Rightarrow> pause w))"

definition ResumePreParamsRefill :: "('w, 'pre) LifecyclePool option \<Rightarrow> 'w \<Rightarrow> 'w" where
  "ResumePreParamsRefill pool w =
     (case pool of None \<Rightarrow> w | Some p \<Rightarrow> (case lp_Refill p of None \<Rightarrow> w | Some (pause, resume) \<Rightarrow> resume w))"

record ServiceSnapshot =
  ns_PreParamsPoolSize :: int
  ns_PreParamsGenerationInFlight :: int
  ns_PreParamsSyncFallbackCount :: u64
  ns_PreParamsAcquireWaitNanos :: u64
  ns_PreParamsAcquiredCount :: u64
  ns_PreParamsConsumedCount :: u64
  ns_PreParamsDiscardedBeforeStartCount :: u64
  ns_PreParamsAcquireFailedCount :: u64
  ns_PreParamsConsumeConflictCount :: u64

text \<open>\<open>pool\<close> is the size that a pool reports and \<open>provider\<close> the snapshot of a provider.\<close>

definition BuildSnapshot :: "int option \<Rightarrow> Snapshot option \<Rightarrow> HandleMetrics \<Rightarrow> ServiceSnapshot" where
  "BuildSnapshot pool provider handles =
     (let snapshot =
            \<lparr>ns_PreParamsPoolSize = 0, ns_PreParamsGenerationInFlight = 0, ns_PreParamsSyncFallbackCount = 0,
             ns_PreParamsAcquireWaitNanos = 0, ns_PreParamsAcquiredCount = 0,
             ns_PreParamsConsumedCount = hm_ConsumedCount handles,
             ns_PreParamsDiscardedBeforeStartCount = hm_DiscardedBeforeStartCount handles,
             ns_PreParamsAcquireFailedCount = 0,
             ns_PreParamsConsumeConflictCount = hm_ConsumeConflictCount handles\<rparr>;
          snapshot = (case pool of None \<Rightarrow> snapshot | Some n \<Rightarrow> snapshot\<lparr>ns_PreParamsPoolSize := n\<rparr>)
      in case provider of
           None \<Rightarrow> snapshot
         | Some ps \<Rightarrow>
             let snapshot = snapshot\<lparr>ns_PreParamsGenerationInFlight := sn_InFlight ps,
                   ns_PreParamsSyncFallbackCount := sn_SyncFallbackCount ps,
                   ns_PreParamsAcquireWaitNanos := sn_AcquireWaitNanos ps,
                   ns_PreParamsAcquiredCount := sn_AcquireCount ps,
                   ns_PreParamsAcquireFailedCount := sn_AcquireFailedCount ps\<rparr>
             in if ns_PreParamsPoolSize snapshot = 0 then snapshot\<lparr>ns_PreParamsPoolSize := sn_Size ps\<rparr>
                else snapshot)"

definition Service_Snapshot :: "('w, 'pre) LifecyclePool option \<Rightarrow> 'pre heap \<Rightarrow> addr \<Rightarrow> 'w \<Rightarrow> ServiceSnapshot" where
  "Service_Snapshot pool h binding w =
     BuildSnapshot (map_option (\<lambda>p. lp_Size p w) pool)
       (case pool of None \<Rightarrow> None | Some p \<Rightarrow> map_option (\<lambda>snapshot. snapshot w) (lp_Snapshot p))
       (Binding_Snapshot h (Some binding))"

text \<open>
  The pool of \<open>Pool\<close> in that role, on a world that holds it first.  A call on an empty pool that nothing
  else fills waits until its deadline \<open>expired\<close>.
\<close>

definition managedPool ::
  "('f, 'pre) poolEnv \<Rightarrow> string \<Rightarrow> error \<Rightarrow> int \<Rightarrow> 'pre option result \<Rightarrow> int
   \<Rightarrow> (('pre Pool \<times> 'f) \<times> 'w, 'pre) LifecyclePool" where
  "managedPool env uuid expired waited gen elapsed =
     \<lparr>pp_Acquire = (\<lambda>(pf, w).
        case Acquire env (if po_ch (fst pf) = [] then Some expired else None) waited gen elapsed pf of
          None \<Rightarrow> ((pf, w), Inl expired)
        | Some (pf, r) \<Rightarrow> ((pf, w), r)),
      pp_TryAcquire = Some (\<lambda>(pf, w). case TryAcquire env None gen elapsed pf of (pf, r) \<Rightarrow> ((pf, w), r)),
      lp_Start = (\<lambda>(pf, w). case Start env uuid pf of (pf, err) \<Rightarrow> ((pf, w), err)),
      lp_Close = (\<lambda>((p, f), w). (((Close p, f), w), None)),
      lp_Size = (\<lambda>((p, f), w). Pool_Size p),
      lp_Refill = Some (\<lambda>((p, f), w). ((PauseRefill p, f), w), \<lambda>((p, f), w). ((ResumeRefill p, f), w)),
      lp_Snapshot = Some (\<lambda>((p, f), w). Pool_Snapshot p)\<rparr>"

text \<open>
  The methods of the public service on its implementation.  \<open>None\<close> is a nil service or one without an
  implementation: two methods are guarded against it, the others panic.
\<close>

definition tss_StartPreParamsPool :: "('w, 'pre) LifecyclePool option option \<Rightarrow> 'w \<Rightarrow> 'w \<times> error option" where
  "tss_StartPreParamsPool s w =
     (case s of None \<Rightarrow> (w, Some (go_panic ''nil pointer dereference'')) | Some impl \<Rightarrow> StartPreParamsPool impl w)"

definition tss_StopPreParamsPool :: "('w, 'pre) LifecyclePool option option \<Rightarrow> 'w \<Rightarrow> 'w \<times> error option" where
  "tss_StopPreParamsPool s w =
     (case s of None \<Rightarrow> (w, Some (go_panic ''nil pointer dereference'')) | Some impl \<Rightarrow> StopPreParamsPool impl w)"

definition tss_PausePreParamsRefill :: "('w, 'pre) LifecyclePool option option \<Rightarrow> 'w \<Rightarrow> 'w" where
  "tss_PausePreParamsRefill s w = (case s of None \<Rightarrow> w | Some impl \<Rightarrow> PausePreParamsRefill impl w)"

definition tss_ResumePreParamsRefill :: "('w, 'pre) LifecyclePool option option \<Rightarrow> 'w \<Rightarrow> 'w" where
  "tss_ResumePreParamsRefill s w = (case s of None \<Rightarrow> w | Some impl \<Rightarrow> ResumePreParamsRefill impl w)"

text \<open>Pausing through the public service stops the refill of its pool, and resuming allows it as long as the pool runs.\<close>

lemma tss_refill_control:
  "refillAllowed (fst (fst (tss_PausePreParamsRefill (Some (Some (managedPool env uuid expired waited gen elapsed))) ((p, f), w)))) = False"
  "refillAllowed (fst (fst (tss_ResumePreParamsRefill (Some (Some (managedPool env uuid expired waited gen elapsed))) ((p, f), w))))
     \<longleftrightarrow> refillAllowed (p\<lparr>po_refillPaused := False\<rparr>)"
  by (simp_all add: tss_PausePreParamsRefill_def tss_ResumePreParamsRefill_def PausePreParamsRefill_def ResumePreParamsRefill_def
      managedPool_def PauseRefill_def ResumeRefill_def refillAllowed_def signalRefill_def Let_def)

definition Service_ExportECDSASignature :: "string \<Rightarrow> ('w, 'pre) Service \<Rightarrow> SignatureData result" where
  "Service_ExportECDSASignature key s = ExportECDSASignature key (sv_runner s)"

record ('w, 'pre) serviceOptions =
  so_preParamsConfig :: PreParamsConfig
  so_hasPreParamsConfig :: bool
  so_shareReader :: "'w share_reader option"
  so_shareWriter :: "'w share_writer option"
  so_preParamsSource :: "('w, 'pre) PreParamsPool option"

type_synonym ('w, 'pre) ServiceOption = "('w, 'pre) serviceOptions \<Rightarrow> ('w, 'pre) serviceOptions"

definition WithPreParamsConfig :: "PreParamsConfig \<Rightarrow> ('w, 'pre) ServiceOption" where
  "WithPreParamsConfig cfg opts = opts\<lparr>so_preParamsConfig := cfg, so_hasPreParamsConfig := True\<rparr>"

definition WithShareReader :: "'w share_reader option \<Rightarrow> ('w, 'pre) ServiceOption" where
  "WithShareReader reader opts = opts\<lparr>so_shareReader := reader\<rparr>"

definition WithShareWriter :: "'w share_writer option \<Rightarrow> ('w, 'pre) ServiceOption" where
  "WithShareWriter writer opts = opts\<lparr>so_shareWriter := writer\<rparr>"

definition WithPreParamsSource :: "('w, 'pre) PreParamsPool option \<Rightarrow> ('w, 'pre) ServiceOption" where
  "WithPreParamsSource source opts = opts\<lparr>so_preParamsSource := source\<rparr>"

text \<open>A nil option is \<open>None\<close>; the metrics sink is left out, the runner keeps the counters itself.\<close>

definition buildServiceOptions :: "('w, 'pre) ServiceOption option list \<Rightarrow> ('w, 'pre) serviceOptions" where
  "buildServiceOptions opts =
     foldl (\<lambda>options opt. case opt of None \<Rightarrow> options | Some f \<Rightarrow> f options)
       \<lparr>so_preParamsConfig = \<lparr>pc_Enabled = False, pc_TargetSize = 0, pc_MaxConcurrency = 0,
          pc_GenerationParallelism = 0, pc_GenerateTimeout = 0, pc_AcquireTimeout = 0, pc_RetryBackoff = 0,
          pc_SyncFallbackOnEmpty = False, pc_AutoRefillOnAcquire = False, pc_FileCacheEnabled = False,
          pc_FileCacheDir = []\<rparr>,
        so_hasPreParamsConfig = False, so_shareReader = None, so_shareWriter = None, so_preParamsSource = None\<rparr> opts"

definition newPreParamsPool :: "parse_duration \<Rightarrow> env \<Rightarrow> ('w, 'pre) serviceOptions \<Rightarrow> 'pre Pool" where
  "newPreParamsPool parse getenv opts =
     (let cfg = LoadPreParamsConfigFromEnv parse getenv;
          cfg = (if so_hasPreParamsConfig opts then so_preParamsConfig opts else cfg)
      in NewPool (poolConfig cfg))"

text \<open>\<open>managed\<close> gives the methods of the new pool, whose initial state comes with the service.\<close>

definition NewBnbService ::
  "parse_duration \<Rightarrow> env \<Rightarrow> ('w, 'pre) PreParamsPool \<Rightarrow> ('w, 'pre) ServiceOption option list \<Rightarrow> 'pre heap
   \<Rightarrow> 'pre heap \<times> ('w, 'pre) Service \<times> 'pre Pool" where
  "NewBnbService parse getenv managed opts h =
     (let options = buildServiceOptions opts;
          pool = newPreParamsPool parse getenv options
      in case NewService (NewBnbRunner (LoadRunnerConfigFromEnv parse getenv)) (Some managed)
                (so_shareReader options) (so_shareWriter options) [so_preParamsSource options] h of
           (h, s) \<Rightarrow> (h, s, pool))"

section \<open>Accepted requests\<close>

lemma ecdsa_algorithm: "IsECDSA a \<longleftrightarrow> ToLower (TrimSpace a) = [] \<or> ToLower (TrimSpace a) = AlgorithmECDSA"
  by (simp add: IsECDSA_def NormalizeAlgorithm_def Let_def)

lemma blank_hex: "length cc = 32 \<Longrightarrow> TrimSpace (hex_EncodeToString cc) \<noteq> []"
proof
  assume l: "length cc = 32" and t: "TrimSpace (hex_EncodeToString cc) = []"
  have n: "hex_EncodeToString cc \<noteq> []" using l hex_Encode_length [of cc] by fastforce
  have "ToLower [] = []" by code_simp
  with lower_hex_settled [OF n hex_Encode_lower] t n show False by (simp add: settled_def)
qed

lemma ValidateDKGMaterial_accepts:
  assumes "IsECDSA a"
  shows "is_ok (ValidateDKGMaterial a m) \<longleftrightarrow>
    (\<exists>cc. length cc = 32 \<and> dm_ChainCode m = hex_EncodeToString cc)
    \<and> ToLower (TrimSpace (dm_DerivationScheme m)) = DerivationSchemeBIP32Secp256k1"
proof -
  have "is_ok (ParseChainCodeHex s) \<longleftrightarrow> (\<exists>cc. length cc = 32 \<and> s = hex_EncodeToString cc)" for s
    unfolding is_ok_iff ParseChainCodeHex_iff ..
  moreover have "TrimSpace (dm_ChainCode m) \<noteq> []" if "\<exists>cc. length cc = 32 \<and> dm_ChainCode m = hex_EncodeToString cc"
    using that blank_hex by auto
  moreover have "is_ok (case P of Inl e \<Rightarrow> Inl e | Inr v \<Rightarrow> Inr (v, k)) = is_ok P" for P :: "bytes result" and k :: string
    by (cases P) simp_all
  ultimately show ?thesis
    using assms by (auto simp: ValidateDKGMaterial_def IsECDSAAlgorithm_IsECDSA Let_def)
qed

definition wellAddressed :: "string \<Rightarrow> string \<Rightarrow> string list \<Rightarrow> u32 \<Rightarrow> string \<Rightarrow> 't option \<Rightarrow> bool" where
  "wellAddressed session org parties threshold local transport \<longleftrightarrow>
     session \<noteq> [] \<and> org \<noteq> [] \<and> parties \<noteq> [] \<and> threshold \<noteq> 0 \<and> TrimSpace local \<noteq> [] \<and> transport \<noteq> None"

lemma DKG_Validate_iff:
  "DKG_Validate r = Inr () \<longleftrightarrow>
   wellAddressed (ds_SessionID (dq_Session r)) (ds_OrgID (dq_Session r)) (ds_Parties (dq_Session r))
     (ds_Threshold (dq_Session r)) (dq_LocalPartyID r) (dq_Transport r)
   \<and> (if IsECDSA (ds_Algorithm (dq_Session r))
      then ToLower (TrimSpace (ds_Curve (dq_Session r))) \<in> {[], CurveSecp256k1} \<and> TrimSpace (ds_KeyID (dq_Session r)) \<noteq> []
        \<and> is_ok (ValidateDKGMaterial (ds_Algorithm (dq_Session r))
             \<lparr>dm_ChainCode = derivationMaterialChainCode (dq_DerivationMaterial r),
              dm_DerivationScheme = derivationMaterialScheme (dq_DerivationMaterial r)\<rparr>)
      else ToLower (TrimSpace (ds_Algorithm (dq_Session r))) = AlgorithmEdDSA
        \<and> ToLower (TrimSpace (ds_Curve (dq_Session r))) = CurveEd25519)"
  by (auto simp: DKG_Validate_def ValidateDKG_def IsValidSessionDescriptor_def wellAddressed_def Let_def ecdsa_algorithm
      IsECDSAAlgorithm_def ValidateDKGMaterial_def is_ok_def split: sum.splits if_splits)

definition dkg_sentinels :: "sentinel list" where
  "dkg_sentinels = [ErrInvalidSessionDescriptor, ErrLocalPartyRequired, ErrTransportRequired,
     ErrUnsupportedAlgorithmCurve, ErrKeyIDRequired, ErrChainCodeMissing, ErrUnsupportedDerivationScheme, ErrChainCodeInvalid]"

lemma DKG_Validate_error: "DKG_Validate r = Inl e \<Longrightarrow> \<exists>s\<in>set dkg_sentinels. errors_Is e s"
  using ParseChainCodeHex_error
  by (auto simp: DKG_Validate_def ValidateDKG_def Let_def dkg_sentinels_def ValidateDKGMaterial_def
      split: sum.splits if_splits)

text \<open>
  C35.  A key-generation request is accepted exactly when session and organisation are named, there
  are parties and a threshold, the local party is not blank, a transport is given, and either the
  algorithm is ECDSA (or blank) on secp256k1 (or blank) with a key identifier, the BIP-32 scheme and a
  chain code that is the lower-case hex text of 32 octets, or it is EdDSA on Ed25519.  The service then
  never refuses an accepted request for its key identifier or its derivation material; a refusal is
  one of eight documented sentinels.
\<close>

theorem dkg_request_exact:
  "(DKG_Validate r = Inr () \<longleftrightarrow>
     wellAddressed (ds_SessionID (dq_Session r)) (ds_OrgID (dq_Session r)) (ds_Parties (dq_Session r))
       (ds_Threshold (dq_Session r)) (dq_LocalPartyID r) (dq_Transport r)
     \<and> (if IsECDSA (ds_Algorithm (dq_Session r))
        then ToLower (TrimSpace (ds_Curve (dq_Session r))) \<in> {[], CurveSecp256k1}
          \<and> TrimSpace (ds_KeyID (dq_Session r)) \<noteq> []
          \<and> (\<exists>m cc. dq_DerivationMaterial r = Some m \<and> length cc = 32 \<and> dd_ChainCode m = hex_EncodeToString cc
               \<and> ToLower (TrimSpace (dd_DerivationScheme m)) = DerivationSchemeBIP32Secp256k1)
        else ToLower (TrimSpace (ds_Algorithm (dq_Session r))) = AlgorithmEdDSA
          \<and> ToLower (TrimSpace (ds_Curve (dq_Session r))) = CurveEd25519))
   \<and> (case DKG_Validate r of
        Inr _ \<Rightarrow> is_ok (resolveDKGOutputKeyID (buildDKGInput r) (di_Algorithm (buildDKGInput r)))
          \<and> is_ok (normalizeDKGMaterial (buildDKGInput r))
      | Inl e \<Rightarrow> \<exists>s\<in>set dkg_sentinels. errors_Is e s)"
proof -
  let ?m = "\<lparr>dm_ChainCode = derivationMaterialChainCode (dq_DerivationMaterial r),
              dm_DerivationScheme = derivationMaterialScheme (dq_DerivationMaterial r)\<rparr>"
  let ?a = "ds_Algorithm (dq_Session r)"
  have m: "is_ok (ValidateDKGMaterial ?a ?m) \<longleftrightarrow>
      (\<exists>m cc. dq_DerivationMaterial r = Some m \<and> length cc = 32 \<and> dd_ChainCode m = hex_EncodeToString cc
         \<and> ToLower (TrimSpace (dd_DerivationScheme m)) = DerivationSchemeBIP32Secp256k1)" if "IsECDSA ?a"
  proof (cases "dq_DerivationMaterial r")
    case None
    have "\<nexists>cc :: bytes. length cc = 32 \<and> [] = hex_EncodeToString cc"
      using hex_Encode_length by (metis length_0_conv mult_is_0 zero_neq_numeral)
    then show ?thesis
      unfolding ValidateDKGMaterial_accepts [OF that] by (auto simp: None derivationMaterialChainCode_def)
  qed (auto simp: ValidateDKGMaterial_accepts [OF that] derivationMaterialChainCode_def derivationMaterialScheme_def)
  have n: "is_ok (normalizeDKGMaterial (buildDKGInput r)) \<longleftrightarrow> is_ok (ValidateDKGMaterial ?a ?m)"
    by (auto simp: normalizeDKGMaterial_def buildDKGInput_def Let_def derivationMaterialChainCode_def
        derivationMaterialScheme_def is_ok_def split: sum.splits option.splits)
  have k: "is_ok (resolveDKGOutputKeyID (buildDKGInput r) (di_Algorithm (buildDKGInput r)))"
    if "DKG_Validate r = Inr ()"
    using that by (auto simp: DKG_Validate_iff resolveDKGOutputKeyID_def NormalizeKeyID_def buildDKGInput_def Let_def)
  have "is_ok (ValidateDKGMaterial ?a ?m)" if "DKG_Validate r = Inr ()"
    using that by (auto simp: DKG_Validate_iff ValidateDKGMaterial_def IsECDSAAlgorithm_IsECDSA split: if_splits)
  with n k DKG_Validate_error have "case DKG_Validate r of
        Inr _ \<Rightarrow> is_ok (resolveDKGOutputKeyID (buildDKGInput r) (di_Algorithm (buildDKGInput r)))
          \<and> is_ok (normalizeDKGMaterial (buildDKGInput r))
      | Inl e \<Rightarrow> \<exists>s\<in>set dkg_sentinels. errors_Is e s" by (auto split: sum.splits)
  with m show ?thesis unfolding DKG_Validate_iff by (cases "IsECDSA ?a") auto
qed

lemma to_from_core [simp]:
  "toCoreDerivationContext (fromCoreDerivationContext ctx) = ctx"
  "fromCoreDerivationContext (toCoreDerivationContext pub) = pub"
  by (simp_all add: toCoreDerivationContext_def fromCoreDerivationContext_def)

lemma Sign_Validate_Inr:
  "Sign_Validate c r = Inr () \<longleftrightarrow>
   wellAddressed (ss_SessionID (sq_Session r)) (ss_OrgID (sq_Session r)) (ss_Parties (sq_Session r))
     (ss_Threshold (sq_Session r)) (sq_LocalPartyID r) (sq_Transport r)
   \<and> TrimSpace (ss_KeyID (sq_Session r)) \<noteq> [] \<and> sq_Digest r \<noteq> []
   \<and> (\<exists>ctx n. sq_DerivationContext r = Some ctx \<and> NormalizeContext c (toCoreDerivationContext ctx) = Inr n
        \<and> MatchSession c n \<lparr>ses_Algorithm = ss_Algorithm (sq_Session r), ses_Curve = ss_Curve (sq_Session r),
             ses_Chain = ss_Chain (sq_Session r)\<rparr> = Inr ())"
  by (auto simp: Sign_Validate_def ValidateSign_def IsValidSessionDescriptor_def wellAddressed_def
      validateDerivationContextForSession_def split: option.splits sum.splits if_splits)

text \<open>Contexts with an ASCII key format normalise to fixed points, for which the same key is derived.\<close>

lemma normalized_context:
  assumes "NormalizeContext c ctx = Inr n" "is_ascii (ctx_PublicKeyFormat ctx)"
  shows "NormalizeContext c n = Inr n" "HashV1 c n = HashV1 c ctx"
    "DeriveECDSAChildKeyForContext c ckd pub cc n = DeriveECDSAChildKeyForContext c ckd pub cc ctx"
proof -
  show n: "NormalizeContext c n = Inr n"
    using NormalizeContext_fixed [OF NormalizeContext_wf [OF assms(1)] NormalizeContext_settled [OF assms]] .
  then show "HashV1 c n = HashV1 c ctx" using assms(1) by (intro HashV1_NormalizeContext) simp
  show "DeriveECDSAChildKeyForContext c ckd pub cc n = DeriveECDSAChildKeyForContext c ckd pub cc ctx"
    by (simp add: DeriveECDSAChildKeyForContext_def n assms(1))
qed

text \<open>A signing request that succeeds ran the service on the normal form of its context, under its hash.\<close>

lemma tss_RunSignSession_ran:
  assumes "tss_RunSignSession lib occ req sw = Some (sw', None)"
  obtains ctx n h where "sq_DerivationContext req = Some ctx" "sq_Transport req \<noteq> None"
    "ss_SessionID (sq_Session req) \<noteq> []" "sq_Digest req \<noteq> []"
    "NormalizeContext (lb_curve lib) (toCoreDerivationContext ctx) = Inr n" "HashV1 (lb_curve lib) n = Inr h"
    "RunSignSession lib (the (sq_Transport req)) occ (signInput req (fromCoreDerivationContext n) h) sw = Some (sw', None)"
proof -
  have v: "Sign_Validate (lb_curve lib) req = Inr ()" using assms by (auto simp: tss_RunSignSession_def split: sum.splits)
  then obtain ctx n where c: "sq_DerivationContext req = Some ctx" "NormalizeContext (lb_curve lib) (toCoreDerivationContext ctx) = Inr n"
    by (auto simp: Sign_Validate_Inr)
  then show thesis
    using that assms v Sign_Validate_Inr [of "lb_curve lib" req]
    by (auto simp: tss_RunSignSession_def NormalizeDerivationContext_def DerivationContextHashV1_def wellAddressed_def
        split: sum.splits)
qed

lemma signInput_sel [simp]:
  "sg_SessionID (signInput req n h) = ss_SessionID (sq_Session req)" "sg_KeyID (signInput req n h) = ss_KeyID (sq_Session req)"
  "sg_Digest (signInput req n h) = sq_Digest req" "sg_DerivationContext (signInput req n h) = toCoreDerivationContext n"
  "sg_DerivationContextHash (signInput req n h) = h" "sg_EmptyKeyErr (signInput req n h) = Some (Sentinel ErrShareNotFound)"
  by (simp_all add: signInput_def)

text \<open>What a key-generation session that succeeds has saved.\<close>

lemma runDKGSession_saved:
  assumes "runDKGSession lib t occ inp pre has (s, w) = Some ((s', w'), Inr out)" "wf_gob (lb_gob lib)" "IsECDSA (di_Algorithm inp)"
  obtains share cc save w1 i where "length cc = 32" "do_ChainCode out = hex_EncodeToString cc"
    "EncodeECPointUncompressedSecp256k1 (lb_curve lib) (sp_ECDSAPub share) = Inr (do_PublicKey out)"
    "do_KeyID out \<noteq> []" "sv_shareWriter s = Some save" "save w1 i = (w', None)" "si_KeyID i = do_KeyID out"
    "UnmarshalKeyMaterial (lb_gob lib) (si_CodecBlob i)
       = Inr \<lparr>km_Share = share, km_ChainCode = cc, km_PublicKeyFormat = ''uncompressed_hex'',
              km_DerivationScheme = ''bip32_secp256k1''\<rparr>"
  using assms(1)
proof (cases rule: runDKGSession_cases)
  case (refused e)
  then show thesis by simp
next
  case (body s1 s2)
  from body(3) show thesis
  proof (cases rule: dkgBody_cases)
    case (ran keyID material job runner w1)
    note m = normalizeDKGMaterial_Inr [OF dkgPrepare_Inr(3) [OF ran(1)] assms(3)]
    obtain share save blob where f: "EncodeECPointUncompressedSecp256k1 (lb_curve lib) (sp_ECDSAPub share) = Inr (do_PublicKey out)"
        "out = \<lparr>do_KeyID = keyID, do_PublicKey = do_PublicKey out, do_ChainCode = nm_ChainCodeHex material,
           do_PublicKeyFormat = ''uncompressed_hex'', do_DerivationScheme = ''bip32_secp256k1''\<rparr>"
        "sv_shareWriter s1 = Some save"
        "MarshalKeyMaterial (lb_gob lib) \<lparr>km_Share = share, km_ChainCode = nm_ChainCode material,
           km_PublicKeyFormat = ''uncompressed_hex'', km_DerivationScheme = nm_Scheme material\<rparr> = Inr blob"
        "save w1 \<lparr>si_SessionID = di_SessionID inp, si_KeyID = keyID, si_LocalPartyID = di_LocalPartyID inp,
           si_OpaqueDescriptorFingerprint = di_OpaqueDescriptorFingerprint inp, si_CodecBlob = blob\<rparr> = (w', None)"
      using dkgFinish_output [OF ran(3) assms(3)] by blast
    have o: "do_KeyID out = keyID" "do_ChainCode out = nm_ChainCodeHex material" 
      using arg_cong [OF f(2), of do_KeyID] arg_cong [OF f(2), of do_ChainCode] by simp_all
    show thesis
      using o m(2,3) dkgPrepare_Inr(4) [OF ran(1) assms(3)] f(1,3,5) body(2) Unmarshal_Marshal [OF assms(2) f(4)]
      by (intro that [of "nm_ChainCode material" share save w1
            "\<lparr>si_SessionID = di_SessionID inp, si_KeyID = keyID, si_LocalPartyID = di_LocalPartyID inp,
              si_OpaqueDescriptorFingerprint = di_OpaqueDescriptorFingerprint inp, si_CodecBlob = blob\<rparr>"] m(1)) auto
  qed simp_all
qed

lemma derived_child_key:
  assumes "DeriveECDSAChildKeyForContext c ckd pub cc ctx = Inr child"
  shows "ctx_DerivedPublicKey ctx \<in> {[], ck_PublicKeyHex child}"
    "EncodeUncompressedSecp256k1 c (Some (ck_PublicKey child)) = Inr (ck_PublicKeyHex child)"
  by (rule DeriveForContext_Inr [OF assms]; auto elim!: DeriveECDSAChildKey_Inr)+

end
