(* ===== verification/Example_Network.thy ===== *)
theory Example_Network
  imports Api
begin

text \<open>
  The in-memory network and the share store of the example program (\<^verbatim>\<open>examples/mpc2of3/main.go\<close>).  A bus maps
  each party to its inbound channel, a queue of at most 256 frames.  A send is a \<^verbatim>\<open>select\<close> between the channel
  and the context, and a broadcast ranges over a Go map, so that an operation yields the list of the
  outcomes it may have, none while it waits, and the order of the range is an argument.

  The locale \<open>share_store\<close> is what the service relies on from the application's reader and writer of
  shares; the example's store satisfies it.

  Shown: a frame that was sent without an error is appended once to the inbox of every addressed party and
  to no other; a cancelled send reaches only addressed parties; the store never replaces a share.
\<close>

section \<open>The network\<close>

type_synonym frameBus = "string \<Rightarrow> Frame list option"

record frameEndpoint =
  fe_bus :: frameBus
  fe_inbound :: string

definition inboundCap :: nat where
  "inboundCap = 256"

definition newFrameNetwork :: "string list \<Rightarrow> frameBus \<times> (string \<Rightarrow> frameEndpoint option)" where
  "newFrameNetwork parties =
     (let bus = foldl (\<lambda>endpoints partyID. endpoints(partyID \<mapsto> [])) Map.empty parties
      in (bus, foldl (\<lambda>transports partyID. transports(partyID \<mapsto> \<lparr>fe_bus = bus, fe_inbound = partyID\<rparr>)) Map.empty parties))"

definition net_sendFrame :: "error option \<Rightarrow> string \<Rightarrow> Frame \<Rightarrow> frameBus \<Rightarrow> (frameBus \<times> error option) list" where
  "net_sendFrame ctxErr partyID frame bus =
     (let frame = frame\<lparr>fr_Payload := [] @ fr_Payload frame\<rparr> in
      (case bus partyID of
         None \<Rightarrow> []
       | Some q \<Rightarrow> if length q < inboundCap then [(bus(partyID \<mapsto> q @ [frame]), None)] else [])
      @ (case ctxErr of None \<Rightarrow> [] | Some err \<Rightarrow> [(bus, Some err)]))"

fun net_broadcast :: "error option \<Rightarrow> string list \<Rightarrow> Frame \<Rightarrow> frameBus \<Rightarrow> (frameBus \<times> error option) list" where
  "net_broadcast ctxErr [] frame bus = [(bus, None)]"
| "net_broadcast ctxErr (partyID # rest) frame bus =
     (if partyID = fr_FromParty frame then net_broadcast ctxErr rest frame bus
      else concat (map (\<lambda>(bus', r). case r of
                          Some err \<Rightarrow> [(bus', Some err)]
                        | None \<Rightarrow> net_broadcast ctxErr rest frame bus')
                       (net_sendFrame ctxErr partyID frame bus)))"

text \<open>\<open>order\<close> is the order in which the range visits the endpoints.\<close>

definition SendFrame :: "error option \<Rightarrow> string list \<Rightarrow> Frame \<Rightarrow> frameBus \<Rightarrow> (frameBus \<times> error option) list" where
  "SendFrame ctxErr order frame bus =
     (if IsBroadcast frame then net_broadcast ctxErr order frame bus
      else (case bus (fr_ToParty frame) of
              None \<Rightarrow> [(bus, Some (errors_New ''frame target is unavailable''))]
            | Some _ \<Rightarrow> net_sendFrame ctxErr (fr_ToParty frame) frame bus))"

definition RecvFrame :: "error option \<Rightarrow> string \<Rightarrow> frameBus \<Rightarrow> (frameBus \<times> Frame result) list" where
  "RecvFrame ctxErr partyID bus =
     (case bus partyID of
        Some (frame # q) \<Rightarrow> [(bus(partyID \<mapsto> q), Inr frame)]
      | _ \<Rightarrow> [])
     @ (case ctxErr of None \<Rightarrow> [] | Some err \<Rightarrow> [(bus, Inl err)])"

section \<open>The share store\<close>

record memoryShareStore =
  ms_partyID :: string
  ms_shares :: "string \<Rightarrow> bytes option"

definition newMemoryShareStore :: "string \<Rightarrow> memoryShareStore" where
  "newMemoryShareStore partyID = \<lparr>ms_partyID = partyID, ms_shares = Map.empty\<rparr>"

definition SaveShare :: "memoryShareStore share_writer" where
  "SaveShare s inp =
     (if si_LocalPartyID inp \<noteq> ms_partyID s then (s, Some (errors_New ''share sent to the store of another party''))
      else if ms_shares s (si_KeyID inp) \<noteq> None then (s, Some (errors_New ''share already exists''))
      else (s\<lparr>ms_shares := (ms_shares s)(si_KeyID inp \<mapsto> [] @ si_CodecBlob inp)\<rparr>, None))"

definition LoadShare :: "memoryShareStore share_reader" where
  "LoadShare s requestedKeyID =
     (case ms_shares s requestedKeyID of
        None \<Rightarrow> (s, Inl (Sentinel ErrShareNotFound))
      | Some blob \<Rightarrow> (s, Inr (Some \<lparr>ss_Blob = [] @ blob\<rparr>)))"

text \<open>What the service relies on.\<close>

locale share_store =
  fixes save :: "'w share_writer" and load :: "'w share_reader"
  assumes load_pure: "fst (load w k) = w"
    and load_saved: "save w i = (w', None) \<Longrightarrow> snd (load w' (si_KeyID i)) = Inr (Some \<lparr>ss_Blob = si_CodecBlob i\<rparr>)"
    and save_failed: "save w i = (w', Some e) \<Longrightarrow> w' = w"
    and save_others: "save w i = (w', None) \<Longrightarrow> k \<noteq> si_KeyID i \<Longrightarrow> snd (load w' k) = snd (load w k)"
begin

text \<open>After a key generation the store returns material that belongs to the key that was returned.\<close>

lemma generated_is_loaded:
  assumes "runDKGSession lib t occ inp pre has (s, w) = Some ((s', w'), Inr out)" "wf_gob (lb_gob lib)"
    "IsECDSA (di_Algorithm inp)" "sv_shareWriter s = Some save"
  obtains blob share cc where "snd (load w' (do_KeyID out)) = Inr (Some \<lparr>ss_Blob = blob\<rparr>)"
    "UnmarshalKeyMaterial (lb_gob lib) blob
       = Inr \<lparr>km_Share = share, km_ChainCode = cc, km_PublicKeyFormat = ''uncompressed_hex'',
              km_DerivationScheme = ''bip32_secp256k1''\<rparr>"
    "do_ChainCode out = hex_EncodeToString cc"
    "EncodeECPointUncompressedSecp256k1 (lb_curve lib) (sp_ECDSAPub share) = Inr (do_PublicKey out)"
proof -
  from runDKGSession_saved [OF assms(1-3)] obtain share cc save' w1 i where
    d: "do_ChainCode out = hex_EncodeToString cc" "sv_shareWriter s = Some save'" "save' w1 i = (w', None)"
      "si_KeyID i = do_KeyID out"
      "EncodeECPointUncompressedSecp256k1 (lb_curve lib) (sp_ECDSAPub share) = Inr (do_PublicKey out)"
      "UnmarshalKeyMaterial (lb_gob lib) (si_CodecBlob i) = Inr \<lparr>km_Share = share, km_ChainCode = cc,
         km_PublicKeyFormat = ''uncompressed_hex'', km_DerivationScheme = ''bip32_secp256k1''\<rparr>"
    by metis
  then have "snd (load w' (do_KeyID out)) = Inr (Some \<lparr>ss_Blob = si_CodecBlob i\<rparr>)"
    using load_saved [of w1 i w'] assms(4) by simp
  with d that show thesis by blast
qed

text \<open>Loading leaves the store as it is, whatever comes of it.\<close>

lemma load_keeps: "loadECDSAKeyMaterial g (Some load) inp w = (w', r) \<Longrightarrow> w' = w"
  using load_pure
  by (auto simp: loadECDSAKeyMaterial_def split: sum.splits prod.splits option.splits) (metis fst_conv)+

end

interpretation memory: share_store SaveShare LoadShare
  by unfold_locales (auto simp: SaveShare_def LoadShare_def split: if_splits option.splits)

section \<open>Delivery\<close>

text \<open>The parties a frame is for.\<close>

definition recipients :: "Frame \<Rightarrow> frameBus \<Rightarrow> string set" where
  "recipients frame bus = (if IsBroadcast frame then dom bus - {fr_FromParty frame} else {fr_ToParty frame} \<inter> dom bus)"

definition deliver :: "Frame \<Rightarrow> string set \<Rightarrow> frameBus \<Rightarrow> frameBus" where
  "deliver frame ps bus = (\<lambda>p. if p \<in> ps then map_option (\<lambda>q. q @ [frame]) (bus p) else bus p)"

lemma sendFrame_delivers:
  assumes "(bus', r) \<in> set (net_sendFrame ctxErr p frame bus)"
  shows "r = None \<and> bus' = deliver frame {p} bus \<and> (\<exists>q. bus p = Some q \<and> length q < inboundCap) \<or> r = ctxErr \<and> r \<noteq> None \<and> bus' = bus"
proof (cases "bus p")
  case None
  then show ?thesis using assms by (cases ctxErr) (auto simp: net_sendFrame_def Let_def)
next
  case (Some q)
  have "bus(p \<mapsto> q @ [frame]) = deliver frame {p} bus" using Some by (auto simp: deliver_def fun_eq_iff)
  then show ?thesis using assms Some by (cases ctxErr) (auto simp: net_sendFrame_def Let_def split: if_splits)
qed

lemma deliver_union: "ps \<inter> qs = {} \<Longrightarrow> deliver frame qs (deliver frame ps bus) = deliver frame (ps \<union> qs) bus"
  by (auto simp: deliver_def fun_eq_iff)

lemma deliver_dom [simp]: "dom (deliver frame ps bus) = dom bus"
  by (auto simp: deliver_def dom_def split: if_splits)

definition within_capacity :: "frameBus \<Rightarrow> bool" where
  "within_capacity bus \<longleftrightarrow> (\<forall>p q. bus p = Some q \<longrightarrow> length q \<le> inboundCap)"

lemma broadcast_delivers:
  assumes "(bus', r) \<in> set (net_broadcast ctxErr order frame bus)" "distinct order" "within_capacity bus"
  shows "\<exists>ps\<subseteq>set order - {fr_FromParty frame}. bus' = deliver frame ps bus \<and> within_capacity bus'
    \<and> (if r = None then ps = set order - {fr_FromParty frame} else r = ctxErr)"
  using assms
proof (induction order arbitrary: bus)
  case Nil
  then show ?case by (auto simp: deliver_def)
next
  case (Cons p order)
  show ?case
  proof (cases "p = fr_FromParty frame")
    case True
    then have e: "set (p # order) - {fr_FromParty frame} = set order - {fr_FromParty frame}" by auto
    have "(bus', r) \<in> set (net_broadcast ctxErr order frame bus)" "distinct order" using Cons.prems(1,2) True by simp_all
    from Cons.IH [OF this Cons.prems(3)] show ?thesis unfolding e .
  next
    case False
    then obtain bus1 r1 where s: "(bus1, r1) \<in> set (net_sendFrame ctxErr p frame bus)"
        "case r1 of Some err \<Rightarrow> (bus', r) = (bus1, Some err) | None \<Rightarrow> (bus', r) \<in> set (net_broadcast ctxErr order frame bus1)"
      using Cons.prems(1) by (auto split: option.splits)
    show ?thesis
    proof (cases r1)
      case None
      then have b: "bus1 = deliver frame {p} bus" "\<exists>q. bus p = Some q \<and> length q < inboundCap"
        using sendFrame_delivers [OF s(1)] by auto
      have "within_capacity bus1" using b Cons.prems(3) by (auto simp: within_capacity_def deliver_def split: if_splits)
      then obtain ps where ps: "ps \<subseteq> set order - {fr_FromParty frame}" "bus' = deliver frame ps bus1" "within_capacity bus'"
          "if r = None then ps = set order - {fr_FromParty frame} else r = ctxErr"
        using Cons.IH [of bus1] s(2) None Cons.prems(2) by auto
      have "bus' = deliver frame (insert p ps) bus"
        using ps(1,2) b(1) deliver_union [of "{p}" ps frame bus] Cons.prems(2) by auto
      then show ?thesis
        using ps False by (intro exI [of _ "insert p ps"]) (auto split: if_splits)
    next
      case (Some err)
      then have "bus' = bus" "r = ctxErr" "r \<noteq> None" using sendFrame_delivers [OF s(1)] s(2) by auto
      then show ?thesis using Cons.prems(3) by (intro exI [of _ "{}"]) (auto simp: deliver_def)
    qed
  qed
qed

text \<open>
  The network of the example.  Whatever way a send ends, it has appended the frame once, at the
  end, to the inbox of some of the parties it is for and changed nothing else; when it ends without an
  error, to all of them; no inbox exceeds its capacity.  Broadcast frames do not come back to their sender.
\<close>

theorem frame_network_delivers:
  assumes "(bus', r) \<in> set (SendFrame ctxErr order frame bus)" "distinct order" "set order = dom bus" "within_capacity bus"
  shows "within_capacity bus'
    \<and> (\<exists>ps\<subseteq>recipients frame bus. (r = None \<longrightarrow> ps = recipients frame bus)
         \<and> (\<forall>p. bus' p = (if p \<in> ps then map_option (\<lambda>q. q @ [frame]) (bus p) else bus p)))"
proof (cases "IsBroadcast frame")
  case True
  then obtain ps where "ps \<subseteq> set order - {fr_FromParty frame}" "bus' = deliver frame ps bus" "within_capacity bus'"
      "if r = None then ps = set order - {fr_FromParty frame} else r = ctxErr"
    using broadcast_delivers [of bus' r ctxErr order frame bus] assms by (auto simp: SendFrame_def)
  then show ?thesis using True assms(3) by (intro conjI exI [of _ ps]) (auto simp: recipients_def deliver_def split: if_splits)
next
  case False
  show ?thesis
  proof (cases "bus (fr_ToParty frame)")
    case None
    then show ?thesis using False assms by (auto simp: SendFrame_def intro!: exI [of _ "{}"])
  next
    case (Some q)
    then have "(bus', r) \<in> set (net_sendFrame ctxErr (fr_ToParty frame) frame bus)" using False assms(1) by (simp add: SendFrame_def)
    from sendFrame_delivers [OF this] show ?thesis
    proof (elim disjE conjE exE)
      fix q' assume "r = None" "bus' = deliver frame {fr_ToParty frame} bus" "bus (fr_ToParty frame) = Some q'" "length q' < inboundCap"
      then show ?thesis
        using False Some assms(4)
        by (intro conjI exI [of _ "{fr_ToParty frame}"]) (auto simp: recipients_def deliver_def within_capacity_def split: if_splits)
    qed (use assms(4) in \<open>auto intro!: exI [of _ "{}"]\<close>)
  qed
qed

theorem frame_network_delivers_witness:
  "\<exists>bus' frame. (bus', None) \<in> set (SendFrame None [''B'', ''A''] frame (fst (newFrameNetwork [''A'', ''B''])))
     \<and> IsBroadcast frame \<and> bus' ''B'' = Some [frame] \<and> bus' ''A'' = Some []"
proof -
  let ?f = "(sample_frame 1)\<lparr>fr_ToParty := [], fr_FromParty := ''A''\<rparr>"
  let ?bus = "fst (newFrameNetwork [''A'', ''B''])"
  have b: "?bus = [''A'' \<mapsto> [], ''B'' \<mapsto> []]" by (simp add: newFrameNetwork_def Let_def)
  have "IsBroadcast ?f" by (simp add: IsBroadcast_def)
  then obtain bus' where s: "(bus', None) \<in> set (SendFrame None [''B'', ''A''] ?f ?bus)"
    by (simp add: b SendFrame_def net_sendFrame_def inboundCap_def)
  have "within_capacity ?bus" "set [''B'', ''A''] = dom ?bus" by (auto simp: b within_capacity_def split: if_splits)
  then have d: "bus' p = (if p \<in> recipients ?f ?bus then map_option (\<lambda>q. q @ [?f]) (?bus p) else ?bus p)" for p
    using frame_network_delivers [OF s] by auto
  have "recipients ?f ?bus = {''B''}" using \<open>IsBroadcast ?f\<close> by (auto simp: recipients_def b)
  with d [of "''A''"] d [of "''B''"] have "bus' ''B'' = Some [?f]" "bus' ''A'' = Some []" by (simp_all add: b)
  with s \<open>IsBroadcast ?f\<close> show ?thesis by blast
qed

end
