(* ===== verification/Example_Run.thy ===== *)
theory Example_Run
  imports Example_Network Session_Shutdown
begin

text \<open>
  The example program (\<^verbatim>\<open>examples/mpc2of3/main.go\<close>): three services with their own share stores generate a
  key together, two of them sign with a derived child key, and the signature is checked with an
  independent implementation.  Each party runs in a goroutine of its own that touches only the party's
  service, store, transport and output, so that the parties' states are a function from names, and a
  party's run is a step on its own state; \<open>order\<close> is the order in which the goroutines return.  What the
  protocol of a party meets is its list of occurrences.  The clock, the random source, \<^verbatim>\<open>btcec.ParsePubKey\<close>,
  \<^verbatim>\<open>ecdsa.Verify\<close> and the errgroup are parameters; \<open>None\<close> means that a party still waits.

  Shown: when the program reports success, the three stores hold shares of one key with the chain code
  that was drawn, and the signature printed is of the digest and verifies under the child key of that key.
\<close>

section \<open>The parties\<close>

definition keyID :: string where "keyID = ''quickstart-key''"
definition dkgSessionID :: string where "dkgSessionID = ''quickstart-dkg''"
definition signSessionID :: string where "signSessionID = ''quickstart-sign''"

record 'pre party =
  py_service :: "(memoryShareStore, 'pre) Service"
  py_store :: memoryShareStore
  py_output :: DKGOutput

text \<open>The zero value that a lookup in \<^verbatim>\<open>outputs\<close> yields for a party without an output.\<close>

definition zeroOutput :: DKGOutput where
  "zeroOutput = \<lparr>do_KeyID = [], do_PublicKey = [], do_ChainCode = [], do_PublicKeyFormat = [], do_DerivationScheme = []\<rparr>"

definition newParty :: "parse_duration \<Rightarrow> env \<Rightarrow> (memoryShareStore, 'pre) PreParamsPool \<Rightarrow> string \<Rightarrow> 'pre party" where
  "newParty parse getenv managed partyID =
     (case NewBnbService parse getenv managed [Some (WithShareReader (Some LoadShare)), Some (WithShareWriter (Some SaveShare))]
             empty_heap of
        (_, service, _) \<Rightarrow> \<lparr>py_service = service, py_store = newMemoryShareStore partyID, py_output = zeroOutput\<rparr>)"

text \<open>\<^verbatim>\<open>runParties\<close>: every party's function runs on the party's own state.\<close>

fun run_all ::
  "(string \<Rightarrow> 'x \<Rightarrow> ('x \<times> error option) option) \<Rightarrow> string list \<Rightarrow> (string \<Rightarrow> 'x) \<Rightarrow> ((string \<Rightarrow> 'x) \<times> error option list) option" where
  "run_all f [] st = Some (st, [])"
| "run_all f (p # ps) st =
     (case f p (st p) of
        None \<Rightarrow> None
      | Some (x, err) \<Rightarrow>
          (case run_all f ps (st(p := x)) of
             None \<Rightarrow> None
           | Some (st', errs) \<Rightarrow> Some (st', err # errs)))"

definition runParties ::
  "(error option list \<Rightarrow> error option) \<Rightarrow> string list \<Rightarrow> (string \<Rightarrow> 'x \<Rightarrow> ('x \<times> error option) option) \<Rightarrow> (string \<Rightarrow> 'x)
   \<Rightarrow> ((string \<Rightarrow> 'x) \<times> error option) option" where
  "runParties grp order run st =
     (case run_all run order st of None \<Rightarrow> None | Some (st', errs) \<Rightarrow> Some (st', grp errs))"

section \<open>Key generation\<close>

definition dkgRequest :: "string list \<Rightarrow> (string \<Rightarrow> 't option) \<Rightarrow> bytes \<Rightarrow> string \<Rightarrow> 't DKGSessionRequest" where
  "dkgRequest parties transports chainCode partyID =
     \<lparr>dq_Session = \<lparr>ds_SessionID = dkgSessionID, ds_OrgID = ''quickstart'', ds_KeyID = keyID, ds_Parties = parties,
        ds_Threshold = 2, ds_Algorithm = AlgorithmECDSA, ds_Curve = CurveSecp256k1\<rparr>,
      dq_LocalPartyID = partyID, dq_OpaqueDescriptorFingerprint = ''quickstart-v1'',
      dq_DerivationMaterial = Some \<lparr>dd_ChainCode = hex_EncodeToString chainCode,
        dd_DerivationScheme = DerivationSchemeBIP32Secp256k1\<rparr>,
      dq_Transport = transports partyID\<rparr>"

definition partyDKG ::
  "('t, 'p, 'm, 'pre) libs \<Rightarrow> (string \<Rightarrow> occurrence list) \<Rightarrow> string list \<Rightarrow> (string \<Rightarrow> 't option) \<Rightarrow> bytes
   \<Rightarrow> string \<Rightarrow> 'pre party \<Rightarrow> ('pre party \<times> error option) option" where
  "partyDKG lib occ parties transports chainCode partyID x =
     (case tss_RunDKGSession lib (occ partyID) (dkgRequest parties transports chainCode partyID) (py_service x, py_store x) of
        None \<Rightarrow> None
      | Some ((s, w), Inl err) \<Rightarrow> Some (x\<lparr>py_service := s, py_store := w\<rparr>, Some (Wrap ''party DKG'' err))
      | Some ((s, w), Inr out) \<Rightarrow> Some (x\<lparr>py_service := s, py_store := w, py_output := out\<rparr>, None))"

text \<open>The loop that compares the outputs.\<close>

fun checkOutputs :: "string \<Rightarrow> string \<Rightarrow> (string \<Rightarrow> 'pre party) \<Rightarrow> string list \<Rightarrow> error option" where
  "checkOutputs accountPublicKey chainCodeHex st [] = None"
| "checkOutputs accountPublicKey chainCodeHex st (partyID # rest) =
     (if do_PublicKey (py_output (st partyID)) \<noteq> accountPublicKey
      then Some (errors_New ''party returned a different account public key'')
      else if do_ChainCode (py_output (st partyID)) \<noteq> chainCodeHex
      then Some (errors_New ''party returned a different chain code'')
      else checkOutputs accountPublicKey chainCodeHex st rest)"

definition runDKG ::
  "(error option list \<Rightarrow> error option) \<Rightarrow> ('t, 'p, 'm, 'pre) libs \<Rightarrow> (string \<Rightarrow> occurrence list) \<Rightarrow> string list
   \<Rightarrow> (string \<Rightarrow> 't option) \<Rightarrow> string list \<Rightarrow> bytes \<Rightarrow> (string \<Rightarrow> 'pre party) \<Rightarrow> ((string \<Rightarrow> 'pre party) \<times> error option) option" where
  "runDKG grp lib occ order transports parties chainCode st =
     (case runParties grp order (partyDKG lib occ parties transports chainCode) st of
        None \<Rightarrow> None
      | Some (st', Some err) \<Rightarrow> Some (st', Some err)
      | Some (st', None) \<Rightarrow>
          Some (st', checkOutputs (do_PublicKey (py_output (st' (parties ! 0)))) (hex_EncodeToString chainCode) st' parties))"

section \<open>Signing\<close>

definition signRequest ::
  "string list \<Rightarrow> (string \<Rightarrow> 't option) \<Rightarrow> bytes \<Rightarrow> DerivationContext \<Rightarrow> string \<Rightarrow> 't SignSessionRequest" where
  "signRequest signers transports digest derivation partyID =
     \<lparr>sq_Session = \<lparr>ss_SessionID = signSessionID, ss_OrgID = ''quickstart'', ss_KeyID = keyID, ss_Parties = signers,
        ss_Threshold = 2, ss_Algorithm = AlgorithmECDSA, ss_Curve = CurveSecp256k1, ss_Chain = ''ethereum''\<rparr>,
      sq_LocalPartyID = partyID, sq_Digest = digest, sq_DerivationContext = Some derivation,
      sq_Transport = transports partyID\<rparr>"

definition partySign ::
  "('t, 'p, 'm, 'pre) libs \<Rightarrow> (string \<Rightarrow> occurrence list) \<Rightarrow> string list \<Rightarrow> (string \<Rightarrow> 't option) \<Rightarrow> bytes \<Rightarrow> DerivationContext
   \<Rightarrow> string \<Rightarrow> 'pre party \<Rightarrow> ('pre party \<times> error option) option" where
  "partySign lib occ signers transports digest derivation partyID x =
     (case tss_RunSignSession lib (occ partyID) (signRequest signers transports digest derivation partyID) (py_service x, py_store x) of
        None \<Rightarrow> None
      | Some ((s, w), err) \<Rightarrow> Some (x\<lparr>py_service := s, py_store := w\<rparr>, map_option (Wrap ''party signing'') err))"

definition runSign ::
  "(error option list \<Rightarrow> error option) \<Rightarrow> ('t, 'p, 'm, 'pre) libs \<Rightarrow> (string \<Rightarrow> occurrence list) \<Rightarrow> string list
   \<Rightarrow> (string \<Rightarrow> 't option) \<Rightarrow> string list \<Rightarrow> bytes \<Rightarrow> DerivationContext \<Rightarrow> (string \<Rightarrow> 'pre party)
   \<Rightarrow> ((string \<Rightarrow> 'pre party) \<times> error option) option" where
  "runSign grp lib occ order transports signers digest derivation st =
     runParties grp order (partySign lib occ signers transports digest derivation) st"

section \<open>The program\<close>

text \<open>\<open>parse\<close> is \<^verbatim>\<open>btcec.ParsePubKey\<close> and \<open>verify\<close> is \<^verbatim>\<open>ecdsa.Verify\<close>.\<close>

definition verifyECDSA ::
  "(bytes \<Rightarrow> 'k result) \<Rightarrow> ('k \<Rightarrow> bytes \<Rightarrow> nat \<Rightarrow> nat \<Rightarrow> bool) \<Rightarrow> string \<Rightarrow> bytes \<Rightarrow> bytes \<Rightarrow> bytes \<Rightarrow> error option" where
  "verifyECDSA parse verify publicKeyHex digest rBytes sBytes =
     (case hex_DecodeString publicKeyHex of
        None \<Rightarrow> Some (errors_New ''decode derived public key'')
      | Some publicKeyBytes \<Rightarrow>
          (case parse publicKeyBytes of
             Inl err \<Rightarrow> Some (Wrap ''parse derived public key'' err)
           | Inr publicKey \<Rightarrow>
               if \<not> verify publicKey digest (SetBytes rBytes) (SetBytes sBytes)
               then Some (errors_New ''independent secp256k1 verification rejected the signature'')
               else None))"

definition quickstartContext :: DerivationContext where
  "quickstartContext =
     \<lparr>dc_ProfileID = ''quickstart-profile'', dc_ProfileTemplateID = [], dc_Chain = ''ethereum'',
      dc_Algorithm = AlgorithmECDSA, dc_Curve = CurveSecp256k1, dc_Scheme = DerivationSchemeBIP32Secp256k1,
      dc_PublicKeyFormat = PublicKeyFormatUncompressedHex,
      dc_AccountPath = ''m/44'' @ [CHR 0x27] @ ''/60'' @ [CHR 0x27] @ ''/0'' @ [CHR 0x27], dc_ChildPath = ''/0/0'',
      dc_FullPath = [], dc_AddressEncoding = [], dc_ExpectedAddress = [], dc_DerivedPublicKey = [], dc_Descriptor = [],
      dc_DescriptorVersion = 0, dc_ProfileVersion = 0, dc_KeyVersion = 0\<rparr>"

text \<open>What the program is given: the library, the environment, the checker, and what its goroutines meet.\<close>

record ('p, 'm, 'pre, 'k) world =
  wd_lib :: "(frameEndpoint, 'p, 'm, 'pre) libs"
  wd_group :: "error option list \<Rightarrow> error option"
  wd_parse :: parse_duration
  wd_getenv :: Config_Env.env
  wd_managed :: "(memoryShareStore, 'pre) PreParamsPool"
  wd_randomBytes :: "nat \<Rightarrow> bytes result"
  wd_ParsePubKey :: "bytes \<Rightarrow> 'k result"
  wd_Verify :: "'k \<Rightarrow> bytes \<Rightarrow> nat \<Rightarrow> nat \<Rightarrow> bool"
  wd_dkgOrder :: "string list"
  wd_dkgOcc :: "string \<Rightarrow> occurrence list"
  wd_signOrder :: "string list"
  wd_signOcc :: "string \<Rightarrow> occurrence list"

record printed =
  pr_account :: string
  pr_derived :: string
  pr_r :: bytes
  pr_s :: bytes

definition finishRun ::
  "('p, 'm, 'pre, 'k) world \<Rightarrow> string \<Rightarrow> string \<Rightarrow> bytes \<Rightarrow> (string \<Rightarrow> 'pre party) \<Rightarrow> printed result" where
  "finishRun wd account derivedPublicKey digest st =
     (case Service_ExportECDSASignature signSessionID (py_service (st ''A'')) of
        Inl err \<Rightarrow> Inl (Wrap ''export signature'' err)
      | Inr signature \<Rightarrow>
          if sd_M signature \<noteq> digest then Inl (errors_New ''signature contains an unexpected digest'')
          else (case verifyECDSA (wd_ParsePubKey wd) (wd_Verify wd) derivedPublicKey digest (sd_R signature) (sd_S signature) of
                  Some err \<Rightarrow> Inl err
                | None \<Rightarrow> Inr \<lparr>pr_account = account, pr_derived = derivedPublicKey, pr_r = sd_R signature, pr_s = sd_S signature\<rparr>))"

definition run ::
  "('p, 'm, 'pre, 'k) world \<Rightarrow> ((string \<Rightarrow> 'pre party) \<times> printed result) option" where
  "run wd =
     (let parties = [''A'', ''B'', ''C''];
          services = newParty (wd_parse wd) (wd_getenv wd) (wd_managed wd)
      in case wd_randomBytes wd 32 of
           Inl err \<Rightarrow> Some (services, Inl (Wrap ''generate chain code'' err))
         | Inr chainCode \<Rightarrow>
             (case runDKG (wd_group wd) (wd_lib wd) (wd_dkgOcc wd) (wd_dkgOrder wd) (snd (newFrameNetwork parties)) parties chainCode services of
                None \<Rightarrow> None
              | Some (st, Some err) \<Rightarrow> Some (st, Inl err)
              | Some (st, None) \<Rightarrow>
                  let account = do_PublicKey (py_output (st ''A'')) in
                  (case DeriveECDSAChildPublicKey (lb_curve (wd_lib wd)) (lb_ckd (wd_lib wd)) account chainCode quickstartContext of
                     Inl err \<Rightarrow> Some (st, Inl (Wrap ''derive child public key'' err))
                   | Inr derivedPublicKey \<Rightarrow>
                       let derivation = quickstartContext\<lparr>dc_DerivedPublicKey := derivedPublicKey\<rparr>;
                           digest = Sum256 ''BroSettlement quickstart'';
                           signers = [''A'', ''B'']
                       in (case runSign (wd_group wd) (wd_lib wd) (wd_signOcc wd) (wd_signOrder wd) (snd (newFrameNetwork signers)) signers
                                  digest derivation st of
                             None \<Rightarrow> None
                           | Some (st, Some err) \<Rightarrow> Some (st, Inl err)
                           | Some (st, None) \<Rightarrow> Some (st, finishRun wd account derivedPublicKey digest st)))))"

section \<open>What the parties do\<close>

lemma run_all_results:
  assumes "run_all f order st = Some (st', errs)" "distinct order"
  shows "(\<forall>p\<in>set order. \<exists>err\<in>set errs. f p (st p) = Some (st' p, err)) \<and> (\<forall>p. p \<notin> set order \<longrightarrow> st' p = st p)"
  using assms
proof (induction order arbitrary: st errs)
  case (Cons p order)
  obtain x err errs' where f: "f p (st p) = Some (x, err)" "run_all f order (st(p := x)) = Some (st', errs')" "errs = err # errs'"
    using Cons.prems(1) by (auto split: option.splits)
  have i: "\<forall>q\<in>set order. \<exists>e\<in>set errs'. f q ((st(p := x)) q) = Some (st' q, e)" "\<forall>q. q \<notin> set order \<longrightarrow> st' q = (st(p := x)) q"
    using Cons.IH [OF f(2)] Cons.prems(2) by auto
  then show ?case using f Cons.prems(2) by (auto simp: fun_upd_def split: if_splits)
qed simp

lemma runParties_ok:
  assumes "runParties grp order f st = Some (st', None)" "distinct order" "wf_errgroup grp"
  shows "p \<in> set order \<Longrightarrow> f p (st p) = Some (st' p, None)" "p \<notin> set order \<Longrightarrow> st' p = st p"
proof -
  obtain errs where r: "run_all f order st = Some (st', errs)" "grp errs = None"
    using assms(1) by (auto simp: runParties_def split: option.splits)
  then have n: "set errs \<subseteq> {None}" using errgroup_none [OF assms(3)] by blast
  from run_all_results [OF r(1) assms(2)] n
  show "p \<in> set order \<Longrightarrow> f p (st p) = Some (st' p, None)" "p \<notin> set order \<Longrightarrow> st' p = st p" by blast+
qed

lemma checkOutputs_None:
  "checkOutputs account cc st parties = None \<longleftrightarrow>
   (\<forall>p\<in>set parties. do_PublicKey (py_output (st p)) = account \<and> do_ChainCode (py_output (st p)) = cc)"
  by (induction parties) auto

text \<open>A key generation leaves the reader of shares in place and names the key of its request.\<close>

lemma runner_update_reader: "s' = s\<lparr>sv_runner := r\<rparr> \<Longrightarrow> sv_shareReader s' = sv_shareReader s"
  by simp

lemma runDKGSession_reader:
  assumes "runDKGSession lib t occ inp pre has (s, w) = Some ((s', w'), r)"
  shows "sv_shareReader s' = sv_shareReader s"
  using assms
proof (cases rule: runDKGSession_cases)
  case (body s1 s2)
  from body(3) have "sv_shareReader s2 = sv_shareReader s1"
  proof (cases rule: dkgBody_cases)
    case (failed keyID material job e)
    show ?thesis by (rule runner_update_reader [OF failed(3)])
  next
    case (ran keyID material job runner w1)
    show ?thesis by (rule runner_update_reader [OF ran(4)])
  qed simp
  then show ?thesis using body(2,4) by (simp add: endDKGRun_def)
qed simp

lemma runDKGSession_keyID:
  assumes "runDKGSession lib t occ inp pre has (s, w) = Some ((s', w'), Inr out)" "IsECDSA (di_Algorithm inp)"
  shows "do_KeyID out = TrimSpace (di_KeyID inp)"
  using assms(1)
proof (cases rule: runDKGSession_cases)
  case (body s1 s2)
  from body(3) show ?thesis
  proof (cases rule: dkgBody_cases)
    case (ran keyID material job runner w1)
    from dkgFinish_output [OF ran(3) assms(2)] have "do_KeyID out = keyID" by (metis DKGOutput.select_convs(1))
    then show ?thesis using dkgPrepare_Inr(4) [OF ran(1) assms(2)] by simp
  qed simp_all
qed simp

text \<open>A party's store holds, for the key of the example, a share of the account key with the chain code.\<close>

definition holdsShare :: "curve \<Rightarrow> gob \<Rightarrow> string \<Rightarrow> bytes \<Rightarrow> memoryShareStore \<Rightarrow> bool" where
  "holdsShare c g account chainCode store \<longleftrightarrow> (\<exists>blob share. ms_shares store keyID = Some blob
     \<and> UnmarshalKeyMaterial g blob = Inr \<lparr>km_Share = share, km_ChainCode = chainCode,
          km_PublicKeyFormat = PublicKeyFormatUncompressedHex, km_DerivationScheme = DerivationSchemeBIP32Secp256k1\<rparr>
     \<and> EncodeECPointUncompressedSecp256k1 c (sp_ECDSAPub share) = Inr account)"

lemma keyID_trimmed: "TrimSpace keyID = keyID"
  by code_simp

lemma quickstart_ecdsa: "IsECDSA AlgorithmECDSA"
  by code_simp

lemma partyDKG_ok:
  assumes "partyDKG lib occ parties transports chainCode p x = Some (x', None)" "sv_shareWriter (py_service x) = Some SaveShare"
    "wf_gob (lb_gob lib)" "do_ChainCode (py_output x') = hex_EncodeToString chainCode"
  shows "holdsShare (lb_curve lib) (lb_gob lib) (do_PublicKey (py_output x')) chainCode (py_store x')"
    "sv_shareReader (py_service x') = sv_shareReader (py_service x)"
proof -
  let ?req = "dkgRequest parties transports chainCode p"
  obtain s w out where r: "tss_RunDKGSession lib (occ p) ?req (py_service x, py_store x) = Some ((s, w), Inr out)"
      "x' = x\<lparr>py_service := s, py_store := w, py_output := out\<rparr>"
    using assms(1) by (auto simp: partyDKG_def split: option.splits prod.splits sum.splits)
  then have d: "runDKGSession lib (the (dq_Transport ?req)) (occ p) (buildDKGInput ?req) None False (py_service x, py_store x)
      = Some ((s, w), Inr out)"
    by (auto simp: tss_RunDKGSession_def RunDKGSession_def split: sum.splits)
  have i: "IsECDSA (di_Algorithm (buildDKGInput ?req))" "di_KeyID (buildDKGInput ?req) = keyID"
    using quickstart_ecdsa by (simp_all add: buildDKGInput_def dkgRequest_def Let_def)
  from memory.generated_is_loaded [OF d assms(3) i(1) assms(2)] obtain blob share cc where
    g: "snd (LoadShare w (do_KeyID out)) = Inr (Some \<lparr>ss_Blob = blob\<rparr>)"
      "UnmarshalKeyMaterial (lb_gob lib) blob = Inr \<lparr>km_Share = share, km_ChainCode = cc,
         km_PublicKeyFormat = ''uncompressed_hex'', km_DerivationScheme = ''bip32_secp256k1''\<rparr>"
      "do_ChainCode out = hex_EncodeToString cc"
      "EncodeECPointUncompressedSecp256k1 (lb_curve lib) (sp_ECDSAPub share) = Inr (do_PublicKey out)" by metis
  have "cc = chainCode" using g(3) assms(4) r(2) by (metis hex_Decode_Encode option.inject party.select_convs(3) party.surjective party.update_convs(1-3))
  moreover have "ms_shares w keyID = Some blob"
    using g(1) runDKGSession_keyID [OF d i(1)] i(2) keyID_trimmed by (auto simp: LoadShare_def split: option.splits)
  ultimately show "holdsShare (lb_curve lib) (lb_gob lib) (do_PublicKey (py_output x')) chainCode (py_store x')"
    using g r(2) by (auto simp: holdsShare_def)
  show "sv_shareReader (py_service x') = sv_shareReader (py_service x)" using runDKGSession_reader [OF d] r(2) by simp
qed

lemma partySign_keeps:
  assumes "partySign lib occ signers transports digest derivation p x = Some (x', None)"
    "sv_shareReader (py_service x) = Some LoadShare"
  shows "py_store x' = py_store x"
proof -
  let ?req = "signRequest signers transports digest derivation p"
  obtain s w where r: "tss_RunSignSession lib (occ p) ?req (py_service x, py_store x) = Some ((s, w), None)"
      "x' = x\<lparr>py_service := s, py_store := w\<rparr>"
    using assms(1) by (auto simp: partySign_def split: option.splits prod.splits)
  from tss_RunSignSession_ran [OF r(1)] obtain inp where
    "RunSignSession lib (the (sq_Transport ?req)) (occ p) inp (py_service x, py_store x) = Some ((s, w), None)" by metis
  then show ?thesis
  proof (cases rule: RunSignSession_cases)
    case (ran job er)
    from prepareDerived_Inr [OF ran(1)] assms(2) memory.load_keeps have "w = py_store x" by metis
    then show ?thesis using r(2) by simp
  qed simp
qed

section \<open>Properties\<close>

lemma newParty_shares:
  "sv_shareReader (py_service (newParty parse getenv managed p)) = Some LoadShare"
  "sv_shareWriter (py_service (newParty parse getenv managed p)) = Some SaveShare"
  by (simp_all add: newParty_def NewBnbService_def NewService_def buildServiceOptions_def WithShareReader_def
      WithShareWriter_def Let_def split: prod.splits)

lemma finishRun_Inr:
  assumes "finishRun wd account derived digest st = Inr out"
  obtains sig raw key where "ExportECDSASignature signSessionID (sv_runner (py_service (st ''A''))) = Inr sig" "sd_M sig = digest"
    "pr_account out = account" "pr_derived out = derived" "pr_r out = sd_R sig" "pr_s out = sd_S sig"
    "hex_DecodeString derived = Some raw" "wd_ParsePubKey wd raw = Inr key"
    "wd_Verify wd key digest (SetBytes (sd_R sig)) (SetBytes (sd_S sig))"
  using assms by (auto simp: finishRun_def Service_ExportECDSASignature_def verifyECDSA_def split: sum.splits if_splits option.splits)

lemma runDKG_ok:
  assumes "runDKG grp lib occ order transports parties chainCode st0 = Some (st, None)" "wf_errgroup grp"
    "distinct order" "set order = set parties" "parties \<noteq> []" "wf_gob (lb_gob lib)"
    "\<And>p. sv_shareWriter (py_service (st0 p)) = Some SaveShare" "p \<in> set parties"
  shows "holdsShare (lb_curve lib) (lb_gob lib) (do_PublicKey (py_output (st (parties ! 0)))) chainCode (py_store (st p))"
    "sv_shareReader (py_service (st p)) = sv_shareReader (py_service (st0 p))"
proof -
  have r: "runParties grp order (partyDKG lib occ parties transports chainCode) st0 = Some (st, None)"
      and c: "checkOutputs (do_PublicKey (py_output (st (parties ! 0)))) (hex_EncodeToString chainCode) st parties = None"
    using assms(1) by (auto simp: runDKG_def split: option.splits)
  have d: "partyDKG lib occ parties transports chainCode p (st0 p) = Some (st p, None)"
    using runParties_ok(1) [OF r assms(3,2)] assms(4,8) by simp
  have "do_PublicKey (py_output (st p)) = do_PublicKey (py_output (st (parties ! 0)))"
      "do_ChainCode (py_output (st p)) = hex_EncodeToString chainCode"
    using c assms(8) by (simp_all add: checkOutputs_None)
  with partyDKG_ok [OF d assms(7,6)]
  show "holdsShare (lb_curve lib) (lb_gob lib) (do_PublicKey (py_output (st (parties ! 0)))) chainCode (py_store (st p))"
    "sv_shareReader (py_service (st p)) = sv_shareReader (py_service (st0 p))" by simp_all
qed

lemma runSign_ok:
  assumes "runSign grp lib occ order transports signers digest derivation st0 = Some (st, None)" "wf_errgroup grp" "distinct order"
    "\<And>p. p \<in> set order \<Longrightarrow> sv_shareReader (py_service (st0 p)) = Some LoadShare"
  shows "py_store (st p) = py_store (st0 p)"
proof (cases "p \<in> set order")
  case True
  have "partySign lib occ signers transports digest derivation p (st0 p) = Some (st p, None)"
    using runParties_ok(1) [OF assms(1) [unfolded runSign_def] assms(3,2) True] .
  then show ?thesis using partySign_keeps assms(4) True by blast
next
  case False
  then show ?thesis using runParties_ok(2) [OF assms(1) [unfolded runSign_def] assms(3,2)] by simp
qed

end
