(* ===== verification/Example_Verified.thy ===== *)
theory Example_Verified
  imports Example_Run
begin

text \<open>
  What the example program establishes (\<^verbatim>\<open>examples/mpc2of3/main.go\<close>), and a run of it: a library
  over the example's endpoints whose clock stands still and whose protocol ends at once, on which
  the whole program is evaluated.
\<close>

section \<open>A run\<close>

definition quick_env :: "frameEndpoint Execution.env" where
  "quick_env = \<lparr>en_Now = (\<lambda>t. (t, 7)), en_CtxErr = (\<lambda>t. None), en_SendFrame = (\<lambda>t f. (t, None)),
     en_Rand = (\<lambda>t. (t, replicate 8 CHR 0x00))\<rparr>"

definition quick_machine :: "(frameEndpoint, nat, bytes, unit) machine" where
  "quick_machine = \<lparr>mc_env = quick_env, mc_iter = id, mc_lib = sample_lib, mc_sortIDs = id,
     mc_ECDSAKeygen = (\<lambda>p pre. 0), mc_EdDSAKeygen = (\<lambda>p. 0), mc_ECDSASigning = (\<lambda>m p k d. 0)\<rparr>"

definition quick_libs :: "(frameEndpoint, nat, bytes, unit) libs" where
  "quick_libs = \<lparr>lb_curve = secp256k1, lb_gob = sample_gob, lb_ckd = identity_ckd, lb_adjust = (\<lambda>d s p. Inr s),
     lb_machine = quick_machine\<rparr>"

lemma quick_sel [simp]:
  "mc_env quick_machine = quick_env" "mc_iter quick_machine = id" "mc_lib quick_machine = sample_lib"
  "mc_sortIDs quick_machine = id" "lb_curve quick_libs = secp256k1" "lb_gob quick_libs = sample_gob"
  "lb_ckd quick_libs = identity_ckd" "lb_adjust quick_libs = (\<lambda>d s p. Inr s)" "lb_machine quick_libs = quick_machine"
  by (simp_all add: quick_machine_def quick_libs_def)

definition quickDigest :: bytes where
  "quickDigest = Sum256 ''BroSettlement quickstart''"

abbreviation "quickChainCode \<equiv> replicate 32 CHR 0x01 :: bytes"
abbreviation "quickGenerated \<equiv> [done_with (Some sample_share) None]"
abbreviation "quickSigned \<equiv> [done_with None (Some (sample_signature quickDigest))]"

lemma quickDigest_nonempty: "quickDigest \<noteq> []"
proof -
  have "length quickDigest = 32" by (simp only: quickDigest_def Sum256_length)
  then show ?thesis by auto
qed

text \<open>The protocol runs.\<close>

lemma quick_Run:
  "Run quick_env accept lib (New p, t) [done_with k s]
   = Some (fst (markProgress quick_env ''start'' 0 (New p, t))
       \<lparr>ex_ecdsaKeyShare := k, ex_signature := s, ex_protocolDoneFlag := True\<rparr>, ''success'', None)"
  by (simp add: Run_def done_with_def markProgress_def handleEvent_def finishTerminalEvent_def quick_env_def)

lemma settled_words: "ToLower (TrimSpace ''ecdsa'') = ''ecdsa''" "ToLower (TrimSpace ''secp256k1'') = ''secp256k1''"
  "ToLower (TrimSpace ''bip32_secp256k1'') = ''bip32_secp256k1''"
  using settled_constants(1,3,5) by (simp_all add: settled_def)

lemma quick_params:
  assumes "parties = [''A'', ''B'', ''C''] \<or> parties = [''A'', ''B'']" "p \<in> set parties" "curve \<in> {[], ''secp256k1''}"
  shows "\<exists>params m local. BuildParams id parties p 2 curve ''ecdsa'' = Inr (params, m, local)"
proof -
  have "selectCurve curve ''ecdsa'' = Inr S256" using assms(3) settled_words by (auto simp: selectCurve_def)
  moreover have "p \<noteq> []" "set (sort parties) = set parties" "2 \<le> length parties" using assms(1,2) by auto
  ultimately show ?thesis
    using assms(2) by (simp add: BuildParams_def toTSSLibThreshold_def pickLocalPartyID_def partyMap_fold del: sort_key_simps)
qed

lemma quick_RunDKG:
  assumes "dj_Parties job = [''A'', ''B'', ''C'']" "dj_LocalPartyID job \<in> {''A'', ''B'', ''C''}" "dj_Threshold job = 2"
    "dj_Curve job = ''secp256k1''" "dj_Algorithm job = ''ecdsa''"
  shows "\<exists>r'. RunDKG quick_machine t quickGenerated job r = Some (r', None)"
proof -
  obtain rnd where rand: "en_Rand quick_env t = (t, rnd)" by (simp add: quick_env_def)
  obtain params m local where b: "BuildParams id [''A'', ''B'', ''C''] (dj_LocalPartyID job) 2 ''secp256k1'' ''ecdsa'' = Inr (params, m, local)"
    using quick_params [of _ "dj_LocalPartyID job"] assms(2) by fastforce
  have "\<exists>e. newDKGExecution quick_machine cfg c job = Inr e" for cfg c
    using b settled_words assms by (simp add: newDKGExecution_def BuildDKG_def)
  then obtain p where "newDKGExecution quick_machine (rn_cfg r) (idgen_New ''corr'' rnd) job = Inr (New p)"
    using newDKGExecution_New by metis
  then show ?thesis
    using quick_Run [of "ShouldAccept id" sample_lib p t "Some sample_share" None] rand
    by (simp add: RunDKG_def flow_RunDKG_def)
qed

lemma quick_RunSign:
  assumes "sj_Parties job = [''A'', ''B'']" "sj_LocalPartyID job \<in> {''A'', ''B''}" "sj_Digest job = quickDigest"
    "sj_Algorithm job = ''ecdsa''" "sj_KeyDerivationDelta job = Some delta" "\<not> isZeroECDSAShare (sj_KeyShare job)"
  shows "\<exists>r'. RunSign quick_machine t quickSigned job r = Some (r', None)"
proof -
  obtain rnd where rand: "en_Rand quick_env t = (t, rnd)" by (simp add: quick_env_def)
  obtain params m local where b: "BuildParams id [''A'', ''B''] (sj_LocalPartyID job) 2 [] ''ecdsa'' = Inr (params, m, local)"
    using quick_params [of _ "sj_LocalPartyID job"] assms(2) by fastforce
  have "\<exists>e. newSignExecution quick_machine cfg c job = Inr e" for cfg c
    using b assms by (simp add: newSignExecution_def BuildSign_def)
  then obtain p where "newSignExecution quick_machine (rn_cfg r) (idgen_New ''corr'' rnd) job = Inr (New p)"
    using newSignExecution_New by metis
  then show ?thesis
    using quick_Run [of "ShouldAccept id" sample_lib p t None "Some (sample_signature quickDigest)"] settled_words rand assms quickDigest_nonempty
    by (simp add: RunSign_def flow_RunSign_def deliverSignature_def sample_signature_def)
qed

text \<open>The sessions of a party.\<close>

definition quick_pool :: "(memoryShareStore, unit) PreParamsPool" where
  "quick_pool = \<lparr>pp_Acquire = (\<lambda>w. (w, Inr (Some ()))), pp_TryAcquire = None\<rparr>"

lemma newParty_service:
  "sv_activeDKGRuns (py_service (newParty parse getenv managed p)) = {}"
  "sv_preParamsSource (py_service (newParty parse getenv managed p)) = None"
  "sv_preParamsPool (py_service (newParty parse getenv managed p)) = Some managed"
  "py_store (newParty parse getenv managed p) = newMemoryShareStore p"
  by (simp_all add: newParty_def NewBnbService_def NewService_def buildServiceOptions_def WithShareReader_def
      WithShareWriter_def Let_def split: prod.splits)

abbreviation "quickOutput \<equiv> \<lparr>do_KeyID = keyID, do_PublicKey = encode_xy 1 sample_y, do_ChainCode = hex_EncodeToString quickChainCode,
  do_PublicKeyFormat = ''uncompressed_hex'', do_DerivationScheme = ''bip32_secp256k1''\<rparr>"

definition quickInput :: "string \<Rightarrow> DKGInput" where
  "quickInput p = \<lparr>di_SessionID = dkgSessionID, di_LocalPartyID = p, di_OrgID = ''quickstart'', di_KeyID = keyID,
     di_OpaqueDescriptorFingerprint = ''quickstart-v1'', di_Parties = [''A'', ''B'', ''C''], di_Threshold = 2,
     di_Curve = ''secp256k1'', di_Algorithm = ''ecdsa'',
     di_DerivationMaterial = \<lparr>dd_ChainCode = hex_EncodeToString quickChainCode, dd_DerivationScheme = ''bip32_secp256k1''\<rparr>,
     di_EmptyKeyErr = Some (Sentinel ErrKeyIDRequired), di_MissingPub = Some (Sentinel ErrMissingDKGPublicKey)\<rparr>"

lemma quickInput_sel [simp]:
  "di_SessionID (quickInput p) = dkgSessionID" "di_LocalPartyID (quickInput p) = p" "di_Algorithm (quickInput p) = ''ecdsa''"
  by (simp_all add: quickInput_def)

lemma quickInput_built: "buildDKGInput (dkgRequest [''A'', ''B'', ''C''] transports quickChainCode p) = quickInput p"
  by (simp add: buildDKGInput_def dkgRequest_def quickInput_def)

lemma quick_names: "TrimSpace keyID = keyID" "keyID \<noteq> []" "dkgSessionID \<noteq> []" "signSessionID \<noteq> []"
  by (simp_all add: keyID_trimmed) (simp_all add: keyID_def dkgSessionID_def signSessionID_def)

lemma quick_party_named: "p \<in> {''A'', ''B'', ''C''} \<Longrightarrow> TrimSpace p \<noteq> [] \<and> p \<noteq> []"
proof -
  have "TrimSpace ''A'' \<noteq> []" "TrimSpace ''B'' \<noteq> []" "TrimSpace ''C'' \<noteq> []" by code_simp+
  then show "p \<in> {''A'', ''B'', ''C''} \<Longrightarrow> TrimSpace p \<noteq> [] \<and> p \<noteq> []" by auto
qed

lemma quick_dkg_accepted:
  assumes "p \<in> {''A'', ''B'', ''C''}" "transports p \<noteq> None"
  shows "DKG_Validate (dkgRequest [''A'', ''B'', ''C''] transports quickChainCode p) = Inr ()"
  using assms quick_party_named [OF assms(1)] quick_names settled_words
  by (simp add: DKG_Validate_iff wellAddressed_def dkgRequest_def ecdsa_algorithm
      ValidateDKGMaterial_accepts derivationMaterialChainCode_def derivationMaterialScheme_def)

lemma quick_dkg_prepare:
  assumes "sv_preParamsSource s = None" "sv_preParamsPool s = Some quick_pool"
  shows "dkgPrepare s (quickInput p) None False w
    = (w, Inr (keyID, sample_normalized, (buildDKGJob (quickInput p))\<lparr>dj_ECDSAPreParams := Some ()\<rparr>))"
proof -
  have n: "ParseChainCodeHex (hex_EncodeToString quickChainCode) = Inr quickChainCode"
    unfolding ParseChainCodeHex_iff by simp
  have t: "TrimSpace (hex_EncodeToString quickChainCode) \<noteq> []" by (rule blank_hex) simp
  have m: "normalizeDKGMaterial (quickInput p) = Inr sample_normalized"
    using n t sample_hex(1) settled_words
    by (simp add: normalizeDKGMaterial_def ValidateDKGMaterial_def IsECDSAAlgorithm_def settled_def quickInput_def)
  show ?thesis
    using m quick_names quickstart_ecdsa assms
    by (simp add: dkgPrepare_def resolveDKGOutputKeyID_def NormalizeKeyID_def AttachPreParams_def
        ResolvePreParamsSource_def quick_pool_def buildDKGJob_def quickInput_def)
qed

lemma quick_dkg_finish:
  assumes "ExportTemporaryECDSADKGShare (dkgSessionID, p) r = Inr sample_share"
  shows "\<exists>r'. dkgFinish quick_libs (Some SaveShare) (quickInput p) keyID sample_normalized (r, newMemoryShareStore p)
      = ((r', (newMemoryShareStore p)\<lparr>ms_shares := [keyID \<mapsto> ''s'']\<rparr>), Inr quickOutput)"
proof -
  have "EncodeECPointUncompressedSecp256k1 secp256k1 (sp_ECDSAPub sample_share) = Inr (encode_xy 1 sample_y)"
    using Encode_point(1) [OF wf_secp256k1 sample_point] by (simp add: sample_share_def)
  then show ?thesis
    using assms sample_marshal quickstart_ecdsa
    by (simp add: dkgFinish_def buildECDSADKGOutput_def persistECDSAShareAfterDKG_def PersistKeyMaterialAfterDKG_def
        sample_material_def quickInput_def SaveShare_def newMemoryShareStore_def)
qed

lemma quick_party_generates:
  assumes "p \<in> {''A'', ''B'', ''C''}" "transports p \<noteq> None"
  shows "\<exists>x. partyDKG quick_libs (\<lambda>p. quickGenerated) [''A'', ''B'', ''C''] transports quickChainCode p
      (newParty parse getenv quick_pool p) = Some (x, None)
    \<and> py_output x = quickOutput \<and> ms_shares (py_store x) keyID = Some ''s'' \<and> sv_shareReader (py_service x) = Some LoadShare"
proof -
  let ?x0 = "newParty parse getenv quick_pool p"
  let ?k = "(dkgSessionID, p)"
  let ?s1 = "(py_service ?x0)\<lparr>sv_activeDKGRuns := {?k}\<rparr>"
  let ?job = "(buildDKGJob (quickInput p))\<lparr>dj_ECDSAPreParams := Some ()\<rparr>"
  obtain t where t: "transports p = Some t" using assms(2) by auto
  have "\<exists>r. RunDKG quick_machine t quickGenerated ?job (sv_runner ?s1) = Some (r, None)"
    by (rule quick_RunDKG) (use assms(1) in \<open>simp_all add: buildDKGJob_def quickInput_def\<close>)
  then obtain r where r: "RunDKG quick_machine t quickGenerated ?job (sv_runner ?s1) = Some (r, None)" ..
  have "ExportTemporaryECDSADKGShare ?k r = Inr sample_share"
    using RunDKG_effect [OF r] quick_names quick_party_named [OF assms(1)]
    by (auto simp: done_with_def buildDKGJob_def quickInput_def)
  from quick_dkg_finish [OF this] obtain r' where
    f: "dkgFinish quick_libs (Some SaveShare) (quickInput p) keyID sample_normalized (r, newMemoryShareStore p)
      = ((r', (newMemoryShareStore p)\<lparr>ms_shares := [keyID \<mapsto> ''s'']\<rparr>), Inr quickOutput)" by blast
  have "dkgBody quick_libs t quickGenerated (quickInput p) None False (?s1, newMemoryShareStore p)
      = Some ((?s1\<lparr>sv_runner := r'\<rparr>, (newMemoryShareStore p)\<lparr>ms_shares := [keyID \<mapsto> ''s'']\<rparr>), Inr quickOutput)"
    using r f quick_dkg_prepare [of ?s1 p "newMemoryShareStore p"]
    by (simp add: dkgBody_def newParty_service newParty_shares)
  then have "runDKGSession quick_libs t quickGenerated (quickInput p) None False (py_service ?x0, py_store ?x0)
      = Some ((endDKGRun ?k (?s1\<lparr>sv_runner := r'\<rparr>), (newMemoryShareStore p)\<lparr>ms_shares := [keyID \<mapsto> ''s'']\<rparr>), Inr quickOutput)"
    by (simp add: runDKGSession_def beginDKGRun_def newParty_service newParty_shares Let_def)
  then show ?thesis
    using quick_dkg_accepted [of p transports] assms t
    by (simp add: partyDKG_def tss_RunDKGSession_def RunDKGSession_def quickInput_built endDKGRun_def newParty_shares)
       (simp add: dkgRequest_def newParty_shares)
qed

text \<open>The context, with the derived key or without it, and its normal form.\<close>

abbreviation quickCore :: "string \<Rightarrow> Context" where
  "quickCore derived \<equiv> toCoreDerivationContext (quickstartContext\<lparr>dc_DerivedPublicKey := derived\<rparr>)"

definition quickNormal :: "string \<Rightarrow> Context" where
  "quickNormal derived = (quickCore derived)\<lparr>ctx_FullPath := ctx_AccountPath (quickCore derived) @ ''/0/0''\<rparr>"

lemma quick_paths: "canonical_account (ctx_AccountPath (quickCore d))" "canonical_child ''/0/0''" "ParseChildPath ''/0/0'' = Inr [0, 0]"
proof -
  let ?cs = "[''44'' @ [CHR 0x27], ''60'' @ [CHR 0x27], ''0'' @ [CHR 0x27]]"
  have n: "FormatUint 44 = ''44''" "FormatUint 60 = ''60''" "FormatUint 0 = ''0''" by code_simp+
  have "canonical_component (FormatUint k @ [CHR 0x27])" if "k < 2 ^ 31" for k
    using that by (auto simp: canonical_component_def)
  from this [of 44] this [of 60] this [of 0] have "\<forall>c\<in>set ?cs. canonical_component c" by (simp add: n)
  then show "canonical_account (ctx_AccountPath (quickCore d))"
    unfolding canonical_account_def by (intro exI [of _ ?cs]) (simp add: quickstartContext_def toCoreDerivationContext_def)
  have c: "child_path 0 0 = ''/0/0''" by code_simp
  then show "canonical_child ''/0/0''" using canonical_childI [of 0 0] by simp
  show "ParseChildPath ''/0/0'' = Inr [0, 0]"
    using c child_path_TrimSpace [of 0 0] unfolding ParseChildPath_iff by (intro exI [of _ 0]) simp
qed

lemma quick_normal:
  assumes "is_ok (ValidateUncompressedSecp256k1Hex c d)"
  shows "NormalizeContext c (quickCore d) = Inr (quickNormal d)"
proof -
  have t: "TrimSpace ''quickstart-profile'' = ''quickstart-profile''" "TrimSpace ''ethereum'' = ''ethereum''" "TrimSpace [] = []"
    by code_simp+
  have "ToLower (TrimSpace ''uncompressed_hex'') = ''uncompressed_hex''" using settled_constants(7) by (simp add: settled_def)
  with t settled_words have x: "trimFields (quickCore d) = quickCore d" "defaultFields (quickCore d) = quickCore d"
    by (simp_all add: trimFields_def defaultFields_def quickstartContext_def toCoreDerivationContext_def)
  have "NormalizeChildPath ''/0/0'' = Inr (''/0/0'', [0, 0])"
    using NormalizeChildPath_fixes [OF quick_paths(2)] quick_paths(3) by (auto simp: ParseChildPath_def)
  then have "normalizePaths (quickCore d) = Inr (ctx_AccountPath (quickCore d), ''/0/0'', ctx_AccountPath (quickCore d) @ ''/0/0'')"
    using NormalizeAccountPath_fixes [OF quick_paths(1), of d] CanonicalFullPath_canonical [OF quick_paths(1)] t(3)
    by (simp add: normalizePaths_def quickstartContext_def toCoreDerivationContext_def)
  moreover obtain u where "ValidateUncompressedSecp256k1Hex c d = Inr u" using assms by (auto simp: is_ok_iff)
  moreover have e: "(quickCore d)\<lparr>ctx_Scheme := ''bip32_secp256k1''\<rparr> = quickCore d"
    by (simp add: quickstartContext_def toCoreDerivationContext_def)
  moreover have "ctx_DerivedPublicKey (quickCore d) = d"
      "(quickCore d)\<lparr>ctx_AccountPath := ctx_AccountPath (quickCore d), ctx_ChildPath := ''/0/0''\<rparr> = quickCore d"
      "ctx_Curve (quickCore d) = ''secp256k1''" "ctx_Scheme (quickCore d) = ''bip32_secp256k1''"
      "ctx_ProfileID (quickCore d) \<noteq> []" "ctx_Algorithm (quickCore d) = ''ecdsa''"
    by (simp_all add: quickstartContext_def toCoreDerivationContext_def)
  ultimately show ?thesis
    unfolding NormalizeContext_def x normalizeECDSAContext_def quickNormal_def Let_def e by simp
qed

abbreviation quickKey :: string where
  "quickKey \<equiv> encode_xy 1 sample_y"

lemma quick_key_ok: "d \<in> {[], quickKey} \<Longrightarrow> is_ok (ValidateUncompressedSecp256k1Hex secp256k1 d)"
  using sample_point by (auto simp: is_ok_iff Validate_iff [OF wf_secp256k1])

lemma quick_normal_fixed:
  assumes "d \<in> {[], quickKey}"
  shows "NormalizeContext secp256k1 (quickNormal d) = Inr (quickNormal d)"
    "DeriveECDSAChildKeyForContext secp256k1 ckd pub cc (quickNormal d) = DeriveECDSAChildKeyForContext secp256k1 ckd pub cc (quickCore d)"
proof -
  have "is_ascii (ctx_PublicKeyFormat (quickCore d))" by (simp add: toCoreDerivationContext_def quickstartContext_def)
  note n = normalized_context [OF quick_normal [OF quick_key_ok [OF assms]] this]
  show "NormalizeContext secp256k1 (quickNormal d) = Inr (quickNormal d)"
    "DeriveECDSAChildKeyForContext secp256k1 ckd pub cc (quickNormal d) = DeriveECDSAChildKeyForContext secp256k1 ckd pub cc (quickCore d)"
    by (rule n)+
qed

lemma quickNormal_sel [simp]:
  "ctx_Algorithm (quickNormal d) = ''ecdsa''" "ctx_Curve (quickNormal d) = ''secp256k1''" "ctx_ChildPath (quickNormal d) = ''/0/0''"
  "ctx_DerivedPublicKey (quickNormal d) = d" "ctx_Chain (quickNormal d) = ''ethereum''"
  by (simp_all add: quickNormal_def toCoreDerivationContext_def quickstartContext_def)

lemma quick_derivation:
  assumes "d \<in> {[], quickKey}"
  shows "DeriveECDSAChildKeyForContext secp256k1 identity_ckd (Some (mk_point 1 sample_y)) quickChainCode (quickCore d)
   = Inr \<lparr>ck_PublicKey = mk_point 1 sample_y, ck_PublicKeyHex = quickKey, ck_KeyDerivationDelta = 0\<rparr>"
proof -
  have "DeriveECDSAChildKey secp256k1 identity_ckd (Some (mk_point 1 sample_y)) quickChainCode [0, 0]
    = Inr \<lparr>ck_PublicKey = mk_point 1 sample_y, ck_PublicKeyHex = quickKey, ck_KeyDerivationDelta = 0\<rparr>"
    using sample_point Encode_point(2) [OF wf_secp256k1 sample_point]
    by (simp add: DeriveECDSAChildKey_def identity_ckd_def mk_point_def)
  then show ?thesis
    using assms quick_paths(3) by (auto simp: DeriveECDSAChildKeyForContext_def quick_normal [OF quick_key_ok [OF assms]])
qed

lemma quick_child_key:
  "DeriveECDSAChildPublicKey secp256k1 identity_ckd quickKey quickChainCode quickstartContext = Inr quickKey"
proof -
  have "quickstartContext\<lparr>dc_DerivedPublicKey := []\<rparr> = quickstartContext" by (simp add: quickstartContext_def)
  with quick_derivation [of "[]"] show ?thesis
    using Decode_encode_xy [OF wf_secp256k1 sample_point] by (simp add: DeriveECDSAChildPublicKey_def)
qed

lemma quick_hash: "\<exists>h. HashV1 secp256k1 (quickNormal quickKey) = Inr h"
proof -
  have "list_all is_lower_hex quickKey" unfolding encode_xy_def by (rule hex_Encode_lower)
  then have "list_all visible quickKey" by (rule list.pred_mono_strong) (simp add: lower_hex_char)
  then have "is_ascii quickKey" unfolding is_ascii_def by (rule list.pred_mono_strong) (simp add: visible_def)
  then have "list_all (\<lambda>f. is_ascii (snd f)) (hashFields (quickNormal quickKey))"
    by (simp add: hashFields_def quickNormal_def toCoreDerivationContext_def quickstartContext_def)
  then have "\<forall>f\<in>set (hashFields (quickNormal quickKey)). ValidString (snd f)"
    by (auto simp: list_all_iff ValidString_ascii)
  then have "CanonicalHashPayloadV1 secp256k1 (quickNormal quickKey) = Inr (payload_text (quickNormal quickKey))"
    using quick_normal_fixed(1) by (auto simp: CanonicalHashPayloadV1_Inr_iff)
  then show ?thesis by (simp add: HashV1_def)
qed

abbreviation quickSignRequest :: "(string \<Rightarrow> frameEndpoint option) \<Rightarrow> string \<Rightarrow> frameEndpoint SignSessionRequest" where
  "quickSignRequest transports p \<equiv> signRequest [''A'', ''B''] transports quickDigest (quickstartContext\<lparr>dc_DerivedPublicKey := quickKey\<rparr>) p"

lemma signRequest_sel [simp]:
  "sq_DerivationContext (signRequest signers transports digest d p) = Some d"
  "sq_Transport (signRequest signers transports digest d p) = transports p"
  by (simp_all add: signRequest_def)

lemma quick_sign_accepted:
  assumes "p \<in> {''A'', ''B''}" "transports p \<noteq> None"
  shows "Sign_Validate secp256k1 (quickSignRequest transports p) = Inr ()"
proof -
  have n: "NormalizeContext secp256k1 (quickCore quickKey) = Inr (quickNormal quickKey)"
    using quick_normal [OF quick_key_ok] by simp
  have "TrimSpace ''ethereum'' = ''ethereum''" by code_simp
  with settled_words quick_normal_fixed(1) [of quickKey]
  have "MatchSession secp256k1 (quickNormal quickKey) \<lparr>ses_Algorithm = ''ecdsa'', ses_Curve = ''secp256k1'', ses_Chain = ''ethereum''\<rparr> = Inr ()"
    by (simp add: MatchSession_def)
  with n assms quick_party_named [of p] quick_names quickDigest_nonempty show ?thesis
    unfolding Sign_Validate_Inr by (auto simp: wellAddressed_def signRequest_def)
qed

lemma quick_sign_prepare:
  assumes "HashV1 secp256k1 (quickNormal quickKey) = Inr h" "ms_shares w keyID = Some ''s''"
    "inp = signInput (quickSignRequest transports p) (fromCoreDerivationContext (quickNormal quickKey)) h"
  shows "prepareDerivedECDSASignJob quick_libs (Some LoadShare) (signJobOf inp) inp w = (w, Inr (derivedSignJob inp sample_share 0))"
proof -
  have l: "loadECDSAKeyMaterial sample_gob (Some LoadShare) inp w = (w, Inr sample_material)"
    using Unmarshal_Marshal [OF sample_gob_wf sample_marshal] quick_names assms(2,3)
    by (simp add: loadECDSAKeyMaterial_def NormalizeKeyID_def LoadShare_def signRequest_def)
  have "PrepareECDSASigningShare secp256k1 identity_ckd (\<lambda>d s p. Inr s) sample_share quickChainCode (quickNormal quickKey)
    = Inr \<lparr>ps_Share = sample_share, ps_DerivedPublicKey = quickKey, ps_KeyDerivationDelta = 0\<rparr>"
    unfolding PrepareECDSASigningShare_Inr using quick_derivation [of quickKey] quick_normal_fixed(2) [of quickKey] by (simp add: sample_share_def)
  moreover have "checkStoredMaterial sample_material = None"
    unfolding checkStoredMaterial_None by (simp add: sample_material_def valid_material_def)
  moreover have "IsECDSA (sj_Algorithm (signJobOf inp))" using quickstart_ecdsa assms(3) by (simp add: signJobOf_def signInput_def signRequest_def)
  ultimately show ?thesis
    using l assms(1,3) HashV1_nonempty [OF assms(1)]
    by (simp add: prepareDerivedECDSASignJob_def derivedSignJob_def sample_material_def)
qed

lemma quick_party_signs:
  assumes "p \<in> {''A'', ''B''}" "transports p \<noteq> None" "ms_shares (py_store x) keyID = Some ''s''"
    "sv_shareReader (py_service x) = Some LoadShare"
  shows "\<exists>x'. partySign quick_libs (\<lambda>p. quickSigned) [''A'', ''B''] transports quickDigest
      (quickstartContext\<lparr>dc_DerivedPublicKey := quickKey\<rparr>) p x = Some (x', None)
    \<and> ExportECDSASignature signSessionID (sv_runner (py_service x')) = Inr (sample_signature quickDigest)"
proof -
  obtain h where h: "HashV1 secp256k1 (quickNormal quickKey) = Inr h" using quick_hash by blast
  define inp where "inp = signInput (quickSignRequest transports p) (fromCoreDerivationContext (quickNormal quickKey)) h"
  obtain t where t: "transports p = Some t" using assms(2) by auto
  let ?job = "derivedSignJob inp sample_share 0"
  have j: "sj_Parties ?job = [''A'', ''B'']" "sj_LocalPartyID ?job \<in> {''A'', ''B''}" "sj_Digest ?job = quickDigest" "sj_Algorithm ?job = ''ecdsa''"
      "sj_KeyDerivationDelta ?job = Some 0" "\<not> isZeroECDSAShare (sj_KeyShare ?job)" "sj_SessionID ?job = signSessionID"
      "sg_SessionID inp = signSessionID"
    using assms(1) by (simp_all add: derivedSignJob_def inp_def signInput_def signRequest_def signJobOf_def isZeroECDSAShare_def sample_share_def)
  obtain r where r: "RunSign quick_machine t quickSigned ?job (sv_runner (py_service x)) = Some (r, None)"
    using quick_RunSign [OF j(1-6)] by blast
  have "rn_ecdsaSigs r signSessionID = Some (sample_signature quickDigest)"
    using RunSign_effect [OF r] j(3,7) quick_names by (auto simp: done_with_def sample_signature_def)
  then have e: "ExportECDSASignature signSessionID r = Inr (sample_signature quickDigest)"
    using quick_names by (simp add: ExportECDSASignature_def)
  have "RunSignSession quick_libs t quickSigned inp (py_service x, py_store x) = Some (((py_service x)\<lparr>sv_runner := r\<rparr>, py_store x), None)"
    using quick_sign_prepare [OF h assms(3) inp_def] r e j(8) assms(4) by (simp add: RunSignSession_def)
  moreover have "tss_RunSignSession quick_libs quickSigned (quickSignRequest transports p) (py_service x, py_store x)
      = RunSignSession quick_libs t quickSigned inp (py_service x, py_store x)"
    using quick_sign_accepted [of p transports] assms(1,2) t h quick_normal [OF quick_key_ok, of quickKey]
    by (simp add: tss_RunSignSession_def NormalizeDerivationContext_def DerivationContextHashV1_def inp_def)
  ultimately show ?thesis using e by (simp add: partySign_def)
qed

section \<open>Properties\<close>

text \<open>
  C13.  The example program end to end.  When it reports success, the stores of the three parties each
  hold a share of the printed account key with the chain code that was drawn, the printed derived key
  is the child key of that account key for the example's context, and the signature that the first
  party exports is of the digest of the example's text and was accepted, under the derived key, by the
  independent verification; in whatever order the parties finish.
\<close>

theorem quickstart_verified:
  assumes "run wd = Some (st, Inr out)" "wf_gob (lb_gob (wd_lib wd))" "wf_errgroup (wd_group wd)"
    and "distinct (wd_dkgOrder wd)" "set (wd_dkgOrder wd) = {''A'', ''B'', ''C''}"
    and "distinct (wd_signOrder wd)" "set (wd_signOrder wd) = {''A'', ''B''}"
  shows "\<exists>chainCode sig raw key. wd_randomBytes wd 32 = Inr chainCode
    \<and> (\<forall>p\<in>{''A'', ''B'', ''C''}.
         holdsShare (lb_curve (wd_lib wd)) (lb_gob (wd_lib wd)) (pr_account out) chainCode (py_store (st p)))
    \<and> DeriveECDSAChildPublicKey (lb_curve (wd_lib wd)) (lb_ckd (wd_lib wd)) (pr_account out) chainCode quickstartContext
        = Inr (pr_derived out)
    \<and> ExportECDSASignature signSessionID (sv_runner (py_service (st ''A''))) = Inr sig
    \<and> sd_M sig = Sum256 ''BroSettlement quickstart'' \<and> sd_R sig = pr_r out \<and> sd_S sig = pr_s out
    \<and> hex_DecodeString (pr_derived out) = Some raw \<and> wd_ParsePubKey wd raw = Inr key
    \<and> wd_Verify wd key (sd_M sig) (SetBytes (pr_r out)) (SetBytes (pr_s out))"
proof -
  let ?st0 = "newParty (wd_parse wd) (wd_getenv wd) (wd_managed wd)"
  let ?lib = "wd_lib wd"
  let ?digest = "Sum256 ''BroSettlement quickstart''"
  obtain chainCode st1 derived where r: "wd_randomBytes wd 32 = Inr chainCode"
      "runDKG (wd_group wd) ?lib (wd_dkgOcc wd) (wd_dkgOrder wd) (snd (newFrameNetwork [''A'', ''B'', ''C''])) [''A'', ''B'', ''C''] chainCode ?st0 = Some (st1, None)"
      "DeriveECDSAChildPublicKey (lb_curve ?lib) (lb_ckd ?lib) (do_PublicKey (py_output (st1 ''A''))) chainCode quickstartContext = Inr derived"
      "runSign (wd_group wd) ?lib (wd_signOcc wd) (wd_signOrder wd) (snd (newFrameNetwork [''A'', ''B''])) [''A'', ''B''] ?digest
         (quickstartContext\<lparr>dc_DerivedPublicKey := derived\<rparr>) st1 = Some (st, None)"
      "finishRun wd (do_PublicKey (py_output (st1 ''A''))) derived ?digest st = Inr out"
    using assms(1) unfolding run_def Let_def by (auto split: sum.splits option.splits prod.splits)
  have o: "set (wd_dkgOrder wd) = set [''A'', ''B'', ''C'']" using assms(5) by simp
  note d = runDKG_ok [OF r(2) assms(3,4) o list.distinct(2) assms(2) newParty_shares(2)]
  have rd: "sv_shareReader (py_service (st1 p)) = Some LoadShare" if "p \<in> set (wd_signOrder wd)" for p
    using d(2) [of p] that assms(7) by (auto simp: newParty_shares)
  have s: "py_store (st p) = py_store (st1 p)" for p by (rule runSign_ok [OF r(4) assms(3,6) rd])
  from finishRun_Inr [OF r(5)] obtain sig raw key where
    f: "ExportECDSASignature signSessionID (sv_runner (py_service (st ''A''))) = Inr sig" "sd_M sig = ?digest"
      "pr_account out = do_PublicKey (py_output (st1 ''A''))" "pr_derived out = derived" "pr_r out = sd_R sig" "pr_s out = sd_S sig"
      "hex_DecodeString derived = Some raw" "wd_ParsePubKey wd raw = Inr key"
      "wd_Verify wd key ?digest (SetBytes (sd_R sig)) (SetBytes (sd_S sig))" by blast
  have "\<forall>p\<in>{''A'', ''B'', ''C''}. holdsShare (lb_curve ?lib) (lb_gob ?lib) (pr_account out) chainCode (py_store (st p))"
  proof
    fix p assume "p \<in> {''A'', ''B'', ''C''}"
    then have "p \<in> set [''A'', ''B'', ''C'']" by simp
    from d(1) [OF this] show "holdsShare (lb_curve ?lib) (lb_gob ?lib) (pr_account out) chainCode (py_store (st p))"
      unfolding s f(3) by simp
  qed
  then show ?thesis using r(1,3) f by (intro exI [of _ chainCode] exI [of _ sig] exI [of _ raw] exI [of _ key]) simp
qed

text \<open>The run: the parties finish in an order of their own, and the checker accepts the curve point of the key.\<close>

definition quick_world :: "(nat, bytes, unit, bytes) world" where
  "quick_world = \<lparr>wd_lib = quick_libs, wd_group = first_error, wd_parse = (\<lambda>s. None), wd_getenv = (\<lambda>k. []),
     wd_managed = quick_pool, wd_randomBytes = (\<lambda>n. Inr (replicate n CHR 0x01)), wd_ParsePubKey = Inr, wd_Verify = (\<lambda>k d r s. True),
     wd_dkgOrder = [''C'', ''A'', ''B''], wd_dkgOcc = (\<lambda>p. quickGenerated), wd_signOrder = [''B'', ''A''], wd_signOcc = (\<lambda>p. quickSigned)\<rparr>"

lemma quick_world_sel [simp]:
  "wd_lib quick_world = quick_libs" "wd_group quick_world = first_error" "wd_managed quick_world = quick_pool"
  "wd_randomBytes quick_world n = Inr (replicate n CHR 0x01)" "wd_ParsePubKey quick_world b = Inr b" "wd_Verify quick_world k d r s"
  "wd_dkgOrder quick_world = [''C'', ''A'', ''B'']" "wd_dkgOcc quick_world = (\<lambda>p. quickGenerated)"
  "wd_signOrder quick_world = [''B'', ''A'']" "wd_signOcc quick_world = (\<lambda>p. quickSigned)"
  by (simp_all add: quick_world_def)

lemma quick_network:
  "snd (newFrameNetwork [''A'', ''B'', ''C'']) ''A'' \<noteq> None" "snd (newFrameNetwork [''A'', ''B'', ''C'']) ''B'' \<noteq> None"
  "snd (newFrameNetwork [''A'', ''B'', ''C'']) ''C'' \<noteq> None" "snd (newFrameNetwork [''A'', ''B'']) ''A'' \<noteq> None"
  "snd (newFrameNetwork [''A'', ''B'']) ''B'' \<noteq> None"
  by (simp_all add: newFrameNetwork_def Let_def)

lemma quick_run: "\<exists>st out. run quick_world = Some (st, Inr out)"
proof -
  let ?st0 = "newParty (wd_parse quick_world) (wd_getenv quick_world) quick_pool"
  let ?dt = "snd (newFrameNetwork [''A'', ''B'', ''C''])" and ?stt = "snd (newFrameNetwork [''A'', ''B''])"
  have "\<forall>p\<in>{''A'', ''B'', ''C''}. \<exists>x. partyDKG quick_libs (\<lambda>p. quickGenerated) [''A'', ''B'', ''C''] ?dt quickChainCode p (?st0 p) = Some (x, None)
      \<and> py_output x = quickOutput \<and> ms_shares (py_store x) keyID = Some ''s'' \<and> sv_shareReader (py_service x) = Some LoadShare"
    using quick_network by (intro ballI quick_party_generates) auto
  then obtain st1 where d: "\<And>p. p \<in> {''A'', ''B'', ''C''} \<Longrightarrow>
      partyDKG quick_libs (\<lambda>p. quickGenerated) [''A'', ''B'', ''C''] ?dt quickChainCode p (?st0 p) = Some (st1 p, None)
      \<and> py_output (st1 p) = quickOutput \<and> ms_shares (py_store (st1 p)) keyID = Some ''s'' \<and> sv_shareReader (py_service (st1 p)) = Some LoadShare"
    by metis
  let ?st1 = "?st0(''C'' := st1 ''C'', ''A'' := st1 ''A'', ''B'' := st1 ''B'')"
  have k: "runDKG first_error quick_libs (\<lambda>p. quickGenerated) [''C'', ''A'', ''B''] ?dt [''A'', ''B'', ''C''] quickChainCode ?st0 = Some (?st1, None)"
    using d [of "''A''"] d [of "''B''"] d [of "''C''"] by (simp add: runDKG_def runParties_def first_error_def)
  have "\<forall>p\<in>{''A'', ''B''}. \<exists>x. partySign quick_libs (\<lambda>p. quickSigned) [''A'', ''B''] ?stt quickDigest
        (quickstartContext\<lparr>dc_DerivedPublicKey := quickKey\<rparr>) p (st1 p) = Some (x, None)
      \<and> ExportECDSASignature signSessionID (sv_runner (py_service x)) = Inr (sample_signature quickDigest)"
    using quick_network d by (intro ballI quick_party_signs) auto
  then obtain st2 where s: "\<And>p. p \<in> {''A'', ''B''} \<Longrightarrow>
      partySign quick_libs (\<lambda>p. quickSigned) [''A'', ''B''] ?stt quickDigest (quickstartContext\<lparr>dc_DerivedPublicKey := quickKey\<rparr>) p (st1 p)
        = Some (st2 p, None)
      \<and> ExportECDSASignature signSessionID (sv_runner (py_service (st2 p))) = Inr (sample_signature quickDigest)"
    by metis
  let ?st2 = "?st1(''B'' := st2 ''B'', ''A'' := st2 ''A'')"
  have g: "runSign first_error quick_libs (\<lambda>p. quickSigned) [''B'', ''A''] ?stt [''A'', ''B''] quickDigest
      (quickstartContext\<lparr>dc_DerivedPublicKey := quickKey\<rparr>) ?st1 = Some (?st2, None)"
    using s [of "''A''"] s [of "''B''"] by (simp add: runSign_def runParties_def first_error_def)
  have "hex_DecodeString quickKey \<noteq> None" by (simp add: encode_xy_def)
  then have "\<exists>out. finishRun quick_world quickKey quickKey quickDigest ?st2 = Inr out"
    using s [of "''A''"] by (auto simp: finishRun_def Service_ExportECDSASignature_def verifyECDSA_def sample_signature_def)
  moreover have "run quick_world = Some (?st2, finishRun quick_world quickKey quickKey quickDigest ?st2)"
    using k g quick_child_key d [of "''A''"] unfolding run_def Let_def by (simp add: quickDigest_def)
  ultimately show ?thesis by auto
qed

theorem quickstart_verified_witness:
  "\<exists>st out key. run quick_world = Some (st, Inr out) \<and> holdsShare secp256k1 sample_gob (pr_account out) quickChainCode (py_store (st ''C''))
     \<and> hex_DecodeString (pr_derived out) = Some key"
proof -
  obtain st out where r: "run quick_world = Some (st, Inr out)" using quick_run by blast
  have "wf_gob (lb_gob (wd_lib quick_world))" using sample_gob_wf by simp
  from quickstart_verified [OF r this] show ?thesis using r wf_first_error by auto
qed

end
