(* ===== verification/Spec2Isabelle.thy ===== *)
theory Spec2Isabelle
  imports Session_Protocol Session_Log Example_Verified
begin

text \<open>
  Verification of the BroSettlement MPC core, a Go library that runs threshold key generation and
  derived ECDSA signing on top of tss-lib.

  \<^bold>\<open>The program.\<close>  An application creates a service (\<^verbatim>\<open>tss/service.go\<close>) with a share reader, a share writer
  and a pool of pre-parameters, and asks it for sessions.  A request is checked, turned into the
  input of the internal service (\<^verbatim>\<open>internal/tss/service\<close>) and run by a runner
  (\<^verbatim>\<open>internal/tssbnb/runner\<close>, \<^verbatim>\<open>flow\<close>), which starts one protocol execution
  (\<^verbatim>\<open>internal/tssbnb/execution\<close>): goroutines that receive frames, forward tss-lib's messages, watch for
  stalls and hand the result to a main loop.  Key generation persists the share through the codec of
  \<^verbatim>\<open>internal/shares\<close>; signing loads it, derives a child key for a context
  (\<^verbatim>\<open>internal/tss/derivation\<close>) whose hash the peers compare, and signs with the adjusted share.

  \<^bold>\<open>Theories, from the bottom.\<close>
  \<^item> \<open>Prelude\<close>: errors, results, octets; the locales \<open>normalizer\<close>, \<open>codec\<close>, \<open>canonical_codec\<close>,
    \<open>invariant_system\<close>.  \<open>Go_Unicode\<close>, \<open>Go_Strings\<close>, \<open>Go_Strconv\<close>, \<open>Sha256\<close>: what the code uses of Go's library.
  \<^item> \<open>Derivation_Path\<close>, \<open>Public_Key\<close>, \<open>Derivation_Context\<close>, \<open>Derivation_Hash\<close>, \<open>Derivation_Keys\<close>:
    \<^verbatim>\<open>internal/tss/derivation\<close>.  Accepted texts are characterised exactly and are canonical; the hash
    payload is injective, so that equal hashes mean equal contexts or a SHA-256 collision; derivation
    uses the two indices of the context and never yields a key other than the committed one.
  \<^item> \<open>Share_Codec\<close>: \<^verbatim>\<open>internal/shares\<close> and the persistence of \<^verbatim>\<open>internal/tss/runtime\<close>.  Round trip,
    acceptance of version 2 only, inspection without panics.
  \<^item> \<open>Preparams_Handle\<close>: single-use handles as a heap of pointers; at most one use, exact counters.
  \<^item> \<open>Path_Safety\<close>, \<open>Cache_FS\<close>, \<open>Pool\<close>, \<open>Pool_Runs\<close>: \<^verbatim>\<open>tss/utils/path_safety.go\<close> and \<^verbatim>\<open>internal/preparams\<close>.
    The locale \<open>cache_dir\<close> is the contract of the file system with faults and crashes; \<open>dirFS\<close>, the package's
    adapter over a faulty directory, satisfies it.  \<open>pool_step\<close> interleaves callers, generators and the refill loop.  Durable publication and
    removal, no reuse of pre-parameters across a crash, bounds, no lost wake-up.
  \<^item> \<open>Config_Env\<close>: configuration from the environment.
  \<^item> \<open>Frames\<close>, \<open>Deduper\<close>, \<open>Execution\<close>, \<open>Recv_Worker\<close>, \<open>Outbound_Pump\<close>: one protocol execution.  \<open>Run\<close> is the
    main loop over the occurrences it meets, \<open>recv_step\<close> and \<open>pump_step\<close> are the transition systems of
    the workers.  What reaches the protocol, what is published and when, replays, order.
  \<^item> \<open>Session_Run\<close>, \<open>Session_Shutdown\<close>, \<open>Session_Refinement\<close>, \<open>Session_Stats\<close>, \<open>Session_Protocol\<close>:
    the runtime of an execution (\<^verbatim>\<open>runtime.go\<close>, \<^verbatim>\<open>startWorkers\<close>) with its five goroutines, their
    errgroup and the main loop, composed into \<open>session_step\<close>.  A session returns only when all workers
    have; success means the published result and every message sent; a stopping session is never stuck;
    the counters are exact; the tss-lib party was updated by the messages of admitted frames only, in
    order and, within the bounds of the filter, none twice.  \<open>Run\<close> is the specification of this system:
    every interleaved execution that returns is a run of \<open>Run\<close> on the events that the main loop took, so
    that what is shown of the flows holds for the goroutines.
  \<^item> \<open>Build_Params\<close>, \<open>Session_Flow\<close>: parameters of tss-lib, the flows and the runner with its two maps.
  \<^item> \<open>Service\<close>, \<open>Key_Generation\<close>: the session handlers alone and, with \<open>dkg_step\<close>, concurrently.
  \<^item> \<open>Api\<close>: the public package, its request checks, options and pool management.  \<open>Session_Log\<close>: what is
    logged about a session.
  \<^item> \<open>Example_Network\<close>, \<open>Example_Run\<close>, \<open>Example_Verified\<close>: the program under \<^verbatim>\<open>examples\<close>.  Its network and its share
    store, which satisfies the contract \<open>share_store\<close> the service relies on, and the whole 2-of-3 run:
    when it reports success, three stores hold shares of one key and the printed signature verifies
    under the derived key.
  \<^item> This theory: a key's life from the key-generation request to a signature.

  \<^bold>\<open>Conventions.\<close>  A struct is a record whose fields carry a short prefix, a method a function on the
  state it changes; an error is a value of the chain type \<open>error\<close>, a panic one of its sentinels, a nil
  pointer or interface \<open>None\<close>.  Atomic and unsigned counters are machine words; durations, sizes and
  the pool's generator count, which the code keeps far from its width, are integers.  Calls that wait
  for a peer or an item yield \<open>None\<close> while they wait.  No model uses fuel: loops over data are
  structural recursions, \<open>ensureRefillWorkers\<close> ends by a measure on the free slots, and the main loop
  of an execution recurses on the occurrences it is given.

  \<^bold>\<open>Parameters.\<close>  Code that is not in the repository is an argument: the curve (\<open>wf_curve\<close>, satisfied by
  \<open>secp256k1\<close>), the gob format (\<open>wf_gob\<close>), key derivation and share adjustment of tss-lib, its protocol
  machine, the transport, clock, contexts and randomness, the application's share store, the calls of
  the operating system, \<^verbatim>\<open>errgroup\<close> (\<open>wf_errgroup\<close>: the first error), \<^verbatim>\<open>time.ParseDuration\<close> and, in the example,
  \<^verbatim>\<open>btcec.ParsePubKey\<close> and \<^verbatim>\<open>ecdsa.Verify\<close>.  Named hypotheses state what is relied on, and each has a concrete instance.

  \<^bold>\<open>Not modelled.\<close>  Debug log lines, stack dumps and the metrics sink, which have no influence on
  results (the calls to the metrics are recorded); interface declarations, type aliases and the
  re-exports of errors; the options that install a metrics sink; \<^verbatim>\<open>newPoolForTest\<close>; \<^verbatim>\<open>wrapPublicDerivationError\<close>,
  which only a test calls; the timeout and the panic of the example's \<^verbatim>\<open>main\<close>.  Scheduling fairness is not
  assumed: statements on the goroutines are about every interleaving, and progress is shown as the
  possibility to go on (\<open>session_can_return\<close>, \<open>refill_never_sleeps_short\<close>).
\<close>

section \<open>From key generation to signing\<close>

text \<open>The signing half: what a signing request does with the material that the store holds for its key.\<close>

lemma tss_signs_with_stored:
  assumes "tss_RunSignSession lib occ sreq (s, w) = Some ((s', w'), None)" "wf_curve (lb_curve lib)"
    and "sv_shareReader s = Some load" "snd (load w storeKey) = Inr (Some \<lparr>ss_Blob = blob\<rparr>)" "storeKey \<noteq> []"
    and "UnmarshalKeyMaterial (lb_gob lib) blob = Inr \<lparr>km_Share = share, km_ChainCode = cc,
           km_PublicKeyFormat = ''uncompressed_hex'', km_DerivationScheme = ''bip32_secp256k1''\<rparr>"
    and "EncodeECPointUncompressedSecp256k1 (lb_curve lib) (sp_ECDSAPub share) = Inr publicKey"
    and "TrimSpace (ss_KeyID (sq_Session sreq)) = storeKey" "sq_DerivationContext sreq = Some ctx"
    and "is_ascii (dc_PublicKeyFormat ctx)" "rn_ecdsaSigs (sv_runner s) (ss_SessionID (sq_Session sreq)) = None"
  obtains child :: ECDSAChildKey and adjusted job sig
  where "DeriveECDSAChildPublicKey (lb_curve lib) (lb_ckd lib) publicKey cc ctx = Inr (ck_PublicKeyHex child)"
    "EncodeUncompressedSecp256k1 (lb_curve lib) (Some (ck_PublicKey child)) = Inr (ck_PublicKeyHex child)"
    "dc_DerivedPublicKey ctx \<in> {[], ck_PublicKeyHex child}"
    "lb_adjust lib (ck_KeyDerivationDelta child) share (ck_PublicKey child) = Inr adjusted"
    "sj_KeyShare job = adjusted" "sj_KeyDerivationDelta job = Some (ck_KeyDerivationDelta child)" "sj_Digest job = sq_Digest sreq"
    "RunSign (lb_machine lib) (the (sq_Transport sreq)) occ job (sv_runner s) = Some (sv_runner s', None)"
    "ExportECDSASignature (ss_SessionID (sq_Session sreq)) (sv_runner s') = Inr sig" "sd_M sig = sq_Digest sreq"
proof -
  obtain n h where g: "ss_SessionID (sq_Session sreq) \<noteq> []" "NormalizeContext (lb_curve lib) (toCoreDerivationContext ctx) = Inr n"
      "RunSignSession lib (the (sq_Transport sreq)) occ (signInput sreq (fromCoreDerivationContext n) h) (s, w) = Some ((s', w'), None)"
    using tss_RunSignSession_ran [OF assms(1)] assms(9) by (metis option.inject)
  let ?inp = "signInput sreq (fromCoreDerivationContext n) h"
  have a: "is_ascii (ctx_PublicKeyFormat (toCoreDerivationContext ctx))"
      "ctx_DerivedPublicKey (toCoreDerivationContext ctx) = dc_DerivedPublicKey ctx"
    using assms(10) by (simp_all add: toCoreDerivationContext_def)
  obtain material child adjusted sig where r:
      "loadECDSAKeyMaterial (lb_gob lib) (sv_shareReader s) ?inp w = (w', Inr material)"
      "DeriveECDSAChildKeyForContext (lb_curve lib) (lb_ckd lib) (sp_ECDSAPub (km_Share material)) (km_ChainCode material) n
         = Inr child"
      "lb_adjust lib (ck_KeyDerivationDelta child) (km_Share material) (ck_PublicKey child) = Inr adjusted"
      "RunSign (lb_machine lib) (the (sq_Transport sreq)) occ (derivedSignJob ?inp adjusted (ck_KeyDerivationDelta child))
         (sv_runner s) = Some (sv_runner s', None)"
      "ExportECDSASignature (ss_SessionID (sq_Session sreq)) (sv_runner s') = Inr (sig\<lparr>sd_M := sq_Digest sreq\<rparr>)"
    using RunSignSession_effect [OF g(3)] g(1) assms(11) by auto
  have "material = \<lparr>km_Share = share, km_ChainCode = cc, km_PublicKeyFormat = ''uncompressed_hex'',
      km_DerivationScheme = ''bip32_secp256k1''\<rparr>"
    using r(1) assms(3-6,8) by (auto simp: loadECDSAKeyMaterial_def NormalizeKeyID_def split: prod.splits)
  then have m: "km_Share material = share" "km_ChainCode material = cc" by simp_all
  obtain p where p: "sp_ECDSAPub share = Some p" "DecodeUncompressedSecp256k1Hex (lb_curve lib) publicKey = Inr p"
    using assms(7) EncodeECPoint_Inr_iff [OF assms(2)] Decode_Inr_iff [OF assms(2)]
    by (cases "sp_ECDSAPub share") (auto simp: EncodeECPointUncompressedSecp256k1_def)
  have k: "DeriveECDSAChildKeyForContext (lb_curve lib) (lb_ckd lib) (Some p) cc (toCoreDerivationContext ctx) = Inr child"
    using r(2) normalized_context(3) [OF g(2) a(1)] by (simp add: m p(1))
  then have "DeriveECDSAChildPublicKey (lb_curve lib) (lb_ckd lib) publicKey cc ctx = Inr (ck_PublicKeyHex child)"
    by (simp add: DeriveECDSAChildPublicKey_def p(2))
  then show thesis
    using derived_child_key [OF k] a(2) r(3-5) m(1)
    by (intro that [where job = "derivedSignJob ?inp adjusted (ck_KeyDerivationDelta child)"
          and sig = "sig\<lparr>sd_M := sq_Digest sreq\<rparr>"]) (simp_all add: derivedSignJob_def signJobOf_def)
qed


text \<open>The sample service generates a key and signs with it.\<close>

definition sample_dkg_request :: "Frame list DKGSessionRequest" where
  "sample_dkg_request = \<lparr>dq_Session = \<lparr>ds_SessionID = ''s'', ds_OrgID = ''o'', ds_KeyID = ''k'', ds_Parties = [''A'', ''B''],
     ds_Threshold = 2, ds_Algorithm = [], ds_Curve = []\<rparr>, dq_LocalPartyID = ''B'', dq_OpaqueDescriptorFingerprint = [],
     dq_DerivationMaterial = Some \<lparr>dd_ChainCode = hex_EncodeToString (replicate 32 CHR 0x01),
       dd_DerivationScheme = ''bip32_secp256k1''\<rparr>, dq_Transport = Some []\<rparr>"

lemma sample_dkg_accepted: "DKG_Validate sample_dkg_request = Inr ()"
proof -
  have "TrimSpace ''B'' \<noteq> []" "TrimSpace ''k'' \<noteq> []" by code_simp+
  moreover have "ToLower (TrimSpace ''bip32_secp256k1'') = ''bip32_secp256k1''" "ToLower (TrimSpace []) = []" by code_simp+
  ultimately show ?thesis
    by (simp add: DKG_Validate_iff wellAddressed_def sample_dkg_request_def ecdsa_algorithm
        ValidateDKGMaterial_accepts derivationMaterialChainCode_def derivationMaterialScheme_def)
qed

lemma sample_dkg_request_input: "buildDKGInput sample_dkg_request = sample_dkg_input"
  by (simp add: buildDKGInput_def sample_dkg_request_def sample_dkg_input_def)

definition sample_sign_request :: "Frame list SignSessionRequest" where
  "sample_sign_request = \<lparr>sq_Session = \<lparr>ss_SessionID = ''s'', ss_OrgID = ''o'', ss_KeyID = ''k'', ss_Parties = [''A'', ''B''],
     ss_Threshold = 2, ss_Algorithm = [], ss_Curve = [], ss_Chain = []\<rparr>, sq_LocalPartyID = ''B'',
     sq_Digest = [CHR 0x00, CHR ''d''], sq_DerivationContext = Some (fromCoreDerivationContext sample_context),
     sq_Transport = Some []\<rparr>"

lemma sample_sign_accepted: "Sign_Validate secp256k1 sample_sign_request = Inr ()"
proof -
  have t: "TrimSpace ''B'' \<noteq> []" "TrimSpace ''k'' \<noteq> []" "TrimSpace [] = []" "ToLower (TrimSpace []) = []" by code_simp+
  have "MatchSession secp256k1 sample_context \<lparr>ses_Algorithm = [], ses_Curve = [], ses_Chain = []\<rparr> = Inr ()"
    using t by (simp add: MatchSession_def sample_context_fixed) (simp add: sample_context_def)
  with t show ?thesis
    unfolding Sign_Validate_Inr by (simp add: wellAddressed_def sample_sign_request_def sample_context_fixed)
qed

lemma sample_sign_request_run:
  assumes "HashV1 secp256k1 sample_context = Inr h"
  shows "tss_RunSignSession sample_libs occ sample_sign_request sw = RunSignSession sample_libs [] occ (sample_sign_input h) sw"
proof -
  have "signInput sample_sign_request (fromCoreDerivationContext sample_context) h = sample_sign_input h"
    by (simp add: signInput_def sample_sign_request_def sample_sign_input_def)
  moreover have "sq_DerivationContext sample_sign_request = Some (fromCoreDerivationContext sample_context)"
      "sq_Transport sample_sign_request = Some []"
    by (simp_all add: sample_sign_request_def)
  ultimately show ?thesis
    using assms sample_sign_accepted
    by (simp add: tss_RunSignSession_def NormalizeDerivationContext_def sample_context_fixed DerivationContextHashV1_def)
qed


end
